theory Spec2Isabelle
  imports Complex_Main
begin

section \<open>ROBAST AMultilayer: the coherent transfer-matrix method\<close>

text \<open>
  A shallow embedding of \<^verbatim>\<open>src/src/AMultilayer.cxx\<close>.

  Numbers. The code computes in \<^verbatim>\<open>Double_t\<close> and \<^verbatim>\<open>std::complex<Double_t>\<close>; the
  embedding computes in \<^typ>\<open>real\<close> and \<^typ>\<open>complex\<close>, that is, without rounding,
  without overflow, with one zero (read as \<open>+0\<close> where the sign decides, see
  \<open>asin\<close>) and without the IEEE values infinity and NaN. Three consequences are
  kept visible instead of being hidden:
  \<^item> a stored thickness may be infinite (the constructor stores \<^verbatim>\<open>inf\<close> twice), so
    thicknesses have a type of their own and the solver refuses (\<open>None\<close>) a stack
    whose phases it would have to compute from a non-finite thickness;
  \<^item> \<open>x / 0\<close> is \<open>0\<close> in HOL and an infinity or NaN in the code, so the theorems below
    state the formulas the code evaluates; at an input where a divisor vanishes the value
    of a formula in HOL is not its value in the code;
  \<^item> a value beyond the largest double overflows in the code and not in the embedding;
    where that decides a claim, the theorem compares the exact value with \<open>DBL_MAX\<close>.
\<close>

subsection \<open>Constants and library functions\<close>

text \<open>\<^verbatim>\<open>std::numeric_limits<double>::epsilon()\<close>, the gap between 1 and the next double.\<close>

definition EPSILON :: real where
  "EPSILON = 1 / 2 ^ 52"

text \<open>\<^verbatim>\<open>std::numeric_limits<double>::max()\<close>, the largest finite double.\<close>

definition DBL_MAX :: real where
  "DBL_MAX = (2 - 1 / 2 ^ 52) * 2 ^ 1023"

text \<open>
  \<^verbatim>\<open>std::asin\<close> on complex numbers: the principal branch of the inverse sine. Off
  the two cuts of the real axis beyond \<open>\<plusminus>1\<close> it is \<open>-i log (i z + sqrt (1 - z\<^sup>2))\<close> with
  the principal logarithm and square root. On the cuts the library decides by the sign of
  the imaginary zero of its argument: at \<open>(x, +0)\<close> it returns
  \<open>sgn x \<cdot> \<pi>/2 + i arcosh |x|\<close>, at \<open>(x, -0)\<close> the conjugate. \<^typ>\<open>complex\<close> has one zero;
  the embedding reads it as \<open>+0\<close>. That is the zero the solver passes when the indices
  and the incidence angle are real and positive: the imaginary part of
  \<^verbatim>\<open>n_list[0] * std::sin(th_0) / n_list[i]\<close> is then \<open>+0\<close>.
\<close>

definition clog :: "complex \<Rightarrow> complex" where
  "clog z = Complex (ln (cmod z)) (Arg z)"

definition asin :: "complex \<Rightarrow> complex" where
  "asin z =
     (if Im z = 0 \<and> 1 < \<bar>Re z\<bar>
      then Complex (sgn (Re z) * (pi / 2)) (ln (\<bar>Re z\<bar> + sqrt ((Re z)\<^sup>2 - 1)))
      else - \<i> * clog (\<i> * z + csqrt (1 - z\<^sup>2)))"

subsection \<open>Diagnostics\<close>

text \<open>
  ROOT's \<^verbatim>\<open>Error(location, format, ...)\<close> prints a message and returns; it neither throws
  nor ends the calling function. The embedding collects the messages, in order, in a list.
\<close>

datatype message =
    GainAmbiguous complex complex
  | DirectionUnclear complex complex
  | InputError
  | OpacityWarning

subsection \<open>The stack\<close>

text \<open>
  Modelled from the spec: the declaration of \<^verbatim>\<open>ARefractiveIndex\<close> is not among the
  sources; a dispersion model is the capability \<open>index_at(\<lambda>)\<close>, a function from the vacuum
  wavelength to a complex refractive index (\<^verbatim>\<open>GetComplexRefractiveIndex\<close>).
\<close>

type_synonym ARefractiveIndex = "real \<Rightarrow> complex"

text \<open>A \<^verbatim>\<open>Double_t\<close> thickness as it is stored: a finite number, an infinity or a NaN.\<close>

datatype thickness = Finite real | PlusInfinity | MinusInfinity | NotANumber

text \<open>The constant \<^verbatim>\<open>inf\<close> of the source is \<open>PlusInfinity\<close>.\<close>

record AMultilayer =
  fRefractiveIndexList :: "ARefractiveIndex list"
  fThicknessList :: "thickness list"

text \<open>
  \<^verbatim>\<open>v.insert(v.end() - 1, x)\<close>: the new element goes immediately before the last one.
  On an empty vector \<^verbatim>\<open>end() - 1\<close> is not a valid iterator (undefined behaviour):
  \<open>None\<close>.
\<close>

fun insert_before_last :: "'a \<Rightarrow> 'a list \<Rightarrow> 'a list option" where
  "insert_before_last x [] = None"
| "insert_before_last x [y] = Some [x, y]"
| "insert_before_last x (y # ys) = map_option (\<lambda>zs. y # zs) (insert_before_last x ys)"

definition InsertLayer :: "ARefractiveIndex \<Rightarrow> thickness \<Rightarrow> AMultilayer \<Rightarrow> AMultilayer option" where
  "InsertLayer idx d ml =
     (case insert_before_last idx (fRefractiveIndexList ml) of
        None \<Rightarrow> None
      | Some ns \<Rightarrow>
          (case insert_before_last d (fThicknessList ml) of
             None \<Rightarrow> None
           | Some ds \<Rightarrow> Some (ml\<lparr>fRefractiveIndexList := ns, fThicknessList := ds\<rparr>)))"

text \<open>
  The constructor pushes the bottom layer onto the two empty lists and then inserts the
  top layer with \<^verbatim>\<open>InsertLayer\<close>.
\<close>

definition AMultilayer_new :: "ARefractiveIndex \<Rightarrow> ARefractiveIndex \<Rightarrow> AMultilayer option" where
  "AMultilayer_new top_idx bottom_idx =
     InsertLayer top_idx PlusInfinity
       \<lparr>fRefractiveIndexList = [] @ [bottom_idx], fThicknessList = [] @ [PlusInfinity]\<rparr>"

text \<open>A sequence of \<^verbatim>\<open>InsertLayer\<close> calls on one stack, stopping at the first failure.\<close>

fun InsertLayers :: "(ARefractiveIndex \<times> thickness) list \<Rightarrow> AMultilayer \<Rightarrow> AMultilayer option" where
  "InsertLayers [] ml = Some ml"
| "InsertLayers ((idx, d) # ls) ml =
     (case InsertLayer idx d ml of None \<Rightarrow> None | Some ml' \<Rightarrow> InsertLayers ls ml')"

subsection \<open>The forward-angle diagnostic\<close>

text \<open>
  \<^verbatim>\<open>IsForwardAngle(n, theta)\<close> returns its answer together with the messages it printed:
  the gain-medium message first, then up to three consistency messages.
\<close>

definition IsForwardAngle :: "complex \<Rightarrow> complex \<Rightarrow> bool \<times> message list" where
  "IsForwardAngle n theta =
     (let gain = (if Re n * Im n < 0 then [GainAmbiguous n theta] else []);
          ncostheta = n * cos theta;
          answer = (if \<bar>Im ncostheta\<bar> > 100 * EPSILON then Im ncostheta > 0
                    else Re ncostheta > 0);
          err = DirectionUnclear n theta;
          checks =
            (if answer then
               (if Im ncostheta \<le> - 100 * EPSILON then [err] else []) @
               (if Re ncostheta \<le> - 100 * EPSILON then [err] else []) @
               (if Re (n * cos (cnj theta)) \<le> - 100 * EPSILON then [err] else [])
             else
               (if Im ncostheta \<ge> 100 * EPSILON then [err] else []) @
               (if Re ncostheta \<ge> 100 * EPSILON then [err] else []) @
               (if Re (n * cos (cnj theta)) < 100 * EPSILON then [err] else []))
      in (answer, gain @ checks))"

subsection \<open>Snell's law through the stack\<close>

text \<open>
  \<^verbatim>\<open>ListSnell(th_0, n_list, th_list)\<close> appends one angle per layer to the vector it is
  given and then corrects the first and the last entry of that vector. The layer count
  is the stack's (\<^verbatim>\<open>fRefractiveIndexList.size()\<close>). Reading \<^verbatim>\<open>n_list[i]\<close> beyond the
  end, or the first or last entry of an empty vector, is undefined behaviour: \<open>None\<close>.
  The result is the vector and the messages of the two diagnostic calls.
\<close>

definition ListSnell ::
  "AMultilayer \<Rightarrow> complex \<Rightarrow> complex list \<Rightarrow> complex list \<Rightarrow> (complex list \<times> message list) option" where
  "ListSnell ml th_0 n_list th_list =
     (let num_layers = length (fRefractiveIndexList ml) in
      if length n_list < num_layers \<or> n_list = [] \<or> (th_list = [] \<and> num_layers = 0) then None
      else
        let th1 = th_list @ map (\<lambda>i. asin (n_list ! 0 * sin th_0 / n_list ! i)) [0..<num_layers];
            (fwd0, log0) = IsForwardAngle (n_list ! 0) (th1 ! 0);
            th2 = (if \<not> fwd0 then th1[0 := of_real pi - hd th1] else th1);
            (fwdN, logN) = IsForwardAngle (last n_list) (last th2);
            th3 = (if \<not> fwdN then th2[length th2 - 1 := of_real pi - last th2] else th2)
        in Some (th3, log0 @ logN))"

subsection \<open>2 x 2 complex matrices\<close>

text \<open>
  Modelled from the spec: \<^verbatim>\<open>A2x2ComplexMatrix.h\<close> is not among the sources. The spec
  describes a value of four complex components (m00, m01, m10, m11) with the row-by-column
  product, left multiplication by a complex scalar, right division by a complex scalar,
  and componentwise access.
\<close>

datatype A2x2ComplexMatrix =
  A2x2ComplexMatrix (Get00: complex) (Get01: complex) (Get10: complex) (Get11: complex)

definition mat_mult :: "A2x2ComplexMatrix \<Rightarrow> A2x2ComplexMatrix \<Rightarrow> A2x2ComplexMatrix" where
  "mat_mult A B =
     A2x2ComplexMatrix
       (Get00 A * Get00 B + Get01 A * Get10 B) (Get00 A * Get01 B + Get01 A * Get11 B)
       (Get10 A * Get00 B + Get11 A * Get10 B) (Get10 A * Get01 B + Get11 A * Get11 B)"

definition scalar_mult :: "complex \<Rightarrow> A2x2ComplexMatrix \<Rightarrow> A2x2ComplexMatrix" where
  "scalar_mult c A = A2x2ComplexMatrix (c * Get00 A) (c * Get01 A) (c * Get10 A) (c * Get11 A)"

definition mat_div :: "A2x2ComplexMatrix \<Rightarrow> complex \<Rightarrow> A2x2ComplexMatrix" where
  "mat_div A c = A2x2ComplexMatrix (Get00 A / c) (Get01 A / c) (Get10 A / c) (Get11 A / c)"

subsection \<open>The solver\<close>

datatype EPolarization = kS | kP

text \<open>
  The input tests. \<^verbatim>\<open>||\<close> evaluates its right operand, the diagnostic call, only when
  the left one is false. The branch prints one message and the function goes on.
\<close>

definition input_tests :: "complex list \<Rightarrow> complex \<Rightarrow> message list" where
  "input_tests n_list th_0 =
     (if \<bar>Im (n_list ! 0 * sin th_0)\<bar> \<ge> 100 * EPSILON then [InputError]
      else
        let (fwd, msgs) = IsForwardAngle (n_list ! 0) th_0
        in msgs @ (if \<not> fwd then [InputError] else []))"

definition kz_list_of :: "nat \<Rightarrow> complex list \<Rightarrow> complex list \<Rightarrow> real \<Rightarrow> complex list" where
  "kz_list_of num_layers n_list th_list lam_vac =
     map (\<lambda>i. of_real (2 * pi) * n_list ! i * cos (th_list ! i) / of_real lam_vac) [0..<num_layers]"

text \<open>
  \<^verbatim>\<open>delta[i] = kz_list[i] * fThicknessList[i]\<close>. With a finite thickness this is a complex
  number; with an infinite or NaN thickness (always so at the two ends of the stack) it is
  not, and the entry is \<open>None\<close>.
\<close>

fun phase :: "complex \<Rightarrow> thickness \<Rightarrow> complex option" where
  "phase kz (Finite d) = Some (kz * of_real d)"
| "phase kz PlusInfinity = None"
| "phase kz MinusInfinity = None"
| "phase kz NotANumber = None"

definition delta_of :: "nat \<Rightarrow> complex list \<Rightarrow> thickness list \<Rightarrow> complex option list" where
  "delta_of num_layers kz_list d_list = map (\<lambda>i. phase (kz_list ! i) (d_list ! i)) [0..<num_layers]"

text \<open>
  The opacity loop, \<^verbatim>\<open>i = 1 .. num_layers - 2\<close>, on the phases, the static flag
  \<^verbatim>\<open>opacity_warning\<close> and the messages printed so far. The comparison
  \<^verbatim>\<open>delta[i].imag() > 35\<close> on a phase that is not a number is outside the embedding:
  \<open>None\<close>.
\<close>

fun opacity_loop ::
  "nat list \<Rightarrow> complex option list \<times> bool \<times> message list \<Rightarrow>
   (complex option list \<times> bool \<times> message list) option" where
  "opacity_loop [] st = Some st"
| "opacity_loop (i # idxs) (delta, opacity_warning, msgs) =
     (case delta ! i of
        None \<Rightarrow> None
      | Some d \<Rightarrow>
          if Im d > 35 then
            opacity_loop idxs
              (delta[i := Some (of_real (Re d) + Complex 0 35)], True,
               if opacity_warning = False then msgs @ [OpacityWarning] else msgs)
          else opacity_loop idxs (delta, opacity_warning, msgs))"

text \<open>
  The interface loop, \<^verbatim>\<open>i = 0 .. num_layers - 2\<close>, writing \<^verbatim>\<open>t_list[i]\<close> and
  \<^verbatim>\<open>r_list[i]\<close>; both vectors start as \<^verbatim>\<open>num_layers\<close> zeros.
\<close>

definition fresnel_step ::
  "EPolarization \<Rightarrow> complex list \<Rightarrow> complex list \<Rightarrow> nat \<Rightarrow>
   complex list \<times> complex list \<Rightarrow> complex list \<times> complex list" where
  "fresnel_step polarization n_list th_list i tr =
     (let (t_list, r_list) = tr;
          cosi = cos (th_list ! i);
          cosf = cos (th_list ! (i + 1));
          ii = n_list ! i * cosi
      in if polarization = kS then
           let ff = n_list ! (i + 1) * cosf
           in (t_list[i := 2 * ii / (ii + ff)], r_list[i := (ii - ff) / (ii + ff)])
         else
           let fi = n_list ! (i + 1) * cosi;
               i_f = n_list ! i * cosf
           in (t_list[i := 2 * ii / (fi + i_f)], r_list[i := (fi - i_f) / (fi + i_f)]))"

definition fresnel_lists ::
  "EPolarization \<Rightarrow> nat \<Rightarrow> complex list \<Rightarrow> complex list \<Rightarrow> complex list \<times> complex list" where
  "fresnel_lists polarization num_layers n_list th_list =
     fold (fresnel_step polarization n_list th_list) [0..<num_layers - 1]
       (replicate num_layers 0, replicate num_layers 0)"

text \<open>
  The matrix loop, \<^verbatim>\<open>i = 1 .. num_layers - 2\<close>, pushing
  \<^verbatim>\<open>1. / t_list[i] * A2x2ComplexMatrix(exp(-j delta[i]), 0, 0, exp(j delta[i])) *
  A2x2ComplexMatrix(1, r_list[i], r_list[i], 1)\<close> onto \<^verbatim>\<open>M_list\<close>; the operators associate
  to the left.
\<close>

fun M_loop ::
  "complex list \<Rightarrow> complex list \<Rightarrow> complex option list \<Rightarrow> nat list \<Rightarrow>
   A2x2ComplexMatrix list \<Rightarrow> A2x2ComplexMatrix list option" where
  "M_loop t_list r_list delta [] M_list = Some M_list"
| "M_loop t_list r_list delta (i # idxs) M_list =
     (case delta ! i of
        None \<Rightarrow> None
      | Some d \<Rightarrow>
          M_loop t_list r_list delta idxs
            (M_list @
             [mat_mult
                (scalar_mult (1 / t_list ! i)
                   (A2x2ComplexMatrix (exp (- \<i> * d)) 0 0 (exp (\<i> * d))))
                (A2x2ComplexMatrix 1 (r_list ! i) (r_list ! i) 1)]))"

definition Mtilde_of :: "nat \<Rightarrow> complex list \<Rightarrow> complex list \<Rightarrow> A2x2ComplexMatrix list \<Rightarrow> A2x2ComplexMatrix" where
  "Mtilde_of num_layers t_list r_list M_list =
     (let Mtilde = fold (\<lambda>i Mtilde. mat_mult Mtilde (M_list ! i)) [1..<num_layers - 1]
                     (A2x2ComplexMatrix 1 0 0 1)
      in mat_mult (mat_div (A2x2ComplexMatrix 1 (r_list ! 0) (r_list ! 0) 1) (t_list ! 0)) Mtilde)"

text \<open>
  The net amplitudes \<^verbatim>\<open>r\<close> and \<^verbatim>\<open>t\<close>, and the last lines of the function: the
  reflected and transmitted power. \<^verbatim>\<open>th_i\<close> is the argument \<^verbatim>\<open>th_0\<close>, not the first
  entry of \<^verbatim>\<open>th_list\<close>; \<^verbatim>\<open>th_f\<close> is the last entry of \<^verbatim>\<open>th_list\<close>.
\<close>

definition amplitudes :: "A2x2ComplexMatrix \<Rightarrow> complex \<times> complex" where
  "amplitudes Mtilde = (Get10 Mtilde / Get00 Mtilde, 1 / Get00 Mtilde)"

definition powers ::
  "EPolarization \<Rightarrow> complex list \<Rightarrow> complex \<Rightarrow> complex list \<Rightarrow> complex \<times> complex \<Rightarrow> real \<times> real" where
  "powers polarization n_list th_0 th_list rt =
     (let (r, t) = rt;
          n_i = n_list ! 0;
          n_f = last n_list;
          th_i = th_0;
          th_f = last th_list
      in (cmod r * cmod r,
          (if polarization = kS then
             cmod (t * t) * (Re (n_f * cos th_f) / Re (n_i * cos th_i))
           else
             cmod (t * t) * (Re (n_f * cnj (cos th_f)) / Re (n_i * cnj (cos th_i))))))"

record tmm_result =
  messages :: "message list"
  warned :: bool
  reflectance :: real
  transmittance :: real

text \<open>
  \<^verbatim>\<open>CoherentTMM(polarization, th_0, lam_vac, reflectance, transmittance)\<close> on the stack
  \<open>ml\<close>, with the value of the static flag \<^verbatim>\<open>opacity_warning\<close> before the call as an
  argument and its value after the call in the result (\<open>warned\<close>). \<open>None\<close>: fewer than
  two layers or a thickness list shorter than the index list (the loops would read
  beyond the vectors), or a phase needed that is not a number.
\<close>

definition CoherentTMM ::
  "EPolarization \<Rightarrow> complex \<Rightarrow> real \<Rightarrow> AMultilayer \<Rightarrow> bool \<Rightarrow> tmm_result option" where
  "CoherentTMM polarization th_0 lam_vac ml opacity_warning =
     (let num_layers = length (fRefractiveIndexList ml);
          n_list = map (\<lambda>idx. idx lam_vac) (fRefractiveIndexList ml)
      in if num_layers < 2 \<or> length (fThicknessList ml) < num_layers then None
         else
           (let msgs_in = input_tests n_list th_0
            in case ListSnell ml th_0 n_list [] of
                 None \<Rightarrow> None
               | Some (th_list, msgs_snell) \<Rightarrow>
                   (let kz_list = kz_list_of num_layers n_list th_list lam_vac;
                        delta0 = delta_of num_layers kz_list (fThicknessList ml)
                    in case opacity_loop [1..<num_layers - 1] (delta0, opacity_warning, []) of
                         None \<Rightarrow> None
                       | Some (delta, warned', msgs_opacity) \<Rightarrow>
                           (let (t_list, r_list) =
                                  fresnel_lists polarization num_layers n_list th_list
                            in case M_loop t_list r_list delta [1..<num_layers - 1]
                                      [A2x2ComplexMatrix 0 0 0 0] of
                                 None \<Rightarrow> None
                               | Some M_inner \<Rightarrow>
                                   (let M_list = M_inner @ [A2x2ComplexMatrix 0 0 0 0];
                                        Mtilde = Mtilde_of num_layers t_list r_list M_list;
                                        (R, T) = powers polarization n_list th_0 th_list
                                                   (amplitudes Mtilde)
                                    in Some
                                         (tmm_result.make (msgs_in @ msgs_snell @ msgs_opacity)
                                            warned' R T))))))"

section \<open>Specification-level definitions\<close>

text \<open>
  The quantities of the specification, written from its formulas. The theorems below
  compare them with what the loops of the code compute.
\<close>

subsection \<open>Angles\<close>

text \<open>
  The Snell angle of layer \<open>i\<close>, \<open>arcsin (n\<^sub>0 sin \<theta>\<^sub>0 / n\<^sub>i)\<close>, and the branch
  correction: an angle that fails the forward-angle diagnostic is replaced by \<open>\<pi> - \<theta>\<close>.
  In the angle list only the first and the last entry are corrected.
\<close>

definition snell_angle :: "complex list \<Rightarrow> complex \<Rightarrow> nat \<Rightarrow> complex" where
  "snell_angle n_list th_0 i = asin (n_list ! 0 * sin th_0 / n_list ! i)"

definition forward_corrected :: "complex \<Rightarrow> complex \<Rightarrow> complex" where
  "forward_corrected n theta = (if fst (IsForwardAngle n theta) then theta else of_real pi - theta)"

definition th_list_spec :: "complex list \<Rightarrow> complex \<Rightarrow> complex list" where
  "th_list_spec n th_0 =
     map (\<lambda>i. if i = 0 \<or> i = length n - 1
              then forward_corrected (n ! i) (snell_angle n th_0 i)
              else snell_angle n th_0 i) [0..<length n]"

text \<open>
  The messages of the two diagnostic calls of \<^verbatim>\<open>ListSnell\<close>.
\<close>

definition snell_messages :: "complex list \<Rightarrow> complex \<Rightarrow> message list" where
  "snell_messages n th_0 =
     snd (IsForwardAngle (n ! 0) (snell_angle n th_0 0)) @
     snd (IsForwardAngle (last n) (snell_angle n th_0 (length n - 1)))"

subsection \<open>Phases and the opacity clamp\<close>

text \<open>
  The phase of layer \<open>i\<close> is \<open>\<delta>\<^sub>i = kz\<^sub>i d\<^sub>i\<close> with \<open>kz\<^sub>i = (2\<pi>/\<lambda>) n\<^sub>i cos \<theta>\<^sub>i\<close>;
  \<open>x i\<close> is the finite thickness of the interior layer \<open>i\<close>. The clamp replaces a phase
  whose imaginary part exceeds 35 by its real part plus \<open>35 i\<close>. A stack is opaque
  when the clamp applies to one of its interior layers.
\<close>

definition clamp :: "complex \<Rightarrow> complex" where
  "clamp d = (if Im d > 35 then Complex (Re d) 35 else d)"

definition spec_phase :: "complex list \<Rightarrow> complex list \<Rightarrow> real \<Rightarrow> (nat \<Rightarrow> real) \<Rightarrow> nat \<Rightarrow> complex" where
  "spec_phase n th lam x i = of_real (2 * pi / lam) * n ! i * cos (th ! i) * of_real (x i)"

definition spec_delta :: "complex list \<Rightarrow> complex list \<Rightarrow> real \<Rightarrow> (nat \<Rightarrow> real) \<Rightarrow> nat \<Rightarrow> complex" where
  "spec_delta n th lam x i = clamp (spec_phase n th lam x i)"

definition opaque :: "complex list \<Rightarrow> complex list \<Rightarrow> real \<Rightarrow> (nat \<Rightarrow> real) \<Rightarrow> bool" where
  "opaque n th lam x =
     (\<exists>i \<in> {1..<length n - 1}. Im (spec_phase n th lam x i) > 35)"

subsection \<open>Interface amplitudes and matrices\<close>

text \<open>
  The Fresnel amplitudes of the interface between the layers \<open>i\<close> and \<open>i + 1\<close>, the matrix
  \<open>M\<^sub>i = (1/t\<^sub>i) [[e\<^sup>-\<^sup>j\<^sup>\<delta>, 0], [0, e\<^sup>j\<^sup>\<delta>]] [[1, r\<^sub>i], [r\<^sub>i, 1]]\<close> of an interior layer, the
  left-to-right product of a list of matrices (the identity for the empty list), and
  \<open>(1/t\<^sub>0) [[1, r\<^sub>0], [r\<^sub>0, 1]]\<close> times the product of the interior matrices.
\<close>

definition spec_t :: "EPolarization \<Rightarrow> complex list \<Rightarrow> complex list \<Rightarrow> nat \<Rightarrow> complex" where
  "spec_t pol n th i =
     (case pol of
        kS \<Rightarrow> 2 * n ! i * cos (th ! i) / (n ! i * cos (th ! i) + n ! (i + 1) * cos (th ! (i + 1)))
      | kP \<Rightarrow> 2 * n ! i * cos (th ! i) / (n ! (i + 1) * cos (th ! i) + n ! i * cos (th ! (i + 1))))"

definition spec_r :: "EPolarization \<Rightarrow> complex list \<Rightarrow> complex list \<Rightarrow> nat \<Rightarrow> complex" where
  "spec_r pol n th i =
     (case pol of
        kS \<Rightarrow> (n ! i * cos (th ! i) - n ! (i + 1) * cos (th ! (i + 1))) /
              (n ! i * cos (th ! i) + n ! (i + 1) * cos (th ! (i + 1)))
      | kP \<Rightarrow> (n ! (i + 1) * cos (th ! i) - n ! i * cos (th ! (i + 1))) /
              (n ! (i + 1) * cos (th ! i) + n ! i * cos (th ! (i + 1))))"

definition spec_M :: "complex \<Rightarrow> complex \<Rightarrow> complex \<Rightarrow> A2x2ComplexMatrix" where
  "spec_M t r d =
     scalar_mult (1 / t)
       (mat_mult (A2x2ComplexMatrix (exp (- \<i> * d)) 0 0 (exp (\<i> * d))) (A2x2ComplexMatrix 1 r r 1))"

fun spec_product :: "A2x2ComplexMatrix list \<Rightarrow> A2x2ComplexMatrix" where
  "spec_product [] = A2x2ComplexMatrix 1 0 0 1"
| "spec_product (M # Ms) = mat_mult M (spec_product Ms)"

definition spec_Mtilde ::
  "EPolarization \<Rightarrow> complex list \<Rightarrow> complex list \<Rightarrow> (nat \<Rightarrow> complex) \<Rightarrow> A2x2ComplexMatrix" where
  "spec_Mtilde pol n th delta =
     scalar_mult (1 / spec_t pol n th 0)
       (mat_mult (A2x2ComplexMatrix 1 (spec_r pol n th 0) (spec_r pol n th 0) 1)
          (spec_product
             (map (\<lambda>i. spec_M (spec_t pol n th i) (spec_r pol n th i) (delta i))
                [1..<length n - 1])))"

subsection \<open>A process: a sequence of solves\<close>

text \<open>
  The static flag \<^verbatim>\<open>opacity_warning\<close> lives as long as the process. A process is a
  list of calls of \<^verbatim>\<open>CoherentTMM\<close>; each call receives the flag the previous one left.
  The result is everything the calls printed, in order; it is \<open>None\<close> when the embedding
  cannot follow one of the calls.
\<close>

type_synonym solve_call = "EPolarization \<times> complex \<times> real \<times> AMultilayer"

fun process_messages :: "solve_call list \<Rightarrow> bool \<Rightarrow> message list option" where
  "process_messages [] opacity_warning = Some []"
| "process_messages ((polarization, th_0, lam_vac, ml) # calls) opacity_warning =
     (case CoherentTMM polarization th_0 lam_vac ml opacity_warning of
        None \<Rightarrow> None
      | Some res \<Rightarrow>
          map_option (\<lambda>msgs. messages res @ msgs) (process_messages calls (warned res)))"

text \<open>
  The stacks on which the embedding follows the solver to its end: at least two layers,
  a thickness for every index, and finite thicknesses in the interior.
\<close>

definition finite_interior :: "AMultilayer \<Rightarrow> bool" where
  "finite_interior ml \<longleftrightarrow>
     2 \<le> length (fRefractiveIndexList ml) \<and>
     length (fRefractiveIndexList ml) \<le> length (fThicknessList ml) \<and>
     (\<forall>i \<in> {1..<length (fRefractiveIndexList ml) - 1}.
        case fThicknessList ml ! i of Finite d \<Rightarrow> True | _ \<Rightarrow> False)"

subsection \<open>Concrete stacks\<close>

text \<open>
  Modelled from the spec: the constant dispersion model returns a fixed complex value at
  every wavelength. The stacks are written as the constructor and \<^verbatim>\<open>InsertLayer\<close> leave
  them.
\<close>

definition AConstantIndex :: "complex \<Rightarrow> ARefractiveIndex" where
  "AConstantIndex n = (\<lambda>lam. n)"

definition two_layers :: "complex \<Rightarrow> complex \<Rightarrow> AMultilayer" where
  "two_layers n0 n1 =
     \<lparr>fRefractiveIndexList = [AConstantIndex n0, AConstantIndex n1],
      fThicknessList = [PlusInfinity, PlusInfinity]\<rparr>"

definition three_layers :: "complex \<Rightarrow> complex \<Rightarrow> real \<Rightarrow> complex \<Rightarrow> AMultilayer" where
  "three_layers n0 n1 d n2 =
     \<lparr>fRefractiveIndexList = [AConstantIndex n0, AConstantIndex n1, AConstantIndex n2],
      fThicknessList = [PlusInfinity, Finite d, PlusInfinity]\<rparr>"

subsection \<open>Mode amplitudes and power flux\<close>

text \<open>
  Quantities used in the proof of energy conservation. A pair \<open>(v, w)\<close> holds the
  amplitudes of the forward and the backward wave in one layer; a matrix of the solver
  maps the pair in one layer to the pair in the layer before it. The matrix \<open>M\<^sub>i\<close> of the
  solver is the product of a propagation matrix and an interface matrix. With \<open>p\<close> the
  value of \<open>n cos \<theta>\<close> in a layer, \<open>flux p (v, w)\<close> is the power that the two waves carry
  across the layer, up to a common factor.
\<close>

definition mat_apply :: "A2x2ComplexMatrix \<Rightarrow> complex \<times> complex \<Rightarrow> complex \<times> complex" where
  "mat_apply A u = (Get00 A * fst u + Get01 A * snd u, Get10 A * fst u + Get11 A * snd u)"

definition flux :: "complex \<Rightarrow> complex \<times> complex \<Rightarrow> real" where
  "flux p u = Re (p * (fst u - snd u) * cnj (fst u + snd u))"

definition interface :: "EPolarization \<Rightarrow> complex list \<Rightarrow> complex list \<Rightarrow> nat \<Rightarrow> A2x2ComplexMatrix" where
  "interface pol n th i =
     scalar_mult (1 / spec_t pol n th i)
       (A2x2ComplexMatrix 1 (spec_r pol n th i) (spec_r pol n th i) 1)"

definition propagate :: "complex \<Rightarrow> A2x2ComplexMatrix" where
  "propagate d = A2x2ComplexMatrix (exp (- \<i> * d)) 0 0 (exp (\<i> * d))"

section \<open>Auxiliary lemmas\<close>

subsection \<open>The stack\<close>

lemma insert_before_last_eq:
  "xs \<noteq> [] \<Longrightarrow> insert_before_last x xs = Some (butlast xs @ [x, last xs])"
  by (induction x xs rule: insert_before_last.induct) auto

lemma InsertLayer_eq:
  assumes "fRefractiveIndexList ml \<noteq> []" and "fThicknessList ml \<noteq> []"
  shows "InsertLayer idx d ml =
           Some (ml\<lparr>fRefractiveIndexList :=
                       butlast (fRefractiveIndexList ml) @ [idx, last (fRefractiveIndexList ml)],
                     fThicknessList :=
                       butlast (fThicknessList ml) @ [d, last (fThicknessList ml)]\<rparr>)"
  using assms by (simp add: InsertLayer_def insert_before_last_eq)

lemma AMultilayer_new_eq:
  "AMultilayer_new t b =
     Some \<lparr>fRefractiveIndexList = [t, b], fThicknessList = [PlusInfinity, PlusInfinity]\<rparr>"
  by (simp add: AMultilayer_new_def InsertLayer_def)

lemma InsertLayers_eq:
  "InsertLayers ls \<lparr>fRefractiveIndexList = t # ns @ [b], fThicknessList = dt # ds @ [db]\<rparr> =
     Some \<lparr>fRefractiveIndexList = t # (ns @ map fst ls) @ [b],
           fThicknessList = dt # (ds @ map snd ls) @ [db]\<rparr>"
proof (induction ls arbitrary: ns ds)
  case Nil
  show ?case by simp
next
  case (Cons l ls)
  obtain idx d where l: "l = (idx, d)" by (cases l)
  have step: "InsertLayer idx d \<lparr>fRefractiveIndexList = t # ns @ [b], fThicknessList = dt # ds @ [db]\<rparr> =
      Some \<lparr>fRefractiveIndexList = t # (ns @ [idx]) @ [b], fThicknessList = dt # (ds @ [d]) @ [db]\<rparr>"
    by (simp add: InsertLayer_eq butlast_append)
  show ?case
    unfolding l using Cons.IH [of "ns @ [idx]" "ds @ [d]"] by (simp add: step del: append_assoc)
qed

lemma two_layers_wf:
  "2 \<le> length (fRefractiveIndexList (two_layers a b))"
  "length (fRefractiveIndexList (two_layers a b)) \<le> length (fThicknessList (two_layers a b))"
  "\<forall>i. 1 \<le> i \<and> i < length (fRefractiveIndexList (two_layers a b)) - 1 \<longrightarrow>
       fThicknessList (two_layers a b) ! i = Finite 0"
  by (simp_all add: two_layers_def)

lemma three_layers_wf:
  "2 \<le> length (fRefractiveIndexList (three_layers a b d c))"
  "length (fRefractiveIndexList (three_layers a b d c)) \<le> length (fThicknessList (three_layers a b d c))"
  "\<forall>i. 1 \<le> i \<and> i < length (fRefractiveIndexList (three_layers a b d c)) - 1 \<longrightarrow>
       fThicknessList (three_layers a b d c) ! i = Finite d"
proof -
  have "i = 1" if "1 \<le> i" "i < 3 - 1" for i :: nat using that by simp
  then show "\<forall>i. 1 \<le> i \<and> i < length (fRefractiveIndexList (three_layers a b d c)) - 1 \<longrightarrow>
       fThicknessList (three_layers a b d c) ! i = Finite d"
    by (auto simp: three_layers_def)
qed (simp_all add: three_layers_def)

subsection \<open>Diagnostics and angles\<close>

lemma EPSILON_pos: "0 < EPSILON"
  by (simp add: EPSILON_def)

lemma Arg_1: "Arg 1 = 0"
  by (rule cis_Arg_unique) simp_all

lemma asin_0: "asin 0 = 0"
  by (simp add: asin_def clog_def Arg_1 complex_eq_iff)

lemma IsForwardAngle_1_0: "IsForwardAngle 1 0 = (True, [])"
  using EPSILON_pos by (simp add: IsForwardAngle_def Let_def)

lemma IsForwardAngle_m1_0: "IsForwardAngle (- 1) 0 = (False, [DirectionUnclear (- 1) 0])"
  using EPSILON_pos by (simp add: IsForwardAngle_def Let_def)

lemma IsForwardAngle_messages:
  "set (snd (IsForwardAngle n theta)) \<subseteq> {GainAmbiguous n theta, DirectionUnclear n theta}"
proof -
  let ?e = "DirectionUnclear n theta"
  define A where "A = fst (IsForwardAngle n theta)"
  have eq: "snd (IsForwardAngle n theta) =
      (if Re n * Im n < 0 then [GainAmbiguous n theta] else []) @
      (if A then
               (if Im (n * cos theta) \<le> - 100 * EPSILON then [?e] else []) @
               (if Re (n * cos theta) \<le> - 100 * EPSILON then [?e] else []) @
               (if Re (n * cos (cnj theta)) \<le> - 100 * EPSILON then [?e] else [])
             else
               (if Im (n * cos theta) \<ge> 100 * EPSILON then [?e] else []) @
               (if Re (n * cos theta) \<ge> 100 * EPSILON then [?e] else []) @
               (if Re (n * cos (cnj theta)) < 100 * EPSILON then [?e] else []))"
    unfolding A_def IsForwardAngle_def Let_def fst_conv snd_conv ..
  show ?thesis
    unfolding eq by (cases A) auto
qed

lemma ListSnell_Some:
  assumes N: "2 \<le> length (fRefractiveIndexList ml)"
    and len: "length n_list = length (fRefractiveIndexList ml)"
  shows "\<exists>th. ListSnell ml th_0 n_list [] =
             Some (th, snd (IsForwardAngle (n_list ! 0) (snell_angle n_list th_0 0)) @
                       snd (IsForwardAngle (last n_list) (snell_angle n_list th_0 (length n_list - 1)))) \<and>
           length th = length n_list \<and>
           (\<forall>i < length n_list. th ! i =
              (if i = 0 \<or> i = length n_list - 1
               then forward_corrected (n_list ! i) (snell_angle n_list th_0 i)
               else snell_angle n_list th_0 i))"
proof -
  define N where "N = length (fRefractiveIndexList ml)"
  define th1 where "th1 = map (\<lambda>i. asin (n_list ! 0 * sin th_0 / n_list ! i)) [0..<N]"
  define th2 where "th2 = (if \<not> fst (IsForwardAngle (n_list ! 0) (th1 ! 0)) then th1[0 := of_real pi - hd th1] else th1)"
  define th3 where "th3 = (if \<not> fst (IsForwardAngle (last n_list) (last th2)) then th2[length th2 - 1 := of_real pi - last th2] else th2)"
  have N2: "2 \<le> N" and lenN: "length n_list = N" using N len by (simp_all add: N_def)
  have l1: "length th1 = N" by (simp add: th1_def)
  have l2: "length th2 = N" by (simp add: th2_def l1)
  have l3: "length th3 = N" by (simp add: th3_def l2)
  have ne: "n_list \<noteq> []" "th1 \<noteq> []" "th2 \<noteq> []" using N2 lenN l1 l2 by auto
  have run: "ListSnell ml th_0 n_list [] =
      Some (th3, snd (IsForwardAngle (n_list ! 0) (th1 ! 0)) @ snd (IsForwardAngle (last n_list) (last th2)))"
  proof -
    have "fRefractiveIndexList ml \<noteq> []" using N by auto
    then show ?thesis
      using N len ne(1)
      by (simp add: ListSnell_def Let_def case_prod_beta N_def th1_def th2_def th3_def)
  qed
  have e1: "th1 ! i = snell_angle n_list th_0 i" if "i < N" for i
    using that by (simp add: th1_def snell_angle_def)
  have h1: "hd th1 = th1 ! 0" using ne by (simp add: hd_conv_nth)
  have e2: "th2 ! 0 = forward_corrected (n_list ! 0) (snell_angle n_list th_0 0)"
    using N2 l1 e1 [of 0] by (simp add: th2_def forward_corrected_def h1)
  have e2': "th2 ! i = snell_angle n_list th_0 i" if "0 < i" "i < N" for i
    using that e1 [of i] by (simp add: th2_def)
  have lastn: "last n_list = n_list ! (N - 1)" using ne lenN by (simp add: last_conv_nth)
  have last2: "last th2 = snell_angle n_list th_0 (N - 1)"
    using ne l2 N2 e2' [of "N - 1"] by (simp add: last_conv_nth)
  have e3: "th3 ! (N - 1) = forward_corrected (n_list ! (N - 1)) (snell_angle n_list th_0 (N - 1))"
    using N2 l2 e2' [of "N - 1"] by (simp add: th3_def forward_corrected_def lastn last2)
  have e3': "th3 ! i = th2 ! i" if "i < N - 1" for i
    using that l2 by (simp add: th3_def)
  have "th3 ! i = (if i = 0 \<or> i = N - 1
               then forward_corrected (n_list ! i) (snell_angle n_list th_0 i)
               else snell_angle n_list th_0 i)" if "i < N" for i
  proof (cases "i = N - 1")
    case True
    then show ?thesis using e3 by simp
  next
    case False
    then have lt: "i < N - 1" using that by simp
    show ?thesis
    proof (cases "i = 0")
      case True
      then show ?thesis using e3' [OF lt] e2 by simp
    next
      case False
      then show ?thesis using e3' [OF lt] e2' [of i] that \<open>i \<noteq> N - 1\<close> by simp
    qed
  qed
  moreover have "th1 ! 0 = snell_angle n_list th_0 0" using e1 [of 0] N2 by simp
  ultimately show ?thesis using run l3 lenN last2 by auto
qed

lemma snell_messages_set:
  "OpacityWarning \<notin> set (snell_messages n th_0)" "InputError \<notin> set (snell_messages n th_0)"
  using IsForwardAngle_messages [of "n ! 0" "snell_angle n th_0 0"]
    IsForwardAngle_messages [of "last n" "snell_angle n th_0 (length n - 1)"]
  by (auto simp: snell_messages_def)

lemma ListSnell_th_list_spec:
  assumes N: "2 \<le> length (fRefractiveIndexList ml)"
    and len: "length n_list = length (fRefractiveIndexList ml)"
  shows "ListSnell ml th_0 n_list [] = Some (th_list_spec n_list th_0, snell_messages n_list th_0)"
proof -
  obtain th where run: "ListSnell ml th_0 n_list [] = Some (th, snell_messages n_list th_0)"
    and l: "length th = length n_list"
    and nth: "\<forall>i < length n_list. th ! i =
              (if i = 0 \<or> i = length n_list - 1
               then forward_corrected (n_list ! i) (snell_angle n_list th_0 i)
               else snell_angle n_list th_0 i)"
    using ListSnell_Some [OF N len] unfolding snell_messages_def by blast
  have "th = th_list_spec n_list th_0"
  proof (rule nth_equalityI)
    show "length th = length (th_list_spec n_list th_0)"
      using l by (simp add: th_list_spec_def)
  next
    fix i assume "i < length th"
    then have i: "i < length n_list" using l by simp
    show "th ! i = th_list_spec n_list th_0 ! i"
      unfolding th_list_spec_def using i nth by simp
  qed
  then show ?thesis using run by simp
qed

lemma ListSnell_messages:
  assumes "ListSnell ml th_0 n_list th_list = Some (th, msgs)"
  shows "OpacityWarning \<notin> set msgs"
proof -
  from assms obtain n1 a1 n2 a2 where "msgs = snd (IsForwardAngle n1 a1) @ snd (IsForwardAngle n2 a2)"
    by (auto simp: ListSnell_def Let_def case_prod_beta split: if_splits)
  then show ?thesis
    using IsForwardAngle_messages [of n1 a1] IsForwardAngle_messages [of n2 a2] by auto
qed

lemma input_tests_no_opacity: "OpacityWarning \<notin> set (input_tests n th_0)"
  using IsForwardAngle_messages [of "n ! 0" th_0]
  by (auto simp: input_tests_def case_prod_beta split: if_splits)

lemma th_list_spec_two: "th_list_spec [a, b] th_0 =
   [forward_corrected a (snell_angle [a, b] th_0 0), forward_corrected b (snell_angle [a, b] th_0 1)]"
  by (simp add: th_list_spec_def upt_rec)

subsection \<open>Matrices and loops\<close>

lemma mat_mult_assoc: "mat_mult (mat_mult A B) C = mat_mult A (mat_mult B C)"
  by (simp add: mat_mult_def algebra_simps)

lemma mat_mult_id_right: "mat_mult A (A2x2ComplexMatrix 1 0 0 1) = A"
  by (cases A) (simp add: mat_mult_def)

lemma mat_mult_id_left: "mat_mult (A2x2ComplexMatrix 1 0 0 1) A = A"
  by (cases A) (simp add: mat_mult_def)

lemma scalar_mult_mat_mult: "mat_mult (scalar_mult c A) B = scalar_mult c (mat_mult A B)"
  by (simp add: mat_mult_def scalar_mult_def algebra_simps)

lemma mat_div_scalar_mult: "mat_div A c = scalar_mult (1 / c) A"
  by (simp add: mat_div_def scalar_mult_def)

lemma fold_mat_mult:
  "fold (\<lambda>i M. mat_mult M (g i)) idxs A = mat_mult A (spec_product (map g idxs))"
  by (induction idxs arbitrary: A) (simp_all add: mat_mult_id_right mat_mult_assoc)

lemma M_loop_Some:
  assumes "\<forall>i \<in> set idxs. delta ! i = Some (d i)"
  shows "M_loop t_list r_list delta idxs acc =
           Some (acc @ map (\<lambda>i. spec_M (t_list ! i) (r_list ! i) (d i)) idxs)"
  using assms
  by (induction idxs arbitrary: acc) (simp_all add: spec_M_def scalar_mult_mat_mult)

lemma fresnel_fold:
  "k \<le> N \<Longrightarrow>
   fold (fresnel_step pol n th) [0..<k] (replicate N 0, replicate N 0) =
     (map (\<lambda>i. if i < k then spec_t pol n th i else 0) [0..<N],
      map (\<lambda>i. if i < k then spec_r pol n th i else 0) [0..<N])"
proof (induction k)
  case 0
  show ?case by (simp add: list_eq_iff_nth_eq)
next
  case (Suc k)
  then have k: "k < N" by simp
  have "fold (fresnel_step pol n th) [0..<Suc k] (replicate N 0, replicate N 0) =
        fresnel_step pol n th k
          (map (\<lambda>i. if i < k then spec_t pol n th i else 0) [0..<N],
           map (\<lambda>i. if i < k then spec_r pol n th i else 0) [0..<N])"
    using Suc by simp
  also have "\<dots> = (map (\<lambda>i. if i < Suc k then spec_t pol n th i else 0) [0..<N],
      map (\<lambda>i. if i < Suc k then spec_r pol n th i else 0) [0..<N])"
    using k
    by (cases pol)
       (auto simp: fresnel_step_def Let_def spec_t_def spec_r_def list_eq_iff_nth_eq nth_list_update
          less_Suc_eq)
  finally show ?case .
qed

lemma opacity_loop_Some:
  assumes "distinct idxs" and "\<forall>i \<in> set idxs. i < length delta \<and> delta ! i = Some (d i)"
  shows "opacity_loop idxs (delta, w, msgs) =
           Some (map (\<lambda>j. if j \<in> set idxs then Some (clamp (d j)) else delta ! j) [0..<length delta],
                 w \<or> (\<exists>i \<in> set idxs. Im (d i) > 35),
                 msgs @ (if \<not> w \<and> (\<exists>i \<in> set idxs. Im (d i) > 35) then [OpacityWarning] else []))"
  using assms
proof (induction idxs arbitrary: delta w msgs)
  case Nil
  show ?case by (simp add: map_nth)
next
  case (Cons i idxs)
  have i: "i < length delta" "delta ! i = Some (d i)" "i \<notin> set idxs" "distinct idxs"
    using Cons.prems by auto
  show ?case
  proof (cases "Im (d i) > 35")
    case True
    let ?delta = "delta[i := Some (of_real (Re (d i)) + Complex 0 35)]"
    have pre: "\<forall>k \<in> set idxs. k < length ?delta \<and> ?delta ! k = Some (d k)"
      using Cons.prems i by (auto simp: nth_list_update)
    have cl: "of_real (Re (d i)) + Complex 0 35 = clamp (d i)"
      using True by (simp add: clamp_def complex_eq_iff)
    have "opacity_loop (i # idxs) (delta, w, msgs) =
          opacity_loop idxs (?delta, True, if w = False then msgs @ [OpacityWarning] else msgs)"
      using i True by simp
    also have "\<dots> = Some (map (\<lambda>j. if j \<in> set idxs then Some (clamp (d j)) else ?delta ! j) [0..<length ?delta],
                 True, (if w = False then msgs @ [OpacityWarning] else msgs) @ [])"
      using Cons.IH [OF i(4) pre, of True] by simp
    also have "\<dots> = Some (map (\<lambda>j. if j \<in> set (i # idxs) then Some (clamp (d j)) else delta ! j) [0..<length delta],
                 w \<or> (\<exists>k \<in> set (i # idxs). Im (d k) > 35),
                 msgs @ (if \<not> w \<and> (\<exists>k \<in> set (i # idxs). Im (d k) > 35) then [OpacityWarning] else []))"
      using True i by (auto simp: cl nth_list_update)
    finally show ?thesis .
  next
    case False
    have pre: "\<forall>k \<in> set idxs. k < length delta \<and> delta ! k = Some (d k)"
      using Cons.prems by auto
    have cl: "Some (d i) = Some (clamp (d i))" using False by (simp add: clamp_def)
    have "opacity_loop (i # idxs) (delta, w, msgs) = opacity_loop idxs (delta, w, msgs)"
      using i False by simp
    also have "\<dots> = Some (map (\<lambda>j. if j \<in> set idxs then Some (clamp (d j)) else delta ! j) [0..<length delta],
                 w \<or> (\<exists>i \<in> set idxs. Im (d i) > 35),
                 msgs @ (if \<not> w \<and> (\<exists>i \<in> set idxs. Im (d i) > 35) then [OpacityWarning] else []))"
      using Cons.IH [OF i(4) pre] by simp
    also have "\<dots> = Some (map (\<lambda>j. if j \<in> set (i # idxs) then Some (clamp (d j)) else delta ! j) [0..<length delta],
                 w \<or> (\<exists>k \<in> set (i # idxs). Im (d k) > 35),
                 msgs @ (if \<not> w \<and> (\<exists>k \<in> set (i # idxs). Im (d k) > 35) then [OpacityWarning] else []))"
      using False i cl by auto
    finally show ?thesis .
  qed
qed

lemma opacity_loop_latch:
  "opacity_loop idxs (delta, w, msgs) = Some (delta', w', msgs') \<Longrightarrow>
     (w \<longrightarrow> w') \<and> msgs' = msgs @ (if w' \<and> \<not> w then [OpacityWarning] else [])"
proof (induction idxs arbitrary: delta w msgs)
  case Nil
  then show ?case by simp
next
  case (Cons i idxs)
  from Cons.prems obtain d where d: "delta ! i = Some d"
    by (cases "delta ! i") simp_all
  show ?case
  proof (cases "Im d > 35")
    case True
    with Cons.prems d have
      "opacity_loop idxs (delta[i := Some (of_real (Re d) + Complex 0 35)], True,
         if w = False then msgs @ [OpacityWarning] else msgs) = Some (delta', w', msgs')"
      by simp
    from Cons.IH [OF this] show ?thesis by (cases w) simp_all
  next
    case False
    with Cons.prems d have "opacity_loop idxs (delta, w, msgs) = Some (delta', w', msgs')"
      by simp
    from Cons.IH [OF this] show ?thesis .
  qed
qed

lemma opacity_loop_flag_independent:
  "map_option fst (opacity_loop idxs (delta, w, msgs)) =
   map_option fst (opacity_loop idxs (delta, w', msgs'))"
proof (induction idxs arbitrary: delta w msgs w' msgs')
  case Nil
  show ?case by simp
next
  case (Cons i idxs)
  show ?case
  proof (cases "delta ! i")
    case None
    then show ?thesis by simp
  next
    case (Some d)
    show ?thesis
    proof (cases "Im d > 35")
      case True
      then show ?thesis using Some Cons.IH by simp
    next
      case False
      then show ?thesis using Some Cons.IH by simp
    qed
  qed
qed

lemma Mtilde_of_product:
  "Mtilde_of N t_list r_list M_list =
     mat_mult (scalar_mult (1 / t_list ! 0) (A2x2ComplexMatrix 1 (r_list ! 0) (r_list ! 0) 1))
       (spec_product (map (\<lambda>i. M_list ! i) [1..<N - 1]))"
  unfolding Mtilde_of_def Let_def
  by (simp only: fold_mat_mult mat_mult_id_left mat_div_scalar_mult)

lemma spec_Mtilde_two:
  "spec_Mtilde pol [a, b] th delta =
     scalar_mult (1 / spec_t pol [a, b] th 0)
       (A2x2ComplexMatrix 1 (spec_r pol [a, b] th 0) (spec_r pol [a, b] th 0) 1)"
  by (simp add: spec_Mtilde_def mat_mult_id_right)

subsection \<open>The solver as a whole\<close>

lemma CoherentTMM_run:
  fixes ml :: AMultilayer and lam :: real and th_0 :: complex and pol :: EPolarization
    and x :: "nat \<Rightarrow> real"
  assumes N: "2 \<le> length (fRefractiveIndexList ml)"
    and len: "length (fRefractiveIndexList ml) \<le> length (fThicknessList ml)"
    and fin: "\<forall>i. 1 \<le> i \<and> i < length (fRefractiveIndexList ml) - 1 \<longrightarrow>
                fThicknessList ml ! i = Finite (x i)"
  defines "n \<equiv> map (\<lambda>idx. idx lam) (fRefractiveIndexList ml)"
  defines "th \<equiv> th_list_spec n th_0"
  defines "t_list \<equiv> fst (fresnel_lists pol (length n) n th)"
  defines "r_list \<equiv> snd (fresnel_lists pol (length n) n th)"
  defines "delta0 \<equiv> delta_of (length n) (kz_list_of (length n) n th lam) (fThicknessList ml)"
  defines "delta \<equiv>
    map (\<lambda>j. if j \<in> set [1..<length n - 1] then Some (spec_delta n th lam x j) else delta0 ! j)
      [0..<length n]"
  defines "M_inner \<equiv>
    [A2x2ComplexMatrix 0 0 0 0] @
    map (\<lambda>i. spec_M (t_list ! i) (r_list ! i) (spec_delta n th lam x i)) [1..<length n - 1]"
  shows "ListSnell ml th_0 n [] = Some (th, snell_messages n th_0)"
    and "\<forall>i < length n - 1. t_list ! i = spec_t pol n th i \<and> r_list ! i = spec_r pol n th i"
    and "\<forall>i. 1 \<le> i \<and> i < length n - 1 \<longrightarrow> delta0 ! i = Some (spec_phase n th lam x i)"
    and "opacity_loop [1..<length n - 1] (delta0, w, []) =
           Some (delta, w \<or> opaque n th lam x,
                 if \<not> w \<and> opaque n th lam x then [OpacityWarning] else [])"
    and "M_loop t_list r_list delta [1..<length n - 1] [A2x2ComplexMatrix 0 0 0 0] = Some M_inner"
    and "\<forall>i. 1 \<le> i \<and> i < length n - 1 \<longrightarrow>
           (M_inner @ [A2x2ComplexMatrix 0 0 0 0]) ! i =
             spec_M (t_list ! i) (r_list ! i) (spec_delta n th lam x i)"
    and "Mtilde_of (length n) t_list r_list (M_inner @ [A2x2ComplexMatrix 0 0 0 0]) =
           spec_Mtilde pol n th (spec_delta n th lam x)"
    and "CoherentTMM pol th_0 lam ml w =
           Some \<lparr>messages = input_tests n th_0 @ snell_messages n th_0 @
                              (if \<not> w \<and> opaque n th lam x then [OpacityWarning] else []),
                 warned = (w \<or> opaque n th lam x),
                 reflectance = fst (powers pol n th_0 th (amplitudes
                   (Mtilde_of (length n) t_list r_list (M_inner @ [A2x2ComplexMatrix 0 0 0 0])))),
                 transmittance = snd (powers pol n th_0 th (amplitudes
                   (Mtilde_of (length n) t_list r_list (M_inner @ [A2x2ComplexMatrix 0 0 0 0]))))\<rparr>"
    and "\<forall>i. 1 \<le> i \<and> i < length n - 1 \<longrightarrow> delta ! i = Some (spec_delta n th lam x i)"
    and "delta ! 0 = delta0 ! 0" "delta ! (length n - 1) = delta0 ! (length n - 1)"
proof -
  define N where "N = length (fRefractiveIndexList ml)"
  have lenn: "length n = N" by (simp add: n_def N_def)
  have N2: "2 \<le> N" using N by (simp add: N_def)
  define ms where "ms = snell_messages n th_0"
  have snell: "ListSnell ml th_0 n [] = Some (th, ms)"
    using ListSnell_th_list_spec [OF N, of n th_0] lenn N_def th_def ms_def by simp
  define d where "d = spec_phase n th lam x"
  have ld: "length delta0 = N" by (simp add: delta0_def delta_of_def lenn)
  have d0: "delta0 ! i = Some (d i)" if "1 \<le> i" "i < N - 1" for i
  proof -
    have i: "i < N" using that by simp
    have "fThicknessList ml ! i = Finite (x i)" using that fin by (simp add: N_def)
    then show ?thesis
      using i by (simp add: delta0_def delta_of_def kz_list_of_def d_def spec_phase_def lenn)
  qed
  have pre: "\<forall>i \<in> set [1..<N - 1]. i < length delta0 \<and> delta0 ! i = Some (d i)"
    using d0 ld by auto
  have delta_eq: "delta = map (\<lambda>j. if j \<in> set [1..<N - 1] then Some (clamp (d j)) else delta0 ! j) [0..<length delta0]"
    by (simp add: delta_def lenn ld spec_delta_def d_def)
  have op: "opacity_loop [1..<N - 1] (delta0, w, []) =
      Some (delta, w \<or> opaque n th lam x, (if \<not> w \<and> opaque n th lam x then [OpacityWarning] else []))"
    using opacity_loop_Some [OF _ pre, of w "[]"]
    by (simp add: delta_eq opaque_def d_def lenn)
  have dl: "\<forall>i \<in> set [1..<N - 1]. delta ! i = Some (spec_delta n th lam x i)"
    using ld by (auto simp: delta_eq spec_delta_def d_def)
  have tr: "fresnel_lists pol N n th = (t_list, r_list)"
    by (simp add: t_list_def r_list_def lenn)
  have trl: "t_list = map (\<lambda>i. if i < N - 1 then spec_t pol n th i else 0) [0..<N]"
       "r_list = map (\<lambda>i. if i < N - 1 then spec_r pol n th i else 0) [0..<N]"
    using tr fresnel_fold [of "N - 1" N pol n th] by (simp_all add: fresnel_lists_def)
  have t_nth: "t_list ! i = spec_t pol n th i" "r_list ! i = spec_r pol n th i" if "i < N - 1" for i
    using that by (simp_all add: trl)
  let ?Z = "A2x2ComplexMatrix 0 0 0 0"
  let ?f = "\<lambda>i. spec_M (t_list ! i) (r_list ! i) (spec_delta n th lam x i)"
  have Mi: "M_inner = [?Z] @ map ?f [1..<N - 1]" by (simp add: M_inner_def lenn)
  have ml: "M_loop t_list r_list delta [1..<N - 1] [?Z] = Some M_inner"
    unfolding Mi by (rule M_loop_Some [OF dl])
  define M_list where "M_list = M_inner @ [?Z]"
  have M_nth: "M_list ! i = ?f i" if "i \<in> set [1..<N - 1]" for i
  proof -
    from that have "1 \<le> i" "i < N - 1" by simp_all
    then obtain k where k: "i = Suc k" "k < N - 2"
      by (cases i) auto
    then show ?thesis by (simp add: M_list_def Mi nth_append numeral_2_eq_2)
  qed
  let ?g = "\<lambda>i. spec_M (spec_t pol n th i) (spec_r pol n th i) (spec_delta n th lam x i)"
  have map_eq: "map (\<lambda>i. M_list ! i) [1..<N - 1] = map ?g [1..<N - 1]"
  proof (rule map_cong [OF refl])
    fix i assume i: "i \<in> set [1..<N - 1]"
    then have "i < N - 1" by simp
    then show "M_list ! i = ?g i" using M_nth [OF i] by (simp add: t_nth)
  qed
  have fold_eq: "fold (\<lambda>i M. mat_mult M (M_list ! i)) [1..<N - 1] (A2x2ComplexMatrix 1 0 0 1) =
        spec_product (map ?g [1..<N - 1])"
    by (simp only: fold_mat_mult mat_mult_id_left map_eq)
  have zero: "0 < N - 1" using N2 by simp
  have Mt: "Mtilde_of N t_list r_list M_list = spec_Mtilde pol n th (spec_delta n th lam x)"
    unfolding Mtilde_of_def Let_def fold_eq spec_Mtilde_def lenn
    by (simp only: t_nth [OF zero] mat_div_scalar_mult scalar_mult_mat_mult)
  show "ListSnell ml th_0 n [] = Some (th, snell_messages n th_0)"
    using snell by (simp add: ms_def)
  show "\<forall>i < length n - 1. t_list ! i = spec_t pol n th i \<and> r_list ! i = spec_r pol n th i"
    using t_nth by (simp add: lenn)
  show "\<forall>i. 1 \<le> i \<and> i < length n - 1 \<longrightarrow> delta0 ! i = Some (spec_phase n th lam x i)"
    using d0 by (simp add: lenn d_def)
  show "opacity_loop [1..<length n - 1] (delta0, w, []) =
           Some (delta, w \<or> opaque n th lam x,
                 if \<not> w \<and> opaque n th lam x then [OpacityWarning] else [])"
    using op by (simp only: lenn)
  show "M_loop t_list r_list delta [1..<length n - 1] [?Z] = Some M_inner"
    using ml by (simp only: lenn)
  show "\<forall>i. 1 \<le> i \<and> i < length n - 1 \<longrightarrow> (M_inner @ [?Z]) ! i = ?f i"
    using M_nth by (simp add: lenn M_list_def)
  show "Mtilde_of (length n) t_list r_list (M_inner @ [?Z]) =
           spec_Mtilde pol n th (spec_delta n th lam x)"
    using Mt by (simp only: lenn M_list_def)
  have ok: "\<not> (N < 2 \<or> length (fThicknessList ml) < N)"
    using N2 len by (simp add: N_def)
  have d0_eq: "delta_of N (kz_list_of N n th lam) (fThicknessList ml) = delta0"
    by (simp add: delta0_def lenn)
  show "CoherentTMM pol th_0 lam ml w =
           Some \<lparr>messages = input_tests n th_0 @ snell_messages n th_0 @
                              (if \<not> w \<and> opaque n th lam x then [OpacityWarning] else []),
                 warned = (w \<or> opaque n th lam x),
                 reflectance = fst (powers pol n th_0 th (amplitudes
                   (Mtilde_of (length n) t_list r_list (M_inner @ [?Z])))),
                 transmittance = snd (powers pol n th_0 th (amplitudes
                   (Mtilde_of (length n) t_list r_list (M_inner @ [?Z]))))\<rparr>"
    unfolding CoherentTMM_def Let_def N_def [symmetric] n_def [symmetric] lenn
    by (simp only: ok if_False snell option.case prod.case d0_eq op tr ml
        tmm_result.make_def case_prod_beta append_assoc fst_conv snd_conv ms_def)
  show "\<forall>i. 1 \<le> i \<and> i < length n - 1 \<longrightarrow> delta ! i = Some (spec_delta n th lam x i)"
    using dl by (simp add: lenn)
  show "delta ! 0 = delta0 ! 0" "delta ! (length n - 1) = delta0 ! (length n - 1)"
    using N2 ld by (simp_all add: delta_eq lenn)
qed

lemma CoherentTMM_Some:
  fixes ml :: AMultilayer and lam :: real and th_0 :: complex
  assumes N: "2 \<le> length (fRefractiveIndexList ml)"
    and len: "length (fRefractiveIndexList ml) \<le> length (fThicknessList ml)"
    and fin: "\<forall>i. 1 \<le> i \<and> i < length (fRefractiveIndexList ml) - 1 \<longrightarrow>
                fThicknessList ml ! i = Finite (x i)"
  defines "n \<equiv> map (\<lambda>idx. idx lam) (fRefractiveIndexList ml)"
  defines "th \<equiv> th_list_spec n th_0"
  shows "CoherentTMM pol th_0 lam ml w =
             Some \<lparr>messages = input_tests n th_0 @ snell_messages n th_0 @
                              (if \<not> w \<and> opaque n th lam x then [OpacityWarning] else []),
                   warned = (w \<or> opaque n th lam x),
                   reflectance = fst (powers pol n th_0 th (amplitudes (spec_Mtilde pol n th (spec_delta n th lam x)))),
                   transmittance = snd (powers pol n th_0 th (amplitudes (spec_Mtilde pol n th (spec_delta n th lam x))))\<rparr>"
  using CoherentTMM_run(8) [OF N len fin, of pol th_0 lam w]
  unfolding CoherentTMM_run(7) [OF N len fin] n_def th_def .

lemma CoherentTMM_stages:
  assumes "CoherentTMM pol th_0 lam ml w = Some res"
  shows "\<exists>ms delta0 idxs delta'.
           opacity_loop idxs (delta0, w, []) = Some (delta', warned res, drop (length ms) (messages res)) \<and>
           take (length ms) (messages res) = ms \<and> OpacityWarning \<notin> set ms"
proof -
  define N where "N = length (fRefractiveIndexList ml)"
  define n where "n = map (\<lambda>idx. idx lam) (fRefractiveIndexList ml)"
  from assms have ok: "\<not> (N < 2 \<or> length (fThicknessList ml) < N)"
    by (auto simp: CoherentTMM_def Let_def N_def split: if_splits)
  from assms ok obtain th ms where snell: "ListSnell ml th_0 n [] = Some (th, ms)"
    by (cases "ListSnell ml th_0 n []") (auto simp: CoherentTMM_def Let_def N_def n_def)
  define delta0 where "delta0 = delta_of N (kz_list_of N n th lam) (fThicknessList ml)"
  from assms ok snell obtain delta' w' mo where
    op: "opacity_loop [1..<N - 1] (delta0, w, []) = Some (delta', w', mo)"
    by (cases "opacity_loop [1..<N - 1] (delta0, w, [])")
       (auto simp: CoherentTMM_def Let_def N_def n_def delta0_def)
  from assms ok snell op have res: "messages res = (input_tests n th_0 @ ms) @ mo" "warned res = w'"
    by (auto simp: CoherentTMM_def Let_def N_def n_def delta0_def tmm_result.make_def
        case_prod_beta split: option.splits)
  have "OpacityWarning \<notin> set (input_tests n th_0 @ ms)"
    using ListSnell_messages [OF snell] input_tests_no_opacity by simp
  then show ?thesis using op res by (intro exI [of _ "input_tests n th_0 @ ms"]) auto
qed

lemma CoherentTMM_opacity_count:
  assumes "CoherentTMM pol th_0 lam ml w = Some res"
  shows "count_list (messages res) OpacityWarning = (if warned res \<and> \<not> w then 1 else 0)"
    and "w \<longrightarrow> warned res"
proof -
  from CoherentTMM_stages [OF assms] obtain ms delta0 idxs delta' where
    op: "opacity_loop idxs (delta0, w, []) = Some (delta', warned res, drop (length ms) (messages res))"
    and ms: "take (length ms) (messages res) = ms" "OpacityWarning \<notin> set ms"
    by blast
  from opacity_loop_latch [OF op] have w: "w \<longrightarrow> warned res"
    and mo: "drop (length ms) (messages res) = (if warned res \<and> \<not> w then [OpacityWarning] else [])"
    by simp_all
  have "messages res = ms @ (if warned res \<and> \<not> w then [OpacityWarning] else [])"
    using ms(1) mo append_take_drop_id [of "length ms" "messages res"] by simp
  then show "count_list (messages res) OpacityWarning = (if warned res \<and> \<not> w then 1 else 0)"
    using ms(2) by (simp add: count_list_0_iff)
  show "w \<longrightarrow> warned res" by (rule w)
qed

lemma finite_interior_Some:
  assumes "finite_interior ml"
  shows "\<exists>res. CoherentTMM pol th_0 lam ml w = Some res"
proof -
  define x where "x i = (case fThicknessList ml ! i of Finite d \<Rightarrow> d | _ \<Rightarrow> 0)" for i
  have N: "2 \<le> length (fRefractiveIndexList ml)"
    and len: "length (fRefractiveIndexList ml) \<le> length (fThicknessList ml)"
    using assms by (simp_all add: finite_interior_def)
  have fin: "\<forall>i. 1 \<le> i \<and> i < length (fRefractiveIndexList ml) - 1 \<longrightarrow>
      fThicknessList ml ! i = Finite (x i)"
  proof (intro allI impI)
    fix i assume "1 \<le> i \<and> i < length (fRefractiveIndexList ml) - 1"
    then have "case fThicknessList ml ! i of Finite d \<Rightarrow> True | _ \<Rightarrow> False"
      using assms by (simp add: finite_interior_def)
    then show "fThicknessList ml ! i = Finite (x i)"
      by (cases "fThicknessList ml ! i") (simp_all add: x_def)
  qed
  show ?thesis using CoherentTMM_Some [OF N len fin, of pol th_0 lam w] by simp
qed

lemma process_messages_count:
  assumes "\<forall>c \<in> set calls. finite_interior (snd (snd (snd c)))"
  shows "\<exists>printed. process_messages calls w = Some printed \<and>
           count_list printed OpacityWarning \<le> (if w then 0 else 1)"
  using assms
proof (induction calls arbitrary: w)
  case Nil
  show ?case by simp
next
  case (Cons c calls)
  obtain pol th_0 lam ml where c: "c = (pol, th_0, lam, ml)" by (cases c)
  have "finite_interior ml" using Cons.prems by (simp add: c)
  then obtain res where res: "CoherentTMM pol th_0 lam ml w = Some res"
    using finite_interior_Some by blast
  from Cons.prems have "\<forall>c \<in> set calls. finite_interior (snd (snd (snd c)))" by simp
  from Cons.IH [OF this, of "warned res"] obtain rest where
    rest: "process_messages calls (warned res) = Some rest"
      "count_list rest OpacityWarning \<le> (if warned res then 0 else 1)"
    by blast
  have run: "process_messages (c # calls) w = Some (messages res @ rest)"
    by (simp add: c res rest(1))
  have "count_list (messages res @ rest) OpacityWarning \<le> (if w then 0 else 1)"
    using CoherentTMM_opacity_count [OF res] rest(2) by (simp split: if_splits)
  then show ?case using run by blast
qed

lemma CoherentTMM_flag_independent:
  "map_option (\<lambda>res. (reflectance res, transmittance res)) (CoherentTMM pol th_0 lam ml w) =
   map_option (\<lambda>res. (reflectance res, transmittance res)) (CoherentTMM pol th_0 lam ml w')"
proof -
  define N where "N = length (fRefractiveIndexList ml)"
  define n where "n = map (\<lambda>idx. idx lam) (fRefractiveIndexList ml)"
  show ?thesis
  proof (cases "N < 2 \<or> length (fThicknessList ml) < N")
    case True
    then show ?thesis by (simp add: CoherentTMM_def Let_def N_def)
  next
    case ok: False
    show ?thesis
    proof (cases "ListSnell ml th_0 n []")
      case None
      then show ?thesis using ok by (simp add: CoherentTMM_def Let_def N_def n_def)
    next
      case (Some p)
      obtain th ms where p: "p = (th, ms)" by (cases p)
      define delta0 where "delta0 = delta_of N (kz_list_of N n th lam) (fThicknessList ml)"
      have ind: "map_option fst (opacity_loop [1..<N - 1] (delta0, w, [])) =
                 map_option fst (opacity_loop [1..<N - 1] (delta0, w', []))"
        by (rule opacity_loop_flag_independent)
      show ?thesis
      proof (cases "opacity_loop [1..<N - 1] (delta0, w, [])")
        case None
        with ind have "opacity_loop [1..<N - 1] (delta0, w', []) = None" by simp
        with None show ?thesis
          using ok Some p
          by (simp add: CoherentTMM_def Let_def N_def [symmetric] n_def [symmetric] delta0_def [symmetric])
      next
        case s1: (Some q)
        obtain delta' v mo where q: "q = (delta', v, mo)" by (cases q)
        from ind s1 q obtain v' mo' where
          s2: "opacity_loop [1..<N - 1] (delta0, w', []) = Some (delta', v', mo')"
          by (cases "opacity_loop [1..<N - 1] (delta0, w', [])") auto
        show ?thesis
          using ok Some p s1 q s2
          by (simp add: CoherentTMM_def Let_def N_def [symmetric] n_def [symmetric]
              delta0_def [symmetric] tmm_result.make_def case_prod_beta split: option.splits)
      qed
    qed
  qed
qed

lemma air_air:
  "CoherentTMM kS 0 (- 1) (two_layers 1 1) False =
     Some \<lparr>messages = [], warned = False, reflectance = 0, transmittance = 1\<rparr>"
proof -
  have th: "th_list_spec [1, 1] 0 = [0, 0]"
    by (simp add: th_list_spec_two snell_angle_def asin_0 forward_corrected_def IsForwardAngle_1_0)
  have n: "map (\<lambda>idx. idx (- 1)) (fRefractiveIndexList (two_layers 1 1)) = [1, 1]"
    by (simp add: two_layers_def AConstantIndex_def)
  have msgs: "input_tests [1, 1] 0 = []" "snell_messages [1, 1] 0 = []"
    using EPSILON_pos
    by (simp_all add: input_tests_def snell_messages_def snell_angle_def asin_0 IsForwardAngle_1_0)
  have op: "\<not> opaque [1, 1] [0, 0] (- 1) (\<lambda>i. 0)"
    by (simp add: opaque_def spec_phase_def)
  have M: "spec_Mtilde kS [1, 1] [0, 0] delta = A2x2ComplexMatrix 1 0 0 1" for delta
    by (simp add: spec_Mtilde_two spec_t_def spec_r_def scalar_mult_def)
  have p: "powers kS [1, 1] 0 [0, 0] (amplitudes (A2x2ComplexMatrix 1 0 0 1)) = (0, 1)"
    by (simp add: powers_def amplitudes_def)
  show ?thesis
    using CoherentTMM_Some [where ml = "two_layers 1 1" and x = "\<lambda>i. 0" and pol = kS
        and ?th_0.0 = 0 and lam = "- 1" and w = False, OF two_layers_wf]
    by (simp add: n th msgs op M p)
qed

subsection \<open>Inverse sine\<close>

lemma ii_power_coeff:
  "\<i> ^ n = of_real (fact n * cos_coeff n) + \<i> * of_real (fact n * sin_coeff n)"
proof (induction n)
  case 0
  show ?case by (simp add: cos_coeff_def sin_coeff_def)
next
  case (Suc n)
  have "\<i> ^ Suc n = \<i> * (of_real (fact n * cos_coeff n) + \<i> * of_real (fact n * sin_coeff n))"
    using Suc by simp
  also have "\<dots> = of_real (- (fact n * sin_coeff n)) + \<i> * of_real (fact n * cos_coeff n)"
    by (simp add: algebra_simps)
  also have "\<dots> = of_real (fact (Suc n) * cos_coeff (Suc n)) +
      \<i> * of_real (fact (Suc n) * sin_coeff (Suc n))"
  proof -
    have r1: "fact (Suc n) * cos_coeff (Suc n) = - (fact n * sin_coeff n)"
      by (simp add: cos_coeff_Suc field_simps)
    have r2: "fact (Suc n) * sin_coeff (Suc n) = fact n * cos_coeff n"
      by (simp add: sin_coeff_Suc field_simps)
    show ?thesis by (simp only: r1 r2)
  qed
  finally show ?case .
qed

lemma exp_ii_times: "exp (\<i> * z) = cos z + \<i> * sin z" for z :: complex
proof -
  have term_eq: "(\<i> * z) ^ n /\<^sub>R fact n = cos_coeff n *\<^sub>R z ^ n + \<i> * (sin_coeff n *\<^sub>R z ^ n)" for n
  proof -
    have "(\<i> * z) ^ n /\<^sub>R fact n = (\<i> ^ n /\<^sub>R fact n) * z ^ n"
      by (simp add: power_mult_distrib)
    also have "\<i> ^ n /\<^sub>R fact n = of_real (cos_coeff n) + \<i> * of_real (sin_coeff n)"
      unfolding ii_power_coeff [of n] by (simp add: scaleR_conv_of_real field_simps)
    finally show ?thesis by (simp add: scaleR_conv_of_real algebra_simps)
  qed
  have "(\<lambda>n. cos_coeff n *\<^sub>R z ^ n + \<i> * (sin_coeff n *\<^sub>R z ^ n)) sums (cos z + \<i> * sin z)"
    by (intro sums_add sums_mult cos_converges sin_converges)
  moreover have "(\<lambda>n. (\<i> * z) ^ n /\<^sub>R fact n) sums exp (\<i> * z)"
    by (rule exp_converges)
  ultimately show ?thesis
    unfolding term_eq by (rule sums_unique2 [symmetric])
qed

lemma exp_clog: "w \<noteq> 0 \<Longrightarrow> exp (clog w) = w"
proof -
  assume w: "w \<noteq> 0"
  have "exp (clog w) = of_real (exp (ln (cmod w))) * cis (Arg w)"
    by (simp add: clog_def exp_eq_polar)
  also have "\<dots> = of_real (cmod w) * sgn w"
    using w by (simp add: cis_Arg)
  also have "\<dots> = w"
    using w by (simp add: sgn_eq)
  finally show ?thesis .
qed

lemma cos_sin_ii_real:
  "cos (\<i> * of_real y) = of_real ((exp y + exp (- y)) / 2)"
  "sin (\<i> * of_real y) = \<i> * of_real ((exp y - exp (- y)) / 2)"
proof -
  let ?u = "\<i> * complex_of_real y"
  have a: "cos ?u + \<i> * sin ?u = of_real (exp (- y))"
    using exp_ii_times [of ?u] by (simp add: exp_of_real [symmetric])
  have b: "cos ?u - \<i> * sin ?u = of_real (exp y)"
    using exp_ii_times [of "- ?u"] by (simp add: exp_of_real [symmetric])
  have "(cos ?u + \<i> * sin ?u) + (cos ?u - \<i> * sin ?u) = of_real (exp (- y)) + of_real (exp y)"
    by (simp only: a b)
  then have "2 * cos ?u = of_real (exp y + exp (- y))" by simp
  then show "cos ?u = of_real ((exp y + exp (- y)) / 2)" by (simp add: mult.commute)
  have "(cos ?u + \<i> * sin ?u) - (cos ?u - \<i> * sin ?u) = of_real (exp (- y)) - of_real (exp y)"
    by (simp only: a b)
  then have "\<i> * (2 * sin ?u) = of_real (exp (- y) - exp y)" by (simp add: algebra_simps)
  then have "\<i> * (\<i> * (2 * sin ?u)) = \<i> * of_real (exp (- y) - exp y)" by simp
  then have "2 * sin ?u = \<i> * of_real (exp y - exp (- y))" by (simp add: algebra_simps)
  then show "sin ?u = \<i> * of_real ((exp y - exp (- y)) / 2)" by (simp add: mult.commute)
qed

lemma arcosh_exp:
  assumes "1 < x"
  defines "y \<equiv> ln (x + sqrt (x\<^sup>2 - 1))"
  shows "(exp y + exp (- y)) / 2 = x" "(exp y - exp (- y)) / 2 = sqrt (x\<^sup>2 - 1)" "0 < y"
proof -
  define s where "s = sqrt (x\<^sup>2 - 1)"
  have x2: "1 < x\<^sup>2" using assms(1) by simp
  then have s0: "0 < s" by (simp add: s_def)
  have s2: "s\<^sup>2 = x\<^sup>2 - 1" using x2 by (simp add: s_def)
  have pos: "0 < x + s" using assms(1) s0 by simp
  have e: "exp y = x + s" using pos by (simp add: y_def s_def)
  have "(x + s) * (x - s) = 1" using s2 by (simp add: algebra_simps power2_eq_square)
  then have "inverse (x + s) = x - s" using pos by (simp add: field_simps)
  then have e': "exp (- y) = x - s" by (simp add: exp_minus e)
  show "(exp y + exp (- y)) / 2 = x" by (simp add: e e')
  show "(exp y - exp (- y)) / 2 = sqrt (x\<^sup>2 - 1)" by (simp add: e e' s_def)
  have "1 < x + s" using assms(1) s0 by simp
  then show "0 < y" unfolding y_def s_def by simp
qed

lemma asin_cut:
  assumes "1 < \<bar>x\<bar>"
  shows "asin (of_real x) = Complex (sgn x * (pi / 2)) (ln (\<bar>x\<bar> + sqrt (x\<^sup>2 - 1)))"
  using assms by (simp add: asin_def)

lemma sin_cos_on_cut:
  assumes "1 < \<bar>x\<bar>"
  shows "sin (asin (of_real x)) = of_real x"
    and "cos (asin (of_real x)) = - \<i> * of_real (sgn x * sqrt (x\<^sup>2 - 1))"
proof -
  define y where "y = ln (\<bar>x\<bar> + sqrt (x\<^sup>2 - 1))"
  define a where "a = sgn x * (pi / 2)"
  have ch: "(exp y + exp (- y)) / 2 = \<bar>x\<bar>" and sh: "(exp y - exp (- y)) / 2 = sqrt (x\<^sup>2 - 1)"
    using arcosh_exp [OF assms] by (simp_all add: y_def)
  have sa: "sin a = sgn x" and ca: "cos a = 0"
    using assms by (auto simp: a_def sgn_if)
  have split: "asin (of_real x) = of_real a + \<i> * of_real y"
    by (simp add: asin_cut [OF assms] a_def y_def complex_eq_iff)
  have s: "sin (complex_of_real a) = of_real (sgn x)" "cos (complex_of_real a) = 0"
    using sa ca by (simp_all add: sin_of_real cos_of_real)
  show "sin (asin (of_real x)) = of_real x"
    unfolding split sin_add s cos_sin_ii_real ch
    using assms by (simp add: sgn_if)
  show "cos (asin (of_real x)) = - \<i> * of_real (sgn x * sqrt (x\<^sup>2 - 1))"
    unfolding split cos_add s cos_sin_ii_real sh by simp
qed

lemma sin_asin: "sin (asin z) = z"
proof (cases "Im z = 0 \<and> 1 < \<bar>Re z\<bar>")
  case True
  then have z: "z = of_real (Re z)" by (simp add: complex_eq_iff)
  show ?thesis
    using sin_cos_on_cut(1) [of "Re z"] True z by simp
next
  case False
  then have as: "asin z = - \<i> * clog (\<i> * z + csqrt (1 - z\<^sup>2))"
    by (auto simp: asin_def)
  define s where "s = csqrt (1 - z\<^sup>2)"
  define w where "w = \<i> * z + s"
  have s2: "s\<^sup>2 = 1 - z\<^sup>2" by (simp add: s_def)
  have prod: "w * (s - \<i> * z) = 1"
    using s2 by (simp add: w_def algebra_simps power2_eq_square)
  then have w0: "w \<noteq> 0" by auto
  have inv: "inverse w = s - \<i> * z"
    using prod w0 by (simp add: field_simps)
  have e1: "exp (\<i> * asin z) = w"
    using exp_clog [OF w0] by (simp add: as w_def s_def)
  have "exp (\<i> * (- asin z)) = inverse (exp (\<i> * asin z))"
    by (simp add: exp_minus)
  then have e2: "exp (\<i> * (- asin z)) = s - \<i> * z"
    using e1 inv by simp
  have p: "cos (asin z) + \<i> * sin (asin z) = w"
    using e1 by (simp add: exp_ii_times)
  have m: "cos (asin z) - \<i> * sin (asin z) = s - \<i> * z"
    using e2 unfolding exp_ii_times by simp
  have "(cos (asin z) + \<i> * sin (asin z)) - (cos (asin z) - \<i> * sin (asin z)) =
      w - (s - \<i> * z)"
    by (simp only: p m)
  then have "\<i> * (2 * sin (asin z)) = \<i> * (2 * z)"
    by (simp add: w_def algebra_simps)
  then show ?thesis by simp
qed

lemma sqrt_one_minus_square_bound:
  fixes s z :: complex
  assumes s2: "s\<^sup>2 = 1 - z\<^sup>2" and a0: "0 \<le> Re s"
  shows "\<bar>Im z\<bar> \<le> Re s"
proof (rule ccontr)
  define a where "a = Re s"
  define b where "b = Im s"
  define x where "x = Re z"
  define y where "y = Im z"
  assume "\<not> \<bar>Im z\<bar> \<le> Re s"
  then have lt: "a < \<bar>y\<bar>" by (simp add: a_def y_def)
  have a0': "0 \<le> a" using a0 by (simp add: a_def)
  have "Re (s\<^sup>2) = Re (1 - z\<^sup>2)" "Im (s\<^sup>2) = Im (1 - z\<^sup>2)"
    using s2 by simp_all
  then have re: "a * a - b * b = 1 - (x * x - y * y)" and im: "a * b = - (x * y)"
    by (simp_all add: power2_eq_square a_def b_def x_def y_def mult.commute)
  have "a * a < \<bar>y\<bar> * \<bar>y\<bar>"
    using lt a0' by (intro mult_strict_mono') simp_all
  then have a2: "a * a < y * y" by simp
  then have b2: "b * b < x * x" using re by simp
  have "0 \<le> b * b" by simp
  then have x0: "0 < x * x" using b2 by linarith
  have "(a * a) * (b * b) \<le> (a * a) * (x * x)"
    using b2 by (intro mult_left_mono) simp_all
  also have "\<dots> < (y * y) * (x * x)"
    using a2 x0 by (intro mult_strict_right_mono)
  finally have "(a * b) * (a * b) < (x * y) * (x * y)" by (simp add: algebra_simps)
  then show False unfolding im by simp
qed

lemma Re_csqrt_ge_Im: "\<bar>Im z\<bar> \<le> Re (csqrt (1 - z\<^sup>2))"
  by (rule sqrt_one_minus_square_bound [OF power2_csqrt Re_csqrt])

lemma Arg_range_of_Re_nonneg:
  assumes "w \<noteq> 0" and "0 \<le> Re w"
  shows "- (pi / 2) \<le> Arg w" "Arg w \<le> pi / 2"
    and "\<bar>Arg w\<bar> = pi / 2 \<Longrightarrow> Re w = 0"
proof -
  have c: "cos (Arg w) = Re w / cmod w"
    using cis_Arg [OF assms(1)] by (metis Re_sgn cis.sel(1))
  have c0: "0 \<le> cos (Arg w)" unfolding c using assms(2) by simp
  have bnd: "- pi < Arg w" "Arg w \<le> pi" using Arg_bounded [of w] by simp_all
  show "Arg w \<le> pi / 2"
  proof (rule ccontr)
    assume "\<not> Arg w \<le> pi / 2"
    then have "cos (Arg w) < cos (pi / 2)"
      using bnd by (intro cos_monotone_0_pi) simp_all
    then show False using c0 by simp
  qed
  show "- (pi / 2) \<le> Arg w"
  proof (rule ccontr)
    assume "\<not> - (pi / 2) \<le> Arg w"
    then have "cos (- Arg w) < cos (pi / 2)"
      using bnd by (intro cos_monotone_0_pi) simp_all
    then show False using c0 by simp
  qed
  assume "\<bar>Arg w\<bar> = pi / 2"
  then have "Arg w = pi / 2 \<or> Arg w = - (pi / 2)" by (simp add: abs_if split: if_splits)
  then have "cos (Arg w) = 0"
  proof
    assume "Arg w = pi / 2"
    then show ?thesis by (simp only: cos_pi_half)
  next
    assume "Arg w = - (pi / 2)"
    then show ?thesis by (simp only: cos_minus cos_pi_half)
  qed
  then show "Re w = 0" using c assms(1) by simp
qed

lemma asin_principal:
  shows "- (pi / 2) \<le> Re (asin z)" "Re (asin z) \<le> pi / 2"
    and "\<bar>Re (asin z)\<bar> = pi / 2 \<Longrightarrow> 0 \<le> Im (asin z)"
proof -
  have all: "- (pi / 2) \<le> Re (asin z) \<and> Re (asin z) \<le> pi / 2 \<and>
      (\<bar>Re (asin z)\<bar> = pi / 2 \<longrightarrow> 0 \<le> Im (asin z))"
  proof (cases "Im z = 0 \<and> 1 < \<bar>Re z\<bar>")
    case True
    then have cut: "1 < \<bar>Re z\<bar>" by simp
    have as: "asin z = Complex (sgn (Re z) * (pi / 2)) (ln (\<bar>Re z\<bar> + sqrt ((Re z)\<^sup>2 - 1)))"
      using True by (simp add: asin_def)
    have "0 < ln (\<bar>Re z\<bar> + sqrt ((Re z)\<^sup>2 - 1))"
      using arcosh_exp(3) [OF cut] by simp
    then show ?thesis unfolding as using cut by (simp add: sgn_if)
  next
    case False
    define s where "s = csqrt (1 - z\<^sup>2)"
    define w where "w = \<i> * z + s"
    have as: "asin z = - \<i> * clog w"
      using False by (auto simp: asin_def w_def s_def)
    have parts: "Re (asin z) = Arg w" "Im (asin z) = - ln (cmod w)"
      by (simp_all add: as clog_def)
    have s2: "s\<^sup>2 = 1 - z\<^sup>2" by (simp add: s_def)
    have "w * (s - \<i> * z) = 1"
      using s2 by (simp add: w_def algebra_simps power2_eq_square)
    then have w0: "w \<noteq> 0" by auto
    have ge: "\<bar>Im z\<bar> \<le> Re s" unfolding s_def by (rule Re_csqrt_ge_Im)
    have Rw: "Re w = Re s - Im z" by (simp add: w_def)
    have Rw0: "0 \<le> Re w" using ge Rw by simp
    note A = Arg_range_of_Re_nonneg [OF w0 Rw0]
    have "0 \<le> Im (asin z)" if "\<bar>Re (asin z)\<bar> = pi / 2"
    proof -
      from that have "Re w = 0" using A(3) parts(1) by simp
      then have eq: "Re s = Im z" using Rw by simp
      have "Re (s\<^sup>2) = Re (1 - z\<^sup>2)" "Im (s\<^sup>2) = Im (1 - z\<^sup>2)"
        using s2 by simp_all
      then have re: "Re s * Re s - Im s * Im s = 1 - (Re z * Re z - Im z * Im z)"
        and im: "Re s * Im s = - (Re z * Im z)"
        by (simp_all add: power2_eq_square mult.commute)
      have y0: "Im z = 0"
      proof (rule ccontr)
        assume n: "Im z \<noteq> 0"
        have "Im s * Im z = (- Re z) * Im z" using im eq by (simp add: mult.commute)
        then have "Im s = - Re z" using n mult_right_cancel by blast
        then show False using re eq by simp
      qed
      then have rs: "Re s = 0" using eq by simp
      have b2: "Im s * Im s = Re z * Re z - 1" using re y0 rs by simp
      have "\<not> 1 < \<bar>Re z\<bar>" using False y0 by simp
      then have "\<bar>Re z\<bar> * \<bar>Re z\<bar> \<le> 1 * 1"
        by (intro mult_mono) simp_all
      then have "Re z * Re z \<le> 1" by simp
      moreover have "0 \<le> Im s * Im s" by simp
      ultimately have x2: "Re z * Re z = 1" and is0: "Im s = 0" using b2 by auto
      have "s = 0" using rs is0 by (simp add: complex_eq_iff)
      then have "w = \<i> * z" by (simp add: w_def)
      then have "cmod w = \<bar>Re z\<bar>" using y0 by (simp add: norm_mult cmod_eq_Re)
      moreover have "\<bar>Re z\<bar> = 1"
      proof -
        have "(Re z)\<^sup>2 = 1" using x2 by (simp add: power2_eq_square)
        then have "Re z = 1 \<or> Re z = - 1" by (simp add: power2_eq_1_iff)
        then show ?thesis by auto
      qed
      ultimately show ?thesis by (simp add: parts(2))
    qed
    then show ?thesis using A(1,2) parts(1) by simp
  qed
  show "- (pi / 2) \<le> Re (asin z)" "Re (asin z) \<le> pi / 2" using all by simp_all
  show "\<bar>Re (asin z)\<bar> = pi / 2 \<Longrightarrow> 0 \<le> Im (asin z)" using all by simp
qed

lemma asin_of_real:
  assumes "\<bar>x\<bar> \<le> 1"
  shows "asin (of_real x) = of_real (arcsin x)"
proof -
  have b: "- 1 \<le> x" "x \<le> 1" using assms by simp_all
  have nc: "\<not> 1 < \<bar>x\<bar>" using assms by simp
  have sq: "0 \<le> 1 - x\<^sup>2" using assms by (simp add: abs_square_le_1)
  have "1 - (complex_of_real x)\<^sup>2 = of_real (1 - x\<^sup>2)" by simp
  then have cs: "csqrt (1 - (complex_of_real x)\<^sup>2) = of_real (sqrt (1 - x\<^sup>2))"
    using sq by (simp only: csqrt_of_real_nonneg Im_complex_of_real Re_complex_of_real)
  define w where "w = \<i> * of_real x + csqrt (1 - (complex_of_real x)\<^sup>2)"
  have w: "w = cis (arcsin x)"
    unfolding w_def cs using b by (simp add: complex_eq_iff cos_arcsin)
  have m: "cmod w = 1" by (simp add: w)
  have "sgn w = cis (arcsin x)" by (simp add: w sgn_eq)
  moreover have "- pi < arcsin x" "arcsin x \<le> pi"
    using arcsin_bounded [OF b] pi_gt_zero by linarith+
  ultimately have A: "Arg w = arcsin x" by (rule cis_Arg_unique)
  have "asin (of_real x) = - \<i> * clog w"
    using nc by (simp add: asin_def w_def)
  then show ?thesis by (simp add: clog_def m A complex_eq_iff)
qed

lemma asin_half: "asin (1 / 2) = of_real (pi / 6)"
proof -
  have "arcsin (sin (pi / 6)) = pi / 6"
    by (rule arcsin_sin) (use pi_gt_zero in linarith)+
  then have "arcsin (1 / 2) = pi / 6" by (simp add: sin_30)
  then show ?thesis using asin_of_real [of "1 / 2"] by simp
qed

lemma sqrt_5_4: "sqrt ((3 / 2)\<^sup>2 - 1) = sqrt 5 / 2"
proof -
  have "(3 / 2 :: real)\<^sup>2 - 1 = 5 / 4" by (simp add: power2_eq_square)
  then have "sqrt ((3 / 2)\<^sup>2 - 1) = sqrt (5 / 4)" by (simp only:)
  also have "\<dots> = sqrt 5 / sqrt 4" by (rule real_sqrt_divide)
  also have "sqrt 4 = (2 :: real)" by (rule real_sqrt_four)
  finally show ?thesis .
qed

lemma asin_3_2: "asin (3 / 2) = Complex (pi / 2) (ln (3 / 2 + sqrt 5 / 2))"
  using asin_cut [of "3 / 2"] by (simp add: sqrt_5_4)

lemma cos_asin_3_2: "cos (asin (3 / 2)) = - \<i> * of_real (sqrt 5 / 2)"
  using sin_cos_on_cut(2) [of "3 / 2"] by (simp add: sqrt_5_4)

lemma sin_cos_pi6:
  "sin (complex_of_real pi / 6) = 1 / 2" "cos (complex_of_real pi / 6) = of_real (sqrt 3) / 2"
proof -
  have e: "complex_of_real pi / 6 = of_real (pi / 6)" by simp
  show "sin (complex_of_real pi / 6) = 1 / 2"
    unfolding e sin_of_real sin_30 by simp
  show "cos (complex_of_real pi / 6) = of_real (sqrt 3) / 2"
    unfolding e cos_of_real cos_30 by simp
qed

lemma IsForwardAngle_glass: "IsForwardAngle 3 (of_real (pi / 6)) = (True, [])"
proof -
  have p: "- (200 * EPSILON) < 3 * sqrt 3"
    by (rule less_le_trans [of _ 0]) (use EPSILON_pos in simp_all)
  show ?thesis
    using EPSILON_pos p by (simp add: IsForwardAngle_def Let_def sin_cos_pi6)
qed

lemma IsForwardAngle_gap:
  "IsForwardAngle 1 (asin (3 / 2)) = (False, [DirectionUnclear 1 (asin (3 / 2))])"
proof -
  have c: "1 * cos (asin (3 / 2)) = - \<i> * of_real (sqrt 5 / 2)"
    by (simp add: cos_asin_3_2)
  have cn: "cnj (asin (3 / 2)) = of_real pi - asin (3 / 2)"
    by (simp add: asin_3_2 complex_eq_iff)
  have c': "1 * cos (cnj (asin (3 / 2))) = \<i> * of_real (sqrt 5 / 2)"
    unfolding cn cos_diff sin_asin cos_asin_3_2 cos_of_real sin_of_real by simp
  have big: "100 * EPSILON < sqrt 5 / 2"
  proof -
    have "1 \<le> sqrt 5" by simp
    moreover have "100 * EPSILON < 1 / 2" by (simp add: EPSILON_def)
    ultimately show ?thesis by linarith
  qed
  show ?thesis
    unfolding IsForwardAngle_def Let_def c c'
    using EPSILON_pos big by simp
qed

subsection \<open>Power flux through the stack\<close>

lemma mat_apply_mult: "mat_apply (mat_mult A B) u = mat_apply A (mat_apply B u)"
  by (simp add: mat_apply_def mat_mult_def algebra_simps)

lemma mat_apply_id: "mat_apply (A2x2ComplexMatrix 1 0 0 1) u = u"
  by (simp add: mat_apply_def)

lemma spec_M_split:
  "spec_M (spec_t pol n th i) (spec_r pol n th i) d = mat_mult (propagate d) (interface pol n th i)"
  by (simp add: spec_M_def propagate_def interface_def mat_mult_def scalar_mult_def)

lemma spec_Mtilde_split:
  "spec_Mtilde pol n th delta =
     mat_mult (interface pol n th 0)
       (spec_product (map (\<lambda>i. mat_mult (propagate (delta i)) (interface pol n th i))
          [1..<length n - 1]))"
  unfolding spec_Mtilde_def spec_M_split
  by (simp add: interface_def scalar_mult_mat_mult)

lemma flux_expand:
  "flux p (v, w) = Re p * ((cmod v)\<^sup>2 - (cmod w)\<^sup>2) - 2 * Im p * Im (v * cnj w)"
proof -
  have sq: "(cmod z)\<^sup>2 = Re z * Re z + Im z * Im z" for z
    using cmod_power2 [of z] by (simp add: power2_eq_square)
  show ?thesis
    unfolding sq by (simp add: flux_def algebra_simps)
qed

lemma flux_propagate:
  assumes "(Im p = 0 \<and> Im d = 0) \<or> (Re p = 0 \<and> Re d = 0)"
  shows "flux p (mat_apply (propagate d) u) = flux p u"
proof -
  obtain v w where u: "u = (v, w)" by (cases u)
  have app: "mat_apply (propagate d) (v, w) = (exp (- \<i> * d) * v, exp (\<i> * d) * w)"
    by (simp add: mat_apply_def propagate_def)
  from assms show ?thesis
  proof
    assume r: "Im p = 0 \<and> Im d = 0"
    have "cmod (exp (- \<i> * d) * v) = cmod v" "cmod (exp (\<i> * d) * w) = cmod w"
      using r by (simp_all add: norm_mult)
    then show ?thesis unfolding u app flux_expand using r by simp
  next
    assume i: "Re p = 0 \<and> Re d = 0"
    define k where "k = Im d"
    have d1: "- \<i> * d = of_real k" and d2: "\<i> * d = of_real (- k)"
      using i by (simp_all add: k_def complex_eq_iff)
    have e1: "exp (- \<i> * d) = of_real (exp k)" and e2: "exp (\<i> * d) = of_real (exp (- k))"
      by (simp_all only: d1 d2 exp_of_real)
    have one: "exp k * exp (- k) = (1::real)" by (simp add: exp_minus)
    have "exp (- \<i> * d) * v * cnj (exp (\<i> * d) * w) = of_real (exp k * exp (- k)) * (v * cnj w)"
      unfolding e1 e2 by simp
    then have eq: "exp (- \<i> * d) * v * cnj (exp (\<i> * d) * w) = v * cnj w"
      unfolding one by simp
    have fl: "flux p (x, y) = - 2 * Im p * Im (x * cnj y)" for x y
      unfolding flux_expand using i by simp
    have "flux p (exp (- \<i> * d) * v, exp (\<i> * d) * w) =
        - 2 * Im p * Im (exp (- \<i> * d) * v * cnj (exp (\<i> * d) * w))"
      by (rule fl)
    also have "\<dots> = - 2 * Im p * Im (v * cnj w)" by (simp only: eq)
    also have "\<dots> = flux p (v, w)" by (rule fl [symmetric])
    finally show ?thesis unfolding u app .
  qed
qed

lemma propagate_nonzero:
  "mat_apply (propagate d) u = (0, 0) \<longleftrightarrow> u = (0, 0)"
  by (cases u) (simp add: mat_apply_def propagate_def)

lemma interface_apply:
  "mat_apply (interface pol n th i) (v, w) =
     ((v + spec_r pol n th i * w) / spec_t pol n th i,
      (spec_r pol n th i * v + w) / spec_t pol n th i)"
  by (simp add: mat_apply_def interface_def scalar_mult_def add_divide_distrib mult.commute)

lemma interface_relations:
  assumes re: "Im (n ! i) = 0" "Im (n ! Suc i) = 0"
    and nz: "n ! i \<noteq> 0" "n ! Suc i \<noteq> 0"
    and p: "n ! i * cos (th ! i) \<noteq> 0"
    and dS: "pol = kS \<longrightarrow> n ! i * cos (th ! i) + n ! Suc i * cos (th ! Suc i) \<noteq> 0"
    and dP: "pol = kP \<longrightarrow> n ! Suc i * cos (th ! i) + n ! i * cos (th ! Suc i) \<noteq> 0"
    and ab: "mat_apply (interface pol n th i) (v, w) = (a, b)"
  shows "\<exists>k. k \<noteq> 0 \<and> a + b = of_real k * (v + w) \<and>
              of_real k * (n ! i * cos (th ! i) * (a - b)) = n ! Suc i * cos (th ! Suc i) * (v - w)"
proof (cases pol)
  case kS
  define P where "P = n ! i * cos (th ! i)"
  define Q where "Q = n ! Suc i * cos (th ! Suc i)"
  have PQ: "P \<noteq> 0" "P + Q \<noteq> 0" using p dS kS by (simp_all add: P_def Q_def)
  have t: "spec_t pol n th i = 2 * P / (P + Q)" and r: "spec_r pol n th i = (P - Q) / (P + Q)"
    using kS by (simp_all add: spec_t_def spec_r_def P_def Q_def)
  have a: "a = (v + (P - Q) / (P + Q) * w) / (2 * P / (P + Q))"
    and b: "b = ((P - Q) / (P + Q) * v + w) / (2 * P / (P + Q))"
    using ab unfolding interface_apply t r by simp_all
  have a': "a = ((P + Q) * v + (P - Q) * w) / (2 * P)"
    and b': "b = ((P - Q) * v + (P + Q) * w) / (2 * P)"
  proof -
    have num: "(v + (P - Q) / (P + Q) * w) * (P + Q) = (P + Q) * v + (P - Q) * w"
      "((P - Q) / (P + Q) * v + w) * (P + Q) = (P - Q) * v + (P + Q) * w"
      using PQ by (simp_all add: field_simps)
    show "a = ((P + Q) * v + (P - Q) * w) / (2 * P)"
      "b = ((P - Q) * v + (P + Q) * w) / (2 * P)"
      by (simp_all only: a b divide_divide_eq_right num)
  qed
  have s: "a + b = v + w" unfolding a' b' using PQ by (simp add: field_simps)
  have d: "P * (a - b) = Q * (v - w)" unfolding a' b' using PQ by (simp add: field_simps)
  show ?thesis
    using s d by (intro exI [of _ 1]) (simp add: P_def Q_def)
next
  case kP
  define c where "c = cos (th ! i)"
  define c' where "c' = cos (th ! Suc i)"
  define m where "m = n ! i"
  define m' where "m' = n ! Suc i"
  define D where "D = m' * c + m * c'"
  have nzs: "m \<noteq> 0" "m' \<noteq> 0" "c \<noteq> 0" "D \<noteq> 0"
    using nz p dP kP by (auto simp: m_def m'_def c_def c'_def D_def)
  have t: "spec_t pol n th i = 2 * m * c / D" and r: "spec_r pol n th i = (m' * c - m * c') / D"
    using kP by (simp_all add: spec_t_def spec_r_def m_def m'_def c_def c'_def D_def)
  have a: "a = (v + (m' * c - m * c') / D * w) / (2 * m * c / D)"
    and b: "b = ((m' * c - m * c') / D * v + w) / (2 * m * c / D)"
    using ab unfolding interface_apply t r by simp_all
  have a': "a = (D * v + (m' * c - m * c') * w) / (2 * m * c)"
    and b': "b = ((m' * c - m * c') * v + D * w) / (2 * m * c)"
    unfolding a b using nzs by (simp_all add: field_simps)
  have s: "a + b = (m' / m) * (v + w)"
    unfolding a' b' D_def using nzs by (simp add: field_simps)
  have d: "c * (a - b) = c' * (v - w)"
    unfolding a' b' D_def using nzs by (simp add: field_simps)
  define k where "k = Re m' / Re m"
  have mr: "m = of_real (Re m)" "m' = of_real (Re m')"
    using re by (simp_all add: m_def m'_def complex_eq_iff)
  have rm: "Re m \<noteq> 0" "Re m' \<noteq> 0" using nzs mr by (metis of_real_0)+
  have k1: "of_real k = m' / m"
  proof -
    have "of_real k = (of_real (Re m') :: complex) / of_real (Re m)" by (simp add: k_def)
    then show ?thesis using mr by simp
  qed
  have k2: "k \<noteq> 0" using rm by (simp add: k_def)
  have "of_real k * (m * c * (a - b)) = m' * (c * (a - b))"
    unfolding k1 using nzs by (simp add: field_simps)
  also have "\<dots> = m' * c' * (v - w)" unfolding d by simp
  finally have d': "of_real k * (m * c * (a - b)) = m' * c' * (v - w)" .
  show ?thesis
    using k1 k2 s d' by (intro exI [of _ k]) (simp add: m_def m'_def c_def c'_def)
qed

lemma interface_flux:
  fixes a b v w P Q :: complex
  assumes "a + b = of_real k * (v + w)"
    and "of_real k * (P * (a - b)) = Q * (v - w)"
  shows "flux P (a, b) = flux Q (v, w)"
proof -
  have "P * (a - b) * cnj (a + b) = of_real k * (P * (a - b)) * cnj (v + w)"
    unfolding assms(1) by simp
  then show ?thesis unfolding flux_def fst_conv snd_conv assms(2) by simp
qed

lemma interface_nonzero:
  fixes a b v w P Q :: complex
  assumes "k \<noteq> 0" and "a + b = of_real k * (v + w)"
    and "of_real k * (P * (a - b)) = Q * (v - w)"
    and "v + w \<noteq> 0 \<or> ((v, w) \<noteq> (0, 0) \<and> Q \<noteq> 0)"
  shows "(a, b) \<noteq> (0, 0)"
proof
  assume "(a, b) = (0, 0)"
  then have z: "a = 0" "b = 0" by simp_all
  from assms(2) z have "of_real k * (v + w) = 0" by simp
  with assms(1) have s: "v + w = 0" by auto
  from assms(3) z have "Q * (v - w) = 0" by simp
  with assms(4) s have e: "v = w" by auto
  with s have "w + w = 0" by simp
  then have "w = 0" by (simp add: complex_eq_iff)
  with e assms(4) s show False by simp
qed

lemma spec_product_invariant:
  assumes step: "\<And>k u. a \<le> k \<Longrightarrow> k < m \<Longrightarrow> Q (Suc k) u \<Longrightarrow> Q k (mat_apply (M k) u)"
    and base: "Q m u0" and "a \<le> k" and "k \<le> m"
  shows "Q k (mat_apply (spec_product (map M [k..<m])) u0)"
  using assms(4,3)
proof (induction k rule: inc_induct)
  case base
  show ?case using assms(2) by (simp add: mat_apply_id)
next
  case (step j)
  have "[j..<m] = j # [Suc j..<m]" using step.hyps by (simp add: upt_conv_Cons)
  then have "mat_apply (spec_product (map M [j..<m])) u0 =
      mat_apply (M j) (mat_apply (spec_product (map M [Suc j..<m])) u0)"
    by (simp add: mat_apply_mult)
  moreover have "Q (Suc j) (mat_apply (spec_product (map M [Suc j..<m])) u0)"
    using step.IH step.prems by simp
  ultimately show ?case
    using assms(1) [of j] step.hyps step.prems by simp
qed

lemma IsForwardAngle_fst:
  "fst (IsForwardAngle m a) =
     (if \<bar>Im (m * cos a)\<bar> > 100 * EPSILON then Im (m * cos a) > 0 else Re (m * cos a) > 0)"
  by (simp add: IsForwardAngle_def Let_def)

lemma sin_cos_complex_pi: "sin (complex_of_real pi) = 0" "cos (complex_of_real pi) = - 1"
  by (simp_all add: sin_of_real cos_of_real)

lemma sin_forward_corrected: "sin (forward_corrected m a) = sin a"
  by (simp add: forward_corrected_def sin_diff sin_cos_complex_pi)

lemma cos_forward_corrected:
  "cos (forward_corrected m a) = (if fst (IsForwardAngle m a) then cos a else - cos a)"
  by (simp add: forward_corrected_def cos_diff sin_cos_complex_pi)

lemma th_list_spec_nth:
  "i < length n \<Longrightarrow>
   th_list_spec n th_0 ! i =
     (if i = 0 \<or> i = length n - 1 then forward_corrected (n ! i) (snell_angle n th_0 i)
      else snell_angle n th_0 i)"
  by (simp add: th_list_spec_def)

lemma sin_th_list_spec:
  "i < length n \<Longrightarrow> sin (th_list_spec n th_0 ! i) = n ! 0 * sin th_0 / n ! i"
  by (simp add: th_list_spec_nth sin_forward_corrected snell_angle_def sin_asin)

lemma cos_squared: "(cos z)\<^sup>2 = 1 - (sin z)\<^sup>2" for z :: complex
  using sin_cos_squared_add [of z] by (simp add: algebra_simps)

lemma real_or_imaginary:
  fixes P :: complex
  assumes "Im (P\<^sup>2) = 0"
  shows "Re P = 0 \<or> Im P = 0"
  using assms by (auto simp: power2_eq_square)

lemma ncos_real_or_imaginary:
  assumes i: "i < length n" and re: "Im (n ! i) = 0" "Im (n ! 0) = 0"
  shows "Re (n ! i * cos (th_list_spec n (of_real theta) ! i)) = 0 \<or>
         Im (n ! i * cos (th_list_spec n (of_real theta) ! i)) = 0"
proof (rule real_or_imaginary)
  define a where "a = Re (n ! i)"
  define b where "b = Re (n ! 0)"
  have ni: "n ! i = of_real a" and n0: "n ! 0 = of_real b"
    using re by (simp_all add: a_def b_def complex_eq_iff)
  have "sin (th_list_spec n (of_real theta) ! i) = of_real (b * sin theta / a)"
    unfolding sin_th_list_spec [OF i] ni n0 by (simp add: sin_of_real)
  then have "(cos (th_list_spec n (of_real theta) ! i))\<^sup>2 = of_real (1 - (b * sin theta / a)\<^sup>2)"
    unfolding cos_squared by simp
  then have "(n ! i * cos (th_list_spec n (of_real theta) ! i))\<^sup>2 =
      of_real (a\<^sup>2 * (1 - (b * sin theta / a)\<^sup>2))"
    unfolding power_mult_distrib ni by simp
  then show "Im ((n ! i * cos (th_list_spec n (of_real theta) ! i))\<^sup>2) = 0"
    by (simp only: Im_complex_of_real)
qed

lemma spec_delta_matches:
  assumes "Re (n ! i * cos (th ! i)) = 0 \<or> Im (n ! i * cos (th ! i)) = 0"
  shows "(Im (n ! i * cos (th ! i)) = 0 \<and> Im (spec_delta n th lam x i) = 0) \<or>
         (Re (n ! i * cos (th ! i)) = 0 \<and> Re (spec_delta n th lam x i) = 0)"
proof -
  define P where "P = n ! i * cos (th ! i)"
  define c where "c = 2 * pi / lam * x i"
  have ph: "spec_phase n th lam x i = of_real c * P"
    by (simp add: spec_phase_def P_def c_def)
  have parts: "Re (spec_phase n th lam x i) = c * Re P" "Im (spec_phase n th lam x i) = c * Im P"
    unfolding ph by simp_all
  from assms have "Re P = 0 \<or> Im P = 0" by (simp add: P_def)
  then show ?thesis
  proof
    assume "Re P = 0"
    then have "Re (spec_delta n th lam x i) = 0"
      by (simp add: spec_delta_def clamp_def parts)
    with \<open>Re P = 0\<close> show ?thesis by (simp add: P_def)
  next
    assume "Im P = 0"
    then have "Im (spec_delta n th lam x i) = 0"
      by (simp add: spec_delta_def clamp_def parts)
    with \<open>Im P = 0\<close> show ?thesis by (simp add: P_def)
  qed
qed

lemma first_layer_cos:
  assumes N: "2 \<le> length n" and re: "Im (n ! 0) = 0" and pos: "0 < Re (n ! 0)"
    and theta: "0 \<le> theta" "theta < pi / 2"
  shows "cos (th_list_spec n (of_real theta) ! 0) = of_real (cos theta)"
proof -
  define b where "b = Re (n ! 0)"
  have n0: "n ! 0 = of_real b" using re by (simp add: b_def complex_eq_iff)
  have b: "0 < b" using pos by (simp add: b_def)
  define c where "c = cos theta"
  have c: "0 < c" unfolding c_def using theta by (intro cos_gt_zero_pi) simp_all
  define a where "a = snell_angle n (of_real theta) 0"
  have "0 < length n" using N by auto
  then have th0: "th_list_spec n (of_real theta) ! 0 = forward_corrected (n ! 0) a"
    by (simp add: th_list_spec_nth a_def)
  have "sin a = sin (complex_of_real theta)"
    using b by (simp add: a_def snell_angle_def sin_asin n0)
  then have "(cos a)\<^sup>2 = (of_real c)\<^sup>2"
    unfolding cos_squared c_def by (simp add: cos_of_real cos_squared [symmetric])
  then have "cos a = of_real c \<or> cos a = - of_real c"
    by (simp add: power2_eq_iff)
  then show ?thesis
  proof
    assume e: "cos a = of_real c"
    have "n ! 0 * cos a = of_real (b * c)" by (simp add: n0 e)
    then have "fst (IsForwardAngle (n ! 0) a)"
      using b c EPSILON_pos by (simp add: IsForwardAngle_fst)
    then show ?thesis
      by (simp add: th0 cos_forward_corrected e c_def)
  next
    assume e: "cos a = - of_real c"
    have "n ! 0 * cos a = of_real (- (b * c))" by (simp add: n0 e)
    moreover have "\<not> 0 < - (b * c)" using mult_pos_pos [OF b c] by simp
    ultimately have "\<not> fst (IsForwardAngle (n ! 0) a)"
      using EPSILON_pos by (simp add: IsForwardAngle_fst)
    then show ?thesis
      by (simp add: th0 cos_forward_corrected e c_def)
  qed
qed

lemma last_layer_flux:
  assumes N: "2 \<le> length n" and re: "Im (last n) = 0" "Im (n ! 0) = 0"
  shows "0 \<le> Re (last n * cos (th_list_spec n (of_real theta) ! (length n - 1)))"
proof -
  define i where "i = length n - 1"
  have i: "i < length n" "i \<noteq> 0" using N by (simp_all add: i_def)
  have "n \<noteq> []" using N by auto
  then have ln: "last n = n ! i" by (simp add: i_def last_conv_nth)
  define a where "a = snell_angle n (of_real theta) i"
  define P where "P = n ! i * cos a"
  have thi: "th_list_spec n (of_real theta) ! i = forward_corrected (n ! i) a"
    using i by (simp add: th_list_spec_nth a_def i_def)
  have cf: "n ! i * cos (th_list_spec n (of_real theta) ! i) =
      (if fst (IsForwardAngle (n ! i) a) then P else - P)"
    by (simp add: thi cos_forward_corrected P_def)
  have "Re (n ! i * cos (th_list_spec n (of_real theta) ! i)) = 0 \<or>
         Im (n ! i * cos (th_list_spec n (of_real theta) ! i)) = 0"
    using ncos_real_or_imaginary [OF i(1)] re ln by simp
  then have ri: "Re P = 0 \<or> Im P = 0" unfolding cf by (simp split: if_splits)
  have fw: "fst (IsForwardAngle (n ! i) a) =
      (if \<bar>Im P\<bar> > 100 * EPSILON then Im P > 0 else Re P > 0)"
    by (simp add: IsForwardAngle_fst P_def)
  from ri have "0 \<le> Re (if fst (IsForwardAngle (n ! i) a) then P else - P)"
  proof
    assume "Re P = 0"
    then show ?thesis by simp
  next
    assume "Im P = 0"
    then have "fst (IsForwardAngle (n ! i) a) = (Re P > 0)"
      unfolding fw using EPSILON_pos by simp
    then show ?thesis by simp
  qed
  then have "0 \<le> Re (n ! i * cos (th_list_spec n (of_real theta) ! i))"
    by (simp only: cf)
  then show ?thesis unfolding ln i_def .
qed

lemma mat_apply_unit: "mat_apply M (1, 0) = (Get00 M, Get10 M)"
  by (simp add: mat_apply_def)

lemma flux_chain:
  fixes n :: "complex list" and theta :: real
  assumes N: "2 \<le> length n"
    and th: "th = th_list_spec n (of_real theta)"
    and real: "\<forall>i < length n. Im (n ! i) = 0 \<and> n ! i \<noteq> 0"
    and nondeg: "\<forall>i. Suc i < length n \<longrightarrow>
        n ! i * cos (th ! i) \<noteq> 0 \<and>
        (pol = kS \<longrightarrow> n ! i * cos (th ! i) + n ! Suc i * cos (th ! Suc i) \<noteq> 0) \<and>
        (pol = kP \<longrightarrow> n ! Suc i * cos (th ! i) + n ! i * cos (th ! Suc i) \<noteq> 0)"
    and M: "M = spec_Mtilde pol n th (spec_delta n th lam x)"
  shows "flux (n ! 0 * cos (th ! 0)) (Get00 M, Get10 M) =
           Re (n ! (length n - 1) * cos (th ! (length n - 1))) \<and>
         (Get00 M, Get10 M) \<noteq> (0, 0)"
proof -
  define N where "N = length n"
  define P where "P = (\<lambda>k. n ! k * cos (th ! k))"
  define F where "F = Re (P (N - 1))"
  define Q where "Q = (\<lambda>k u. flux (P k) u = F \<and>
      (fst u + snd u \<noteq> 0 \<or> (u \<noteq> (0, 0) \<and> P k \<noteq> 0)))"
  define L where "L = (\<lambda>i. mat_mult (propagate (spec_delta n th lam x i)) (interface pol n th i))"
  have N2: "2 \<le> N" using N by (simp add: N_def)
  have istep: "flux (P k) (mat_apply (interface pol n th k) u) = F \<and>
      mat_apply (interface pol n th k) u \<noteq> (0, 0)"
    if k: "Suc k < N" and q: "Q (Suc k) u" for k u
  proof -
    obtain v w where u: "u = (v, w)" by (cases u)
    obtain a b where ab: "mat_apply (interface pol n th k) (v, w) = (a, b)"
      by (cases "mat_apply (interface pol n th k) (v, w)")
    have "k < length n" "Suc k < length n" using k by (simp_all add: N_def)
    then have r: "Im (n ! k) = 0" "Im (n ! Suc k) = 0" "n ! k \<noteq> 0" "n ! Suc k \<noteq> 0"
      using real by blast+
    have nd: "n ! k * cos (th ! k) \<noteq> 0"
      "pol = kS \<longrightarrow> n ! k * cos (th ! k) + n ! Suc k * cos (th ! Suc k) \<noteq> 0"
      "pol = kP \<longrightarrow> n ! Suc k * cos (th ! k) + n ! k * cos (th ! Suc k) \<noteq> 0"
      using nondeg k by (simp_all add: N_def)
    from interface_relations [OF r(1,2,3,4) nd ab]
    obtain c where c: "c \<noteq> 0" "a + b = of_real c * (v + w)"
      "of_real c * (P k * (a - b)) = P (Suc k) * (v - w)"
      unfolding P_def by blast
    have fl: "flux (P k) (a, b) = flux (P (Suc k)) (v, w)"
      by (rule interface_flux [OF c(2,3)])
    have "v + w \<noteq> 0 \<or> ((v, w) \<noteq> (0, 0) \<and> P (Suc k) \<noteq> 0)"
      using q by (auto simp: Q_def u)
    then have nz: "(a, b) \<noteq> (0, 0)"
      by (rule interface_nonzero [OF c])
    show ?thesis
      using fl nz q by (simp add: u ab Q_def)
  qed
  have mstep: "Q k (mat_apply (L k) u)" if k: "1 \<le> k" "k < N - 1" and q: "Q (Suc k) u" for k u
  proof -
    have sk: "Suc k < N" and kN: "k < length n" using k by (simp_all add: N_def)
    define y where "y = mat_apply (interface pol n th k) u"
    have y: "flux (P k) y = F" "y \<noteq> (0, 0)"
      using istep [OF sk q] by (simp_all add: y_def)
    have "0 < length n" using N by auto
    then have r: "Im (n ! k) = 0" "Im (n ! 0) = 0"
      using real kN by blast+
    have ri: "Re (P k) = 0 \<or> Im (P k) = 0"
      using ncos_real_or_imaginary [OF kN r, of theta] by (simp add: P_def th)
    have match: "(Im (P k) = 0 \<and> Im (spec_delta n th lam x k) = 0) \<or>
         (Re (P k) = 0 \<and> Re (spec_delta n th lam x k) = 0)"
      unfolding P_def by (rule spec_delta_matches) (use ri in \<open>simp add: P_def\<close>)
    have app: "mat_apply (L k) u = mat_apply (propagate (spec_delta n th lam x k)) y"
      by (simp add: L_def mat_apply_mult y_def)
    have f: "flux (P k) (mat_apply (L k) u) = F"
      unfolding app using flux_propagate [OF match] y(1) by simp
    have z: "mat_apply (L k) u \<noteq> (0, 0)"
      unfolding app using y(2) by (simp add: propagate_nonzero)
    have pk: "P k \<noteq> 0" using nondeg sk by (simp add: P_def N_def)
    show ?thesis using f z pk by (simp add: Q_def)
  qed
  have base: "Q (N - 1) (1, 0)"
    by (simp add: Q_def F_def flux_def)
  have one: "1 \<le> N - 1" using N2 by simp
  have chain: "Q 1 (mat_apply (spec_product (map L [1..<N - 1])) (1, 0))"
    by (rule spec_product_invariant [where Q = Q and a = 1 and m = "N - 1", OF _ base order_refl one])
       (rule mstep)
  have last_step: "flux (P 0) (mat_apply (interface pol n th 0)
        (mat_apply (spec_product (map L [1..<N - 1])) (1, 0))) = F \<and>
      mat_apply (interface pol n th 0)
        (mat_apply (spec_product (map L [1..<N - 1])) (1, 0)) \<noteq> (0, 0)"
    using istep [of 0] chain N2 by simp
  have "mat_apply M (1, 0) =
      mat_apply (interface pol n th 0) (mat_apply (spec_product (map L [1..<N - 1])) (1, 0))"
    unfolding M spec_Mtilde_split mat_apply_mult L_def N_def ..
  then show ?thesis
    using last_step by (simp add: mat_apply_unit P_def F_def N_def)
qed

subsection \<open>Angles and phases of concrete stacks\<close>

lemma IsForwardAngle_3_0: "IsForwardAngle 3 0 = (True, [])"
  using EPSILON_pos by (simp add: IsForwardAngle_def Let_def)

lemma th_list_spec_1_3: "th_list_spec [1, 3] 0 = [0, 0]"
  by (simp add: th_list_spec_two snell_angle_def asin_0 forward_corrected_def IsForwardAngle_1_0
      IsForwardAngle_3_0)

lemma th_list_spec_1_2_1: "th_list_spec [1, 2, 1] 0 = [0, 0, 0]"
  by (simp add: th_list_spec_def upt_rec snell_angle_def asin_0 forward_corrected_def
      IsForwardAngle_1_0)

lemma th_list_spec_glass_gap:
  "th_list_spec [3, 1, 3] (of_real (pi / 6)) = [of_real (pi / 6), asin (3 / 2), of_real (pi / 6)]"
proof -
  define t0 where "t0 = complex_of_real (pi / 6)"
  have s0: "sin t0 = 1 / 2" by (simp add: t0_def sin_cos_pi6)
  have f0: "IsForwardAngle 3 t0 = (True, [])" unfolding t0_def by (rule IsForwardAngle_glass)
  have h0: "asin (1 / 2) = t0" unfolding t0_def by (rule asin_half)
  have "th_list_spec [3, 1, 3] t0 = [t0, asin (3 / 2), t0]"
    by (simp add: th_list_spec_def upt_rec snell_angle_def forward_corrected_def s0 h0 f0)
  then show ?thesis unfolding t0_def .
qed

lemma messages_glass_gap:
  "input_tests [3, 1, 3] (of_real (pi / 6)) = []"
  "snell_messages [3, 1, 3] (of_real (pi / 6)) = []"
proof -
  define t0 where "t0 = complex_of_real (pi / 6)"
  have s0: "sin t0 = 1 / 2" by (simp add: t0_def sin_cos_pi6)
  have f0: "IsForwardAngle 3 t0 = (True, [])" unfolding t0_def by (rule IsForwardAngle_glass)
  have h0: "asin (1 / 2) = t0" unfolding t0_def by (rule asin_half)
  have "input_tests [3, 1, 3] t0 = []"
    using EPSILON_pos by (simp add: input_tests_def s0 f0)
  then show "input_tests [3, 1, 3] (of_real (pi / 6)) = []" unfolding t0_def .
  have "snell_messages [3, 1, 3] t0 = []"
    by (simp add: snell_messages_def snell_angle_def s0 h0 f0)
  then show "snell_messages [3, 1, 3] (of_real (pi / 6)) = []" unfolding t0_def .
qed

lemma phase_glass_gap:
  "spec_phase [3, 1, 3] (th_list_spec [3, 1, 3] (of_real (pi / 6))) 1 (\<lambda>i. d) (Suc 0) =
     Complex 0 (- (d * pi * sqrt 5))"
  unfolding th_list_spec_glass_gap
  by (simp add: spec_phase_def cos_asin_3_2 complex_eq_iff)

lemma not_opaque_glass_gap:
  assumes "0 \<le> d"
  shows "\<not> 35 < Im (spec_phase [3, 1, 3] (th_list_spec [3, 1, 3] (of_real (pi / 6))) 1 (\<lambda>i. d) (Suc 0))"
    and "\<not> opaque [3, 1, 3] (th_list_spec [3, 1, 3] (of_real (pi / 6))) 1 (\<lambda>i. d)"
proof -
  have "0 \<le> d * pi * sqrt 5" using assms by simp
  then show im: "\<not> 35 < Im (spec_phase [3, 1, 3] (th_list_spec [3, 1, 3] (of_real (pi / 6))) 1 (\<lambda>i. d) (Suc 0))"
    unfolding phase_glass_gap by simp
  have "i = Suc 0" if "i \<in> {1..<length [3, 1, 3 :: complex] - 1}" for i
    using that by simp
  then show "\<not> opaque [3, 1, 3] (th_list_spec [3, 1, 3] (of_real (pi / 6))) 1 (\<lambda>i. d)"
    unfolding opaque_def using im by blast
qed

lemma two_pow_le_exp: "2 ^ n \<le> exp (real n)"
proof -
  have "(2 :: real) \<le> exp 1" using exp_ge_add_one_self [of 1] by simp
  then have "(2 :: real) ^ n \<le> exp 1 ^ n" by (intro power_mono) simp_all
  also have "\<dots> = exp (real n)" using exp_of_nat_mult [of n "1 :: real"] by simp
  finally show ?thesis .
qed

lemma DBL_MAX_less_exp:
  assumes "1024 \<le> a"
  shows "DBL_MAX < exp a"
proof -
  define P where "P = (2 :: real) ^ 1023"
  have P0: "0 < P" by (simp add: P_def)
  have "DBL_MAX = (2 - 1 / 2 ^ 52) * P" by (simp only: DBL_MAX_def P_def)
  also have "\<dots> < 2 * P" using P0 by (intro mult_strict_right_mono) simp_all
  also have "\<dots> = 2 ^ Suc 1023" by (simp only: P_def power_Suc)
  also have "\<dots> \<le> exp (real (Suc 1023))" by (rule two_pow_le_exp)
  also have "\<dots> \<le> exp a" using assms by simp
  finally show ?thesis .
qed

lemma gap_exponent: "1024 \<le> 300 * pi * sqrt 5"
proof -
  have "2 \<le> sqrt 5" by (rule real_le_rsqrt) simp
  moreover have "2 \<le> pi" by (rule pi_ge_two)
  ultimately have "2 * 2 \<le> pi * sqrt 5" by (intro mult_mono) simp_all
  then show ?thesis by simp
qed

lemma finite_interior_three_layers: "finite_interior (three_layers a b d c)"
proof -
  have "i = Suc 0" if "i \<in> {1..<length (fRefractiveIndexList (three_layers a b d c)) - 1}" for i
    using that by (simp add: three_layers_def)
  then show ?thesis
    unfolding finite_interior_def by (auto simp: three_layers_def)
qed


subsection \<open>Energy in exact arithmetic\<close>

text \<open>
  In arithmetic without rounding and without overflow the solver conserves energy on
  a stack of real, non-zero indices with a positive index in layer 0, at a real angle
  \<open>0 \<le> \<theta>\<^sub>0 < \<pi>/2\<close>, as long as no divisor of the interface loop vanishes. Evanescent
  layers are included, on either branch.
\<close>

lemma energy_conservation_exact:
  assumes "2 \<le> length (fRefractiveIndexList ml)"
    and "length (fRefractiveIndexList ml) \<le> length (fThicknessList ml)"
    and "\<forall>i. 1 \<le> i \<and> i < length (fRefractiveIndexList ml) - 1 \<longrightarrow>
           fThicknessList ml ! i = Finite (x i)"
    and n: "n = map (\<lambda>idx. idx lam) (fRefractiveIndexList ml)"
    and th: "th = th_list_spec n (of_real theta)"
    and real: "\<forall>i < length n. Im (n ! i) = 0 \<and> n ! i \<noteq> 0"
    and pos: "0 < Re (n ! 0)"
    and theta: "0 \<le> theta" "theta < pi / 2"
    and lam: "lam \<noteq> 0"
    and nondeg: "\<forall>i. Suc i < length n \<longrightarrow>
        n ! i * cos (th ! i) \<noteq> 0 \<and>
        (pol = kS \<longrightarrow> n ! i * cos (th ! i) + n ! Suc i * cos (th ! Suc i) \<noteq> 0) \<and>
        (pol = kP \<longrightarrow> n ! Suc i * cos (th ! i) + n ! i * cos (th ! Suc i) \<noteq> 0)"
  shows "\<exists>res. CoherentTMM pol (of_real theta) lam ml w = Some res \<and>
           reflectance res + transmittance res = 1"
proof -
  define M where "M = spec_Mtilde pol n th (spec_delta n th lam x)"
  define A where "A = Get00 M"
  define B where "B = Get10 M"
  have N: "2 \<le> length n" using assms(1) n by simp
  then have ne: "n \<noteq> []" by auto
  have lth: "length th = length n" unfolding th th_list_spec_def by simp
  then have "th \<noteq> []" using ne by auto
  then have last_th: "last th = th ! (length n - 1)" using lth by (simp add: last_conv_nth)
  have last_n: "last n = n ! (length n - 1)" using ne by (simp add: last_conv_nth)
  have idx: "0 < length n" "length n - 1 < length n" using N by auto
  have r0: "Im (n ! 0) = 0" and rf: "Im (last n) = 0"
    using real idx unfolding last_n by blast+
  define p0 where "p0 = Re (n ! 0) * cos theta"
  have ct: "0 < cos theta" using theta by (intro cos_gt_zero_pi) simp_all
  have p0: "0 < p0" unfolding p0_def using pos ct by simp
  have n0: "n ! 0 = of_real (Re (n ! 0))" using r0 by (simp add: complex_eq_iff)
  have c0: "cos (th ! 0) = of_real (cos theta)"
    unfolding th by (rule first_layer_cos [OF N r0 pos theta])
  have P0: "n ! 0 * cos (th ! 0) = of_real p0"
    unfolding c0 p0_def by (subst n0) simp
  define F where "F = Re (last n * cos (last th))"
  have "0 \<le> Re (last n * cos (th ! (length n - 1)))"
    unfolding th by (rule last_layer_flux [OF N rf r0])
  then have F0: "0 \<le> F"
    unfolding F_def last_th .
  from flux_chain [OF N th real nondeg M_def]
  have fl: "flux (of_real p0) (A, B) = F" and nz: "(A, B) \<noteq> (0, 0)"
    unfolding P0 F_def last_th last_n A_def B_def by simp_all
  have bal: "p0 * ((cmod A)\<^sup>2 - (cmod B)\<^sup>2) = F"
    using fl unfolding flux_expand by simp
  have A0: "A \<noteq> 0"
  proof
    assume "A = 0"
    with bal have "- (p0 * (cmod B)\<^sup>2) = F" by simp
    moreover have "0 \<le> p0 * (cmod B)\<^sup>2" using p0 by simp
    ultimately have "p0 * (cmod B)\<^sup>2 = 0" using F0 by linarith
    then have "B = 0" using p0 by simp
    with \<open>A = 0\<close> nz show False by simp
  qed
  have cA: "0 < (cmod A)\<^sup>2" using A0 by simp
  have den: "Re (n ! 0 * cos (complex_of_real theta)) = p0"
    "Re (n ! 0 * cnj (cos (complex_of_real theta))) = p0"
    unfolding p0_def by (subst n0, simp add: cos_of_real)+
  have numP: "Re (last n * cnj (cos (last th))) = F"
    unfolding F_def using rf by simp
  have R: "fst (powers pol n (of_real theta) th (amplitudes M)) = (cmod B)\<^sup>2 / (cmod A)\<^sup>2"
    by (simp add: powers_def amplitudes_def Let_def A_def B_def norm_divide power2_eq_square)
  have nm: "cmod (1 / A * (1 / A)) = 1 / (cmod A)\<^sup>2"
    by (simp add: norm_mult norm_divide power2_eq_square)
  have T: "snd (powers pol n (of_real theta) th (amplitudes M)) = 1 / (cmod A)\<^sup>2 * (F / p0)"
    unfolding powers_def amplitudes_def Let_def prod.case snd_conv A_def [symmetric] nm den numP
    by (simp add: F_def)
  have "(cmod B)\<^sup>2 / (cmod A)\<^sup>2 + 1 / (cmod A)\<^sup>2 * (F / p0) = 1"
  proof -
    have "F / p0 = (cmod A)\<^sup>2 - (cmod B)\<^sup>2" using bal p0 by (simp add: field_simps)
    then show ?thesis using cA by (simp add: field_simps)
  qed
  then have sum: "fst (powers pol n (of_real theta) th (amplitudes M)) +
      snd (powers pol n (of_real theta) th (amplitudes M)) = 1"
    unfolding R T .
  have "CoherentTMM pol (of_real theta) lam ml w =
      Some \<lparr>messages = input_tests n (of_real theta) @ snell_messages n (of_real theta) @
                              (if \<not> w \<and> opaque n th lam x then [OpacityWarning] else []),
                   warned = (w \<or> opaque n th lam x),
                   reflectance = fst (powers pol n (of_real theta) th (amplitudes M)),
                   transmittance = snd (powers pol n (of_real theta) th (amplitudes M))\<rparr>"
    using CoherentTMM_Some [OF assms(1-3), of pol "of_real theta" lam w] unfolding n th M_def by simp
  then show ?thesis using sum by simp
qed

section \<open>The claims\<close>

text \<open>
  C1. On a stack of \<open>N \<ge> 2\<close> layers with finite interior thicknesses
  \<^verbatim>\<open>CoherentTMM\<close> runs as follows, on the indices \<open>n\<close> of the stack at the wavelength, the
  angles \<open>th\<close> of \<^verbatim>\<open>ListSnell\<close>, the amplitudes \<open>t_list\<close>, \<open>r_list\<close> of the interface loop
  and the phases \<open>delta\<close> left by the opacity loop. The matrix loop stores at each
  interior position \<open>i\<close> the matrix
  \<open>(1/t\<^sub>i) [[e\<^sup>-\<^sup>j\<^sup>\<delta>, 0], [0, e\<^sup>j\<^sup>\<delta>]] [[1, r\<^sub>i], [r\<^sub>i, 1]]\<close> with \<open>\<delta> = delta[i]\<close>;
  \<^verbatim>\<open>Mtilde\<close> is \<open>(1/t\<^sub>0) [[1, r\<^sub>0], [r\<^sub>0, 1]]\<close> times the left-to-right product of these
  matrices, which is the identity when \<open>N = 2\<close>; and the returned \<open>R\<close> and \<open>T\<close> are the
  powers of the amplitudes \<open>r = Mtilde\<^sub>1\<^sub>0 / Mtilde\<^sub>0\<^sub>0\<close> and \<open>t = 1 / Mtilde\<^sub>0\<^sub>0\<close>.
\<close>

theorem transfer_matrices:
  assumes "2 \<le> length (fRefractiveIndexList ml)"
    and "length (fRefractiveIndexList ml) \<le> length (fThicknessList ml)"
    and "\<forall>i. 1 \<le> i \<and> i < length (fRefractiveIndexList ml) - 1 \<longrightarrow>
           fThicknessList ml ! i = Finite (x i)"
    and n: "n = map (\<lambda>idx. idx lam) (fRefractiveIndexList ml)"
  shows "\<exists>th msgs t_list r_list delta w' msgs' M_inner Mtilde res.
           ListSnell ml th_0 n [] = Some (th, msgs) \<and>
           fresnel_lists pol (length n) n th = (t_list, r_list) \<and>
           opacity_loop [1..<length n - 1]
             (delta_of (length n) (kz_list_of (length n) n th lam) (fThicknessList ml), w, []) =
             Some (delta, w', msgs') \<and>
           M_loop t_list r_list delta [1..<length n - 1] [A2x2ComplexMatrix 0 0 0 0] =
             Some M_inner \<and>
           (\<forall>i. 1 \<le> i \<and> i < length n - 1 \<longrightarrow>
              (\<exists>d. delta ! i = Some d \<and>
                 (M_inner @ [A2x2ComplexMatrix 0 0 0 0]) ! i =
                   mat_mult
                     (scalar_mult (1 / t_list ! i)
                        (A2x2ComplexMatrix (exp (- \<i> * d)) 0 0 (exp (\<i> * d))))
                     (A2x2ComplexMatrix 1 (r_list ! i) (r_list ! i) 1))) \<and>
           Mtilde_of (length n) t_list r_list (M_inner @ [A2x2ComplexMatrix 0 0 0 0]) = Mtilde \<and>
           Mtilde =
             mat_mult
               (scalar_mult (1 / t_list ! 0) (A2x2ComplexMatrix 1 (r_list ! 0) (r_list ! 0) 1))
               (spec_product
                  (map (\<lambda>i. (M_inner @ [A2x2ComplexMatrix 0 0 0 0]) ! i) [1..<length n - 1])) \<and>
           (length n = 2 \<longrightarrow>
              spec_product
                (map (\<lambda>i. (M_inner @ [A2x2ComplexMatrix 0 0 0 0]) ! i) [1..<length n - 1]) =
              A2x2ComplexMatrix 1 0 0 1) \<and>
           CoherentTMM pol th_0 lam ml w = Some res \<and>
           (reflectance res, transmittance res) =
             powers pol n th_0 th (Get10 Mtilde / Get00 Mtilde, 1 / Get00 Mtilde)"
proof -
  note R1 = CoherentTMM_run(1) [OF assms(1-3), where ?th_0.0 = th_0 and lam = lam, folded n]
  note R4 = CoherentTMM_run(4) [OF assms(1-3), where ?th_0.0 = th_0 and lam = lam and w = w, folded n]
  note R5 = CoherentTMM_run(5) [OF assms(1-3), where ?th_0.0 = th_0 and lam = lam and pol = pol, folded n]
  note R6 = CoherentTMM_run(6) [OF assms(1-3), where ?th_0.0 = th_0 and lam = lam and pol = pol, folded n]
  note R8 = CoherentTMM_run(8) [OF assms(1-3), where ?th_0.0 = th_0 and lam = lam and pol = pol and w = w, folded n]
  note R9 = CoherentTMM_run(9) [OF assms(1-3), where ?th_0.0 = th_0 and lam = lam, folded n]
  let ?th = "th_list_spec n th_0"
  let ?t = "fst (fresnel_lists pol (length n) n ?th)"
  let ?r = "snd (fresnel_lists pol (length n) n ?th)"
  let ?Z = "A2x2ComplexMatrix 0 0 0 0"
  have f2: "fresnel_lists pol (length n) n ?th = (?t, ?r)" by simp
  have f5: "\<exists>d. delta ! i = Some d \<and>
                 M ! i =
                   mat_mult
                     (scalar_mult (1 / ?t ! i)
                        (A2x2ComplexMatrix (exp (- \<i> * d)) 0 0 (exp (\<i> * d))))
                     (A2x2ComplexMatrix 1 (?r ! i) (?r ! i) 1)"
    if "delta ! i = Some e" "M ! i = spec_M (?t ! i) (?r ! i) e" for delta M i e
    using that by (simp add: spec_M_def scalar_mult_mat_mult)
  have f8: "length n = 2 \<longrightarrow> spec_product (map (\<lambda>i. M ! i) [1..<length n - 1]) = A2x2ComplexMatrix 1 0 0 1"
    for M :: "A2x2ComplexMatrix list"
    by simp
  show ?thesis
    apply (intro exI conjI)
             apply (rule R1)
            apply (rule f2)
           apply (rule R4)
          apply (rule R5)
         apply (intro allI impI)
         apply (rule f5)
          apply (rule R9 [rule_format], assumption)
         apply (rule R6 [rule_format], assumption)
        apply (rule refl)
       apply (rule Mtilde_of_product)
      apply (rule f8)
     apply (rule R8)
    apply (simp add: amplitudes_def)
    done
qed

theorem transfer_matrices_witness:
  "2 \<le> length (fRefractiveIndexList (three_layers 1 2 (1 / 4) 1)) \<and>
   length (fRefractiveIndexList (three_layers 1 2 (1 / 4) 1)) \<le>
     length (fThicknessList (three_layers 1 2 (1 / 4) 1)) \<and>
   fThicknessList (three_layers 1 2 (1 / 4) 1) ! 1 = Finite (1 / 4) \<and>
   (\<exists>t_list r_list M_inner.
      fresnel_lists kS 3 [1, 2, 1] [0, 0, 0] = (t_list, r_list) \<and>
      (M_inner @ [A2x2ComplexMatrix 0 0 0 0]) ! 1 =
        A2x2ComplexMatrix (- 3 / 4) (- 1 / 4) (- 1 / 4) (- 3 / 4) \<and>
      Mtilde_of 3 t_list r_list (M_inner @ [A2x2ComplexMatrix 0 0 0 0]) =
        A2x2ComplexMatrix (- 1) 0 0 (- 1)) \<and>
   (\<exists>res. CoherentTMM kS 0 1 (three_layers 1 2 (1 / 4) 1) False = Some res \<and>
      reflectance res = 0 \<and> transmittance res = 1)"
proof -
  let ?Z = "A2x2ComplexMatrix 0 0 0 0"
  let ?ml = "three_layers 1 2 (1 / 4) 1"
  have h: "2 \<le> length (fRefractiveIndexList ?ml)"
    "length (fRefractiveIndexList ?ml) \<le> length (fThicknessList ?ml)"
    "\<forall>i. 1 \<le> i \<and> i < length (fRefractiveIndexList ?ml) - 1 \<longrightarrow>
        fThicknessList ?ml ! i = Finite ((\<lambda>i. 1 / 4) i)"
    using three_layers_wf [of 1 2 "1 / 4" 1] by simp_all
  have n: "[1, 2, 1] = map (\<lambda>idx. idx 1) (fRefractiveIndexList ?ml)"
    by (simp add: three_layers_def AConstantIndex_def)
  have one: "(1 :: nat) \<le> 1 \<and> 1 < length [1, 2, 1 :: complex] - 1" by simp
  from transfer_matrices [OF h n, where ?th_0.0 = 0 and pol = kS and w = False]
  obtain th msgs t_list r_list delta w' msgs' M_inner Mtilde res where
    ls: "ListSnell ?ml 0 [1, 2, 1] [] = Some (th, msgs)"
    and fl: "fresnel_lists kS (length [1, 2, 1 :: complex]) [1, 2, 1] th = (t_list, r_list)"
    and ol: "opacity_loop [1..<length [1, 2, 1 :: complex] - 1]
             (delta_of (length [1, 2, 1 :: complex]) (kz_list_of (length [1, 2, 1 :: complex]) [1, 2, 1] th 1)
                (fThicknessList ?ml), False, []) = Some (delta, w', msgs')"
    and mi: "\<forall>i. 1 \<le> i \<and> i < length [1, 2, 1 :: complex] - 1 \<longrightarrow>
              (\<exists>d. delta ! i = Some d \<and>
                 (M_inner @ [?Z]) ! i =
                   mat_mult
                     (scalar_mult (1 / t_list ! i)
                        (A2x2ComplexMatrix (exp (- \<i> * d)) 0 0 (exp (\<i> * d))))
                     (A2x2ComplexMatrix 1 (r_list ! i) (r_list ! i) 1))"
    and mt: "Mtilde_of (length [1, 2, 1 :: complex]) t_list r_list (M_inner @ [?Z]) = Mtilde"
    and mp: "Mtilde =
             mat_mult
               (scalar_mult (1 / t_list ! 0) (A2x2ComplexMatrix 1 (r_list ! 0) (r_list ! 0) 1))
               (spec_product
                  (map (\<lambda>i. (M_inner @ [?Z]) ! i) [1..<length [1, 2, 1 :: complex] - 1]))"
    and run: "CoherentTMM kS 0 1 ?ml False = Some res"
    and rt: "(reflectance res, transmittance res) =
       powers kS [1, 2, 1] 0 th (Get10 Mtilde / Get00 Mtilde, 1 / Get00 Mtilde)"
    by blast
  have "ListSnell ?ml 0 [1, 2, 1] [] = Some (th_list_spec [1, 2, 1] 0, snell_messages [1, 2, 1] 0)"
    by (rule ListSnell_th_list_spec [OF h(1)]) (simp add: three_layers_def)
  then have th: "th = [0, 0, 0]" using ls by (simp add: th_list_spec_1_2_1)
  have up: "[Suc 0..<2] = [Suc 0]" "[0..<2] = [0, Suc 0]" by (simp_all add: upt_rec numeral_2_eq_2)
  have tr: "t_list ! 0 = 2 / 3" "r_list ! 0 = - 1 / 3" "t_list ! Suc 0 = 4 / 3" "r_list ! Suc 0 = 1 / 3"
    using fl unfolding th
    by (auto simp: fresnel_lists_def fresnel_step_def up numeral_3_eq_3)
  have d0: "delta_of (length [1, 2, 1 :: complex]) (kz_list_of (length [1, 2, 1 :: complex]) [1, 2, 1] th 1)
                (fThicknessList ?ml) ! 1 = Some (of_real pi)"
    by (simp add: delta_of_def kz_list_of_def three_layers_def th)
  have "delta ! 1 = Some (of_real pi)"
    using ol d0 by (simp add: up)
  with mi [rule_format, OF one] have M1: "(M_inner @ [?Z]) ! 1 =
      A2x2ComplexMatrix (- 3 / 4) (- 1 / 4) (- 1 / 4) (- 3 / 4)"
    by (auto simp: tr exp_minus scalar_mult_def mat_mult_def)
  have Mt: "Mtilde = A2x2ComplexMatrix (- 1) 0 0 (- 1)"
    unfolding mp using M1 by (simp add: up tr scalar_mult_def mat_mult_def)
  have "(reflectance res, transmittance res) = (0, 1)"
    unfolding rt Mt by (simp add: powers_def th)
  then have res: "reflectance res = 0" "transmittance res = 1" by simp_all
  have len3: "length [1, 2, 1 :: complex] = 3" by simp
  have "fresnel_lists kS 3 [1, 2, 1] [0, 0, 0] = (t_list, r_list)"
    by (rule fl [unfolded th len3])
  moreover have "Mtilde_of 3 t_list r_list (M_inner @ [?Z]) = A2x2ComplexMatrix (- 1) 0 0 (- 1)"
    using mt [unfolded len3] Mt by (simp only:)
  moreover have "fThicknessList ?ml ! 1 = Finite (1 / 4)" by (simp add: three_layers_def)
  ultimately show ?thesis using h(1,2) M1 run res by blast
qed

text \<open>
  C2. On a stack of at least two layers with finite interior thicknesses the solve returns
  \<open>R = |r|\<^sup>2\<close> and, for S-polarization, \<open>T = |t|\<^sup>2 Re (n\<^sub>f cos \<theta>\<^sub>f) / Re (n\<^sub>i cos \<theta>\<^sub>i)\<close>,
  for P-polarization, \<open>T = |t|\<^sup>2 Re (n\<^sub>f conj (cos \<theta>\<^sub>f)) / Re (n\<^sub>i conj (cos \<theta>\<^sub>i))\<close>, where
  \<open>r\<close> and \<open>t\<close> are the amplitudes of the composed matrix, \<open>n\<^sub>i\<close> is the index of layer 0,
  \<open>\<theta>\<^sub>i\<close> is the argument \<open>\<theta>\<^sub>0\<close>, \<open>n\<^sub>f\<close> is the index of the last layer and \<open>\<theta>\<^sub>f\<close> is the
  branch-corrected last Snell angle.
\<close>

theorem reflectance_transmittance:
  assumes "2 \<le> length (fRefractiveIndexList ml)"
    and "length (fRefractiveIndexList ml) \<le> length (fThicknessList ml)"
    and "\<forall>i. 1 \<le> i \<and> i < length (fRefractiveIndexList ml) - 1 \<longrightarrow>
           fThicknessList ml ! i = Finite (x i)"
    and n: "n = map (\<lambda>idx. idx lam) (fRefractiveIndexList ml)"
    and th: "th = th_list_spec n th_0"
    and M: "Mtilde = spec_Mtilde pol n th (spec_delta n th lam x)"
    and r: "r = Get10 Mtilde / Get00 Mtilde"
    and t: "t = 1 / Get00 Mtilde"
  shows "\<exists>res. CoherentTMM pol th_0 lam ml w = Some res \<and>
           reflectance res = (cmod r)\<^sup>2 \<and>
           (pol = kS \<longrightarrow>
              transmittance res =
                (cmod t)\<^sup>2 * Re (last n * cos (last th)) / Re (n ! 0 * cos th_0)) \<and>
           (pol = kP \<longrightarrow>
              transmittance res =
                (cmod t)\<^sup>2 * Re (last n * cnj (cos (last th))) / Re (n ! 0 * cnj (cos th_0))) \<and>
           last th = forward_corrected (last n) (asin (n ! 0 * sin th_0 / last n))"
proof -
  have len: "2 \<le> length n" using assms(1) n by simp
  then have ne: "n \<noteq> []" by auto
  have thl: "length th = length n" unfolding th th_list_spec_def by simp
  then have "th \<noteq> []" using ne by auto
  then have "last th = th ! (length n - 1)" using thl by (simp add: last_conv_nth)
  also have "\<dots> = forward_corrected (n ! (length n - 1)) (snell_angle n th_0 (length n - 1))"
    using len unfolding th th_list_spec_def by simp
  finally have lt: "last th = forward_corrected (last n) (asin (n ! 0 * sin th_0 / last n))"
    using ne by (simp add: last_conv_nth snell_angle_def)
  have run: "CoherentTMM pol th_0 lam ml w =
      Some \<lparr>messages = input_tests n th_0 @ snell_messages n th_0 @
                              (if \<not> w \<and> opaque n th lam x then [OpacityWarning] else []),
                   warned = (w \<or> opaque n th lam x),
                   reflectance = fst (powers pol n th_0 th (amplitudes Mtilde)),
                   transmittance = snd (powers pol n th_0 th (amplitudes Mtilde))\<rparr>"
    using CoherentTMM_Some [OF assms(1-3), of pol th_0 lam w] unfolding n th M by simp
  have amp: "amplitudes Mtilde = (r, t)" by (simp add: amplitudes_def r t)
  have nm: "cmod (t * t) = (cmod t)\<^sup>2" by (simp add: norm_mult power2_eq_square)
  have R: "fst (powers pol n th_0 th (amplitudes Mtilde)) = (cmod r)\<^sup>2"
    unfolding amp by (simp add: powers_def power2_eq_square Let_def)
  have T: "snd (powers pol n th_0 th (amplitudes Mtilde)) =
      (if pol = kS then (cmod t)\<^sup>2 * Re (last n * cos (last th)) / Re (n ! 0 * cos th_0)
       else (cmod t)\<^sup>2 * Re (last n * cnj (cos (last th))) / Re (n ! 0 * cnj (cos th_0)))"
    unfolding amp powers_def Let_def prod.case snd_conv nm by simp
  show ?thesis using run R T lt by (cases pol) simp_all
qed

theorem reflectance_transmittance_witness:
  "2 \<le> length (fRefractiveIndexList (two_layers 1 1)) \<and>
   length (fRefractiveIndexList (two_layers 1 1)) \<le> length (fThicknessList (two_layers 1 1)) \<and>
   (\<exists>res. CoherentTMM kP 0 1 (two_layers 1 1) False = Some res \<and>
      reflectance res = 0 \<and> transmittance res = 1)"
proof -
  have h: "2 \<le> length (fRefractiveIndexList (two_layers 1 1))"
    "length (fRefractiveIndexList (two_layers 1 1)) \<le> length (fThicknessList (two_layers 1 1))"
    "\<forall>i. 1 \<le> i \<and> i < length (fRefractiveIndexList (two_layers 1 1)) - 1 \<longrightarrow>
        fThicknessList (two_layers 1 1) ! i = Finite ((\<lambda>i. 0) i)"
    by (simp_all add: two_layers_def)
  have n: "[1, 1] = map (\<lambda>idx. idx 1) (fRefractiveIndexList (two_layers 1 1))"
    by (simp add: two_layers_def AConstantIndex_def)
  have th: "[0, 0] = th_list_spec [1, 1] 0"
    by (simp add: th_list_spec_two snell_angle_def asin_0 forward_corrected_def IsForwardAngle_1_0)
  have M: "A2x2ComplexMatrix 1 0 0 1 = spec_Mtilde kP [1, 1] [0, 0] (spec_delta [1, 1] [0, 0] 1 (\<lambda>i. 0))"
    by (simp add: spec_Mtilde_two spec_t_def spec_r_def scalar_mult_def)
  have r: "(0::complex) = Get10 (A2x2ComplexMatrix 1 0 0 1) / Get00 (A2x2ComplexMatrix 1 0 0 1)"
    and t: "(1::complex) = 1 / Get00 (A2x2ComplexMatrix 1 0 0 1)"
    by simp_all
  from reflectance_transmittance [OF h n th M r t, of False]
  obtain res where "CoherentTMM kP 0 1 (two_layers 1 1) False = Some res"
    "reflectance res = 0" "transmittance res = 1"
    by auto
  then show ?thesis using h by blast
qed

text \<open>
  C3. The solver breaks the claim on a lossless stack that passes its input tests: glass
  of index 3, an air gap of 300 wavelengths, glass of index 3, at \<open>\<theta>\<^sub>0 = \<pi>/6\<close>, beyond the
  critical angle, in S-polarization. The stack is built by the constructor and one
  \<^verbatim>\<open>InsertLayer\<close>; nothing is printed. \<^verbatim>\<open>std::asin\<close> puts the angle of the gap at
  \<open>\<pi>/2 + i arcosh (3/2)\<close>, so \<^verbatim>\<open>kz\<close> of the gap is \<open>-\<pi> \<surd>5 i\<close>, with a negative imaginary
  part (the comment in the source takes a positive one to mean decay), and the phase of
  the gap is \<open>-300 \<pi> \<surd>5 i\<close>. The opacity loop, which tests \<open>Im \<delta> > 35\<close> only, leaves it
  as it is and does not set the flag, and the matrix loop takes \<open>exp (j \<delta>)\<close> of it, which
  is larger than the largest finite double: the computation in doubles overflows there,
  where the embedding, which has no overflow, goes on to a result.
\<close>

theorem evanescent_gap_overflow:
  "AMultilayer_new (AConstantIndex 3) (AConstantIndex 3) = Some (two_layers 3 3) \<and>
   InsertLayer (AConstantIndex 1) (Finite 300) (two_layers 3 3) = Some (three_layers 3 1 300 3) \<and>
   ListSnell (three_layers 3 1 300 3) (of_real (pi / 6)) [3, 1, 3] [] =
     Some ([of_real (pi / 6), Complex (pi / 2) (ln (3 / 2 + sqrt 5 / 2)), of_real (pi / 6)], []) \<and>
   kz_list_of 3 [3, 1, 3]
     [of_real (pi / 6), Complex (pi / 2) (ln (3 / 2 + sqrt 5 / 2)), of_real (pi / 6)] 1 ! 1 =
     Complex 0 (- (pi * sqrt 5)) \<and>
   (\<exists>delta.
      opacity_loop [1..<3 - 1]
        (delta_of 3
           (kz_list_of 3 [3, 1, 3]
              [of_real (pi / 6), Complex (pi / 2) (ln (3 / 2 + sqrt 5 / 2)), of_real (pi / 6)] 1)
           (fThicknessList (three_layers 3 1 300 3)), False, []) =
        Some (delta, False, []) \<and>
      delta ! 1 = Some (Complex 0 (- (300 * pi * sqrt 5)))) \<and>
   DBL_MAX < cmod (exp (\<i> * Complex 0 (- (300 * pi * sqrt 5)))) \<and>
   (\<exists>res. CoherentTMM kS (of_real (pi / 6)) 1 (three_layers 3 1 300 3) False = Some res \<and>
      messages res = [] \<and> \<not> warned res)"
proof -
  let ?ml = "three_layers 3 1 300 3"
  let ?t0 = "complex_of_real (pi / 6)"
  let ?g = "Complex (pi / 2) (ln (3 / 2 + sqrt 5 / 2))"
  have h: "2 \<le> length (fRefractiveIndexList ?ml)"
    "length (fRefractiveIndexList ?ml) \<le> length (fThicknessList ?ml)"
    "\<forall>i. 1 \<le> i \<and> i < length (fRefractiveIndexList ?ml) - 1 \<longrightarrow>
        fThicknessList ?ml ! i = Finite ((\<lambda>i. 300) i)"
    using three_layers_wf [of 3 1 300 3] by simp_all
  have n: "[3, 1, 3] = map (\<lambda>idx. idx 1) (fRefractiveIndexList ?ml)"
    by (simp add: three_layers_def AConstantIndex_def)
  have len3: "length [3, 1, 3 :: complex] = 3" by simp
  have th: "th_list_spec [3, 1, 3] ?t0 = [?t0, ?g, ?t0]"
    unfolding th_list_spec_glass_gap asin_3_2 ..
  have nop: "\<not> opaque [3, 1, 3] [?t0, ?g, ?t0] 1 (\<lambda>i. 300)"
    using not_opaque_glass_gap(2) [of 300] unfolding th by simp
  have ph: "spec_phase [3, 1, 3] [?t0, ?g, ?t0] 1 (\<lambda>i. 300) (Suc 0) = Complex 0 (- (300 * pi * sqrt 5))"
    using phase_glass_gap [of 300] unfolding th .
  have sd: "spec_delta [3, 1, 3] [?t0, ?g, ?t0] 1 (\<lambda>i. 300) (Suc 0) = Complex 0 (- (300 * pi * sqrt 5))"
  proof -
    have "0 \<le> 300 * pi * sqrt 5" by simp
    then have "\<not> 35 < - (300 * pi * sqrt 5)" by linarith
    then show ?thesis unfolding spec_delta_def ph clamp_def by simp
  qed
  note R1 = CoherentTMM_run(1) [OF h, where ?th_0.0 = ?t0 and lam = 1, folded n, unfolded th messages_glass_gap]
  note R4 = CoherentTMM_run(4) [OF h, where ?th_0.0 = ?t0 and lam = 1 and w = False, folded n, unfolded th len3]
  note R8 = CoherentTMM_run(8) [OF h, where ?th_0.0 = ?t0 and lam = 1 and w = False and pol = kS, folded n]
  note R9 = CoherentTMM_run(9) [OF h, where ?th_0.0 = ?t0 and lam = 1, folded n, unfolded th len3]
  have c1: "AMultilayer_new (AConstantIndex 3) (AConstantIndex 3) = Some (two_layers 3 3)"
    by (simp add: AMultilayer_new_eq two_layers_def)
  have c2: "InsertLayer (AConstantIndex 1) (Finite 300) (two_layers 3 3) = Some ?ml"
    by (simp add: InsertLayer_eq two_layers_def three_layers_def)
  have c4: "\<exists>delta.
      opacity_loop [1..<3 - 1]
        (delta_of 3 (kz_list_of 3 [3, 1, 3] [?t0, ?g, ?t0] 1) (fThicknessList ?ml), False, []) =
        Some (delta, False, []) \<and>
      delta ! 1 = Some (Complex 0 (- (300 * pi * sqrt 5)))"
  proof (intro exI conjI)
    show "opacity_loop [1..<3 - 1]
        (delta_of 3 (kz_list_of 3 [3, 1, 3] [?t0, ?g, ?t0] 1) (fThicknessList ?ml), False, []) =
        Some (map (\<lambda>j. if j \<in> set [1..<3 - 1]
                   then Some (spec_delta [3, 1, 3] [?t0, ?g, ?t0] 1 (\<lambda>i. 300) j)
                   else delta_of 3 (kz_list_of 3 [3, 1, 3] [?t0, ?g, ?t0] 1) (fThicknessList ?ml) ! j)
               [0..<3], False, [])"
      using R4 nop by (simp only: simp_thms if_False)
    have "map (\<lambda>j. if j \<in> set [1..<3 - 1]
                   then Some (spec_delta [3, 1, 3] [?t0, ?g, ?t0] 1 (\<lambda>i. 300) j)
                   else delta_of 3 (kz_list_of 3 [3, 1, 3] [?t0, ?g, ?t0] 1) (fThicknessList ?ml) ! j)
               [0..<3] ! Suc 0 = Some (spec_delta [3, 1, 3] [?t0, ?g, ?t0] 1 (\<lambda>i. 300) (Suc 0))"
      using R9 [rule_format, of "Suc 0"] by simp
    then show "map (\<lambda>j. if j \<in> set [1..<3 - 1]
                   then Some (spec_delta [3, 1, 3] [?t0, ?g, ?t0] 1 (\<lambda>i. 300) j)
                   else delta_of 3 (kz_list_of 3 [3, 1, 3] [?t0, ?g, ?t0] 1) (fThicknessList ?ml) ! j)
               [0..<3] ! 1 = Some (Complex 0 (- (300 * pi * sqrt 5)))"
      unfolding sd by simp
  qed
  have c3: "kz_list_of 3 [3, 1, 3] [?t0, ?g, ?t0] 1 ! 1 = Complex 0 (- (pi * sqrt 5))"
  proof -
    have "cos ?g = - \<i> * of_real (sqrt 5 / 2)"
      using cos_asin_3_2 unfolding asin_3_2 .
    then show ?thesis by (simp add: kz_list_of_def complex_eq_iff)
  qed
  have c5: "DBL_MAX < cmod (exp (\<i> * Complex 0 (- (300 * pi * sqrt 5))))"
  proof -
    have "\<i> * Complex 0 (- (300 * pi * sqrt 5)) = of_real (300 * pi * sqrt 5)"
      by (simp add: complex_eq_iff)
    then have "cmod (exp (\<i> * Complex 0 (- (300 * pi * sqrt 5)))) = exp (300 * pi * sqrt 5)"
      by (simp only: norm_exp_eq_Re Re_complex_of_real)
    then show ?thesis using DBL_MAX_less_exp [OF gap_exponent] by simp
  qed
  have c6: "\<exists>res. CoherentTMM kS ?t0 1 ?ml False = Some res \<and> messages res = [] \<and> \<not> warned res"
    using R8 nop unfolding messages_glass_gap th by simp
  show ?thesis using c1 c2 R1 c3 c4 c5 c6 by (intro conjI)
qed

text \<open>
  C4. As stated, the claim fails: a solve with \<open>\<lambda> = -1\<close> prints nothing and returns
  \<open>R = 0\<close>, \<open>T = 1\<close>.
\<close>

theorem no_wavelength_check_counterexample:
  "(- 1 :: real) \<le> 0 \<and>
   AMultilayer_new (AConstantIndex 1) (AConstantIndex 1) = Some (two_layers 1 1) \<and>
   CoherentTMM kS 0 (- 1) (two_layers 1 1) False =
     Some \<lparr>messages = [], warned = False, reflectance = 0, transmittance = 1\<rparr>"
  using air_air by (simp add: AMultilayer_new_eq two_layers_def)

text \<open>
  C4, amended. The wavelength is never tested. The message
  \<^verbatim>\<open>Error in n0 or th0!\<close> is printed exactly when \<open>|Im (n\<^sub>0 sin \<theta>\<^sub>0)| \<ge> 100 \<epsilon>\<close> or \<open>\<theta>\<^sub>0\<close>
  fails the forward-angle diagnostic in layer 0, and the solve then goes on: on every
  stack of at least two layers with finite interior thicknesses it returns \<open>R\<close> and
  \<open>T\<close>, computed by the same formulas as for any other input.
\<close>

theorem input_tests_only_print:
  assumes "2 \<le> length (fRefractiveIndexList ml)"
    and "length (fRefractiveIndexList ml) \<le> length (fThicknessList ml)"
    and "\<forall>i. 1 \<le> i \<and> i < length (fRefractiveIndexList ml) - 1 \<longrightarrow>
           fThicknessList ml ! i = Finite (x i)"
    and n: "n = map (\<lambda>idx. idx lam) (fRefractiveIndexList ml)"
    and th: "th = th_list_spec n th_0"
  shows "\<exists>res. CoherentTMM pol th_0 lam ml w = Some res \<and>
           (InputError \<in> set (messages res) \<longleftrightarrow>
              \<bar>Im (n ! 0 * sin th_0)\<bar> \<ge> 100 * EPSILON \<or> \<not> fst (IsForwardAngle (n ! 0) th_0)) \<and>
           reflectance res =
             fst (powers pol n th_0 th (amplitudes (spec_Mtilde pol n th (spec_delta n th lam x)))) \<and>
           transmittance res =
             snd (powers pol n th_0 th (amplitudes (spec_Mtilde pol n th (spec_delta n th lam x))))"
proof -
  have run: "CoherentTMM pol th_0 lam ml w =
      Some \<lparr>messages = input_tests n th_0 @ snell_messages n th_0 @
                              (if \<not> w \<and> opaque n th lam x then [OpacityWarning] else []),
                   warned = (w \<or> opaque n th lam x),
                   reflectance = fst (powers pol n th_0 th (amplitudes (spec_Mtilde pol n th (spec_delta n th lam x)))),
                   transmittance = snd (powers pol n th_0 th (amplitudes (spec_Mtilde pol n th (spec_delta n th lam x))))\<rparr>"
    using CoherentTMM_Some [OF assms(1-3), of pol th_0 lam w] unfolding n th by simp
  have fa: "InputError \<notin> set (snd (IsForwardAngle (n ! 0) th_0))"
    using IsForwardAngle_messages [of "n ! 0" th_0] by auto
  have "InputError \<in> set (input_tests n th_0) \<longleftrightarrow>
      \<bar>Im (n ! 0 * sin th_0)\<bar> \<ge> 100 * EPSILON \<or> \<not> fst (IsForwardAngle (n ! 0) th_0)"
    using fa by (simp add: input_tests_def case_prod_beta)
  then have "InputError \<in> set (input_tests n th_0 @ snell_messages n th_0 @
                              (if \<not> w \<and> opaque n th lam x then [OpacityWarning] else [])) \<longleftrightarrow>
      \<bar>Im (n ! 0 * sin th_0)\<bar> \<ge> 100 * EPSILON \<or> \<not> fst (IsForwardAngle (n ! 0) th_0)"
    using snell_messages_set(2) [of n th_0] by simp
  then show ?thesis using run by simp
qed

theorem input_tests_only_print_witness:
  "2 \<le> length (fRefractiveIndexList (two_layers 1 1)) \<and>
   length (fRefractiveIndexList (two_layers 1 1)) \<le> length (fThicknessList (two_layers 1 1)) \<and>
   \<not> fst (IsForwardAngle 1 (of_real pi)) \<and>
   (\<exists>res. CoherentTMM kS (of_real pi) (- 1) (two_layers 1 1) False = Some res \<and>
      InputError \<in> set (messages res))"
proof -
  have h: "2 \<le> length (fRefractiveIndexList (two_layers 1 1))"
    "length (fRefractiveIndexList (two_layers 1 1)) \<le> length (fThicknessList (two_layers 1 1))"
    "\<forall>i. 1 \<le> i \<and> i < length (fRefractiveIndexList (two_layers 1 1)) - 1 \<longrightarrow>
        fThicknessList (two_layers 1 1) ! i = Finite ((\<lambda>i. 0) i)"
    by (simp_all add: two_layers_def)
  have n: "[1, 1] = map (\<lambda>idx. idx (- 1)) (fRefractiveIndexList (two_layers 1 1))"
    by (simp add: two_layers_def AConstantIndex_def)
  have cp: "cos (complex_of_real pi) = - 1"
    using cos_of_real [of pi, where 'a = complex] by simp
  have nf: "\<not> fst (IsForwardAngle 1 (of_real pi))"
    using EPSILON_pos by (simp add: IsForwardAngle_def Let_def cp)
  from input_tests_only_print [OF h n refl, of kS "of_real pi" False]
  obtain res where "CoherentTMM kS (of_real pi) (- 1) (two_layers 1 1) False = Some res"
    "InputError \<in> set (messages res) \<longleftrightarrow>
       \<bar>Im ([1, 1] ! 0 * sin (complex_of_real pi))\<bar> \<ge> 100 * EPSILON \<or>
       \<not> fst (IsForwardAngle ([1, 1] ! 0) (of_real pi))"
    by blast
  then show ?thesis using h nf by auto
qed

text \<open>
  C5. The forward-angle diagnostic answers true if and only if
  \<open>Im (n cos \<theta>) > 0\<close> when \<open>|Im (n cos \<theta>)| > 100 \<epsilon>\<close>, and \<open>Re (n cos \<theta>) > 0\<close>
  otherwise.
\<close>

theorem IsForwardAngle_answer:
  "fst (IsForwardAngle n theta) \<longleftrightarrow>
     ((\<bar>Im (n * cos theta)\<bar> > 100 * EPSILON \<longrightarrow> Im (n * cos theta) > 0) \<and>
      (\<not> \<bar>Im (n * cos theta)\<bar> > 100 * EPSILON \<longrightarrow> Re (n * cos theta) > 0))"
  by (simp add: IsForwardAngle_def Let_def)

theorem IsForwardAngle_answer_witness:
  "fst (IsForwardAngle 1 0) \<and> \<not> fst (IsForwardAngle (- 1) 0) \<and> fst (IsForwardAngle \<i> 0)"
  using IsForwardAngle_answer [of 1 0] IsForwardAngle_answer [of "- 1" 0]
    IsForwardAngle_answer [of \<i> 0]
  by (simp add: EPSILON_def)

text \<open>
  C6. Called with an empty angle vector on a stack of at least two layers,
  \<^verbatim>\<open>ListSnell\<close> returns one angle per layer. Entry \<open>i\<close> is the value \<open>a\<close> of
  \<^verbatim>\<open>std::asin\<close> at \<open>n\<^sub>0 sin \<theta>\<^sub>0 / n\<^sub>i\<close>, which is the principal arcsine: its sine is
  \<open>n\<^sub>0 sin \<theta>\<^sub>0 / n\<^sub>i\<close>, its real part lies in \<open>[-\<pi>/2, \<pi>/2]\<close>, and on the two lines
  \<open>Re a = \<plusminus>\<pi>/2\<close> its imaginary part is not negative (the side of the cut for an
  imaginary zero \<open>+0\<close> of the argument). The entry is replaced by \<open>\<pi> - a\<close> exactly when
  \<open>i\<close> is the first or the last layer and \<open>a\<close> fails the forward-angle diagnostic;
  interior entries are never changed.
\<close>

theorem ListSnell_angles:
  assumes "2 \<le> length (fRefractiveIndexList ml)"
    and "length n_list = length (fRefractiveIndexList ml)"
  shows "\<exists>th msgs. ListSnell ml th_0 n_list [] = Some (th, msgs) \<and>
           length th = length n_list \<and>
           (\<forall>i < length n_list.
              \<exists>a. a = asin (n_list ! 0 * sin th_0 / n_list ! i) \<and>
                  sin a = n_list ! 0 * sin th_0 / n_list ! i \<and>
                  - (pi / 2) \<le> Re a \<and> Re a \<le> pi / 2 \<and>
                  (\<bar>Re a\<bar> = pi / 2 \<longrightarrow> 0 \<le> Im a) \<and>
                  th ! i =
                    (if (i = 0 \<or> i = length n_list - 1) \<and>
                        \<not> fst (IsForwardAngle (n_list ! i) a)
                     then of_real pi - a else a))"
proof -
  from ListSnell_Some [OF assms, of th_0] obtain th where
    run: "ListSnell ml th_0 n_list [] = Some (th, snell_messages n_list th_0)"
    and l: "length th = length n_list"
    and nth: "\<forall>i < length n_list. th ! i =
              (if i = 0 \<or> i = length n_list - 1
               then forward_corrected (n_list ! i) (snell_angle n_list th_0 i)
               else snell_angle n_list th_0 i)"
    unfolding snell_messages_def by blast
  have "\<exists>a. a = asin (n_list ! 0 * sin th_0 / n_list ! i) \<and>
                  sin a = n_list ! 0 * sin th_0 / n_list ! i \<and>
                  - (pi / 2) \<le> Re a \<and> Re a \<le> pi / 2 \<and>
                  (\<bar>Re a\<bar> = pi / 2 \<longrightarrow> 0 \<le> Im a) \<and>
                  th ! i =
                    (if (i = 0 \<or> i = length n_list - 1) \<and>
                        \<not> fst (IsForwardAngle (n_list ! i) a)
                     then of_real pi - a else a)" if "i < length n_list" for i
  proof (intro exI conjI)
    let ?a = "asin (n_list ! 0 * sin th_0 / n_list ! i)"
    show "?a = asin (n_list ! 0 * sin th_0 / n_list ! i)" by (rule refl)
    show "sin ?a = n_list ! 0 * sin th_0 / n_list ! i" by (rule sin_asin)
    show "- (pi / 2) \<le> Re ?a" by (rule asin_principal(1))
    show "Re ?a \<le> pi / 2" by (rule asin_principal(2))
    show "\<bar>Re ?a\<bar> = pi / 2 \<longrightarrow> 0 \<le> Im ?a" using asin_principal(3) [of "n_list ! 0 * sin th_0 / n_list ! i"] by blast
    show "th ! i =
                    (if (i = 0 \<or> i = length n_list - 1) \<and>
                        \<not> fst (IsForwardAngle (n_list ! i) ?a)
                     then of_real pi - ?a else ?a)"
      using nth that by (simp add: forward_corrected_def snell_angle_def)
  qed
  then show ?thesis using run l by blast
qed

theorem ListSnell_angles_witness:
  "2 \<le> length (fRefractiveIndexList (two_layers 3 1)) \<and>
   length [3, 1 :: complex] = length (fRefractiveIndexList (two_layers 3 1)) \<and>
   asin (3 * sin (of_real (pi / 6)) / 3) = of_real (pi / 6) \<and>
   asin (3 * sin (of_real (pi / 6)) / 1) = Complex (pi / 2) (ln (3 / 2 + sqrt 5 / 2)) \<and>
   (\<exists>msgs. ListSnell (two_layers 3 1) (of_real (pi / 6)) [3, 1] [] =
      Some ([of_real (pi / 6), of_real pi - Complex (pi / 2) (ln (3 / 2 + sqrt 5 / 2))], msgs)) \<and>
   (\<exists>msgs. ListSnell (two_layers (- 1) 1) 0 [- 1, 1] [] = Some ([of_real pi, 0], msgs))"
proof -
  have h: "2 \<le> length (fRefractiveIndexList (two_layers a b))"
    "length [a, b :: complex] = length (fRefractiveIndexList (two_layers a b))" for a b
    by (simp_all add: two_layers_def)
  have a0: "asin (3 * sin (of_real (pi / 6)) / 3) = of_real (pi / 6)"
    using asin_half by (simp add: sin_cos_pi6)
  have a1: "asin (3 * sin (of_real (pi / 6)) / 1) = Complex (pi / 2) (ln (3 / 2 + sqrt 5 / 2))"
    using asin_3_2 by (simp add: sin_cos_pi6)
  have first: "\<exists>msgs. ListSnell (two_layers 3 1) (of_real (pi / 6)) [3, 1] [] =
      Some ([of_real (pi / 6), of_real pi - Complex (pi / 2) (ln (3 / 2 + sqrt 5 / 2))], msgs)"
  proof -
    define t0 where "t0 = complex_of_real (pi / 6)"
    define g where "g = Complex (pi / 2) (ln (3 / 2 + sqrt 5 / 2))"
    have s0: "sin t0 = 1 / 2" by (simp add: t0_def sin_cos_pi6)
    have f0: "IsForwardAngle 3 t0 = (True, [])" unfolding t0_def by (rule IsForwardAngle_glass)
    have h0: "asin (1 / 2) = t0" unfolding t0_def by (rule asin_half)
    have g0: "asin (3 / 2) = g" unfolding g_def by (rule asin_3_2)
    have f1: "\<not> fst (IsForwardAngle 1 g)" using IsForwardAngle_gap by (simp add: g0)
    from ListSnell_angles [OF h, of 3 1 t0] obtain th msgs where
      run: "ListSnell (two_layers 3 1) t0 [3, 1] [] = Some (th, msgs)"
      and l: "length th = length [3, 1 :: complex]"
      and nth: "\<forall>i < length [3, 1 :: complex].
              \<exists>a. a = asin ([3, 1] ! 0 * sin t0 / [3, 1] ! i) \<and>
                  th ! i =
                    (if (i = 0 \<or> i = length [3, 1 :: complex] - 1) \<and>
                        \<not> fst (IsForwardAngle ([3, 1] ! i) a)
                     then of_real pi - a else a)"
      by blast
    have "th ! 0 = t0" "th ! 1 = of_real pi - g"
      using nth [rule_format, of 0] nth [rule_format, of 1]
      by (simp_all add: s0 h0 f0 g0 f1)
    then have "th = [t0, of_real pi - g]"
      using l by (simp add: list_eq_iff_nth_eq less_Suc_eq numeral_2_eq_2)
    then show ?thesis using run unfolding t0_def g_def by blast
  qed
  have second: "\<exists>msgs. ListSnell (two_layers (- 1) 1) 0 [- 1, 1] [] = Some ([of_real pi, 0], msgs)"
  proof -
    from ListSnell_angles [OF h, of "- 1" 1 0] obtain th msgs where
      run: "ListSnell (two_layers (- 1) 1) 0 [- 1, 1] [] = Some (th, msgs)"
      and l: "length th = length [- 1, 1 :: complex]"
      and nth: "\<forall>i < length [- 1, 1 :: complex].
              \<exists>a. a = asin ([- 1, 1] ! 0 * sin 0 / [- 1, 1] ! i) \<and>
                  th ! i =
                    (if (i = 0 \<or> i = length [- 1, 1 :: complex] - 1) \<and>
                        \<not> fst (IsForwardAngle ([- 1, 1] ! i) a)
                     then of_real pi - a else a)"
      by blast
    have "th ! 0 = of_real pi" "th ! 1 = 0"
      using nth [rule_format, of 0] nth [rule_format, of 1]
      by (simp_all add: asin_0 IsForwardAngle_1_0 IsForwardAngle_m1_0)
    then have "th = [of_real pi, 0]"
      using l by (simp add: list_eq_iff_nth_eq less_Suc_eq numeral_2_eq_2)
    then show ?thesis using run by blast
  qed
  show ?thesis using h [of 3 1] a0 a1 first second by blast
qed

text \<open>
  C7. On a stack of at least two layers with finite interior thicknesses the solver runs
  the interface loop on the indices \<open>n\<close> of the stack at the wavelength and on the angles
  \<open>th\<close> returned by \<^verbatim>\<open>ListSnell\<close>. For every interface \<open>i\<close>, \<open>i + 1\<close> the loop stores, with
  \<open>c\<^sub>i = cos \<theta>\<^sub>i\<close>, for S-polarization
  \<open>t\<^sub>i = 2 n\<^sub>i c\<^sub>i / (n\<^sub>i c\<^sub>i + n\<^sub>i\<^sub>+\<^sub>1 c\<^sub>i\<^sub>+\<^sub>1)\<close> and
  \<open>r\<^sub>i = (n\<^sub>i c\<^sub>i - n\<^sub>i\<^sub>+\<^sub>1 c\<^sub>i\<^sub>+\<^sub>1) / (n\<^sub>i c\<^sub>i + n\<^sub>i\<^sub>+\<^sub>1 c\<^sub>i\<^sub>+\<^sub>1)\<close>, for P-polarization
  \<open>t\<^sub>i = 2 n\<^sub>i c\<^sub>i / (n\<^sub>i\<^sub>+\<^sub>1 c\<^sub>i + n\<^sub>i c\<^sub>i\<^sub>+\<^sub>1)\<close> and
  \<open>r\<^sub>i = (n\<^sub>i\<^sub>+\<^sub>1 c\<^sub>i - n\<^sub>i c\<^sub>i\<^sub>+\<^sub>1) / (n\<^sub>i\<^sub>+\<^sub>1 c\<^sub>i + n\<^sub>i c\<^sub>i\<^sub>+\<^sub>1)\<close>; the matrices are built from
  these two vectors and the returned \<open>R\<close> and \<open>T\<close> from the matrices.
\<close>

theorem fresnel_amplitudes:
  assumes "2 \<le> length (fRefractiveIndexList ml)"
    and "length (fRefractiveIndexList ml) \<le> length (fThicknessList ml)"
    and "\<forall>i. 1 \<le> i \<and> i < length (fRefractiveIndexList ml) - 1 \<longrightarrow>
           fThicknessList ml ! i = Finite (x i)"
    and n: "n = map (\<lambda>idx. idx lam) (fRefractiveIndexList ml)"
  shows "\<exists>th msgs t_list r_list delta w' msgs' M_inner res.
           ListSnell ml th_0 n [] = Some (th, msgs) \<and>
           fresnel_lists pol (length n) n th = (t_list, r_list) \<and>
           (\<forall>i. i + 1 < length n \<longrightarrow>
              (pol = kS \<longrightarrow>
                 t_list ! i =
                   2 * n ! i * cos (th ! i) /
                   (n ! i * cos (th ! i) + n ! (i + 1) * cos (th ! (i + 1))) \<and>
                 r_list ! i =
                   (n ! i * cos (th ! i) - n ! (i + 1) * cos (th ! (i + 1))) /
                   (n ! i * cos (th ! i) + n ! (i + 1) * cos (th ! (i + 1)))) \<and>
              (pol = kP \<longrightarrow>
                 t_list ! i =
                   2 * n ! i * cos (th ! i) /
                   (n ! (i + 1) * cos (th ! i) + n ! i * cos (th ! (i + 1))) \<and>
                 r_list ! i =
                   (n ! (i + 1) * cos (th ! i) - n ! i * cos (th ! (i + 1))) /
                   (n ! (i + 1) * cos (th ! i) + n ! i * cos (th ! (i + 1))))) \<and>
           opacity_loop [1..<length n - 1]
             (delta_of (length n) (kz_list_of (length n) n th lam) (fThicknessList ml), w, []) =
             Some (delta, w', msgs') \<and>
           M_loop t_list r_list delta [1..<length n - 1] [A2x2ComplexMatrix 0 0 0 0] =
             Some M_inner \<and>
           CoherentTMM pol th_0 lam ml w = Some res \<and>
           (reflectance res, transmittance res) =
             powers pol n th_0 th
               (amplitudes
                  (Mtilde_of (length n) t_list r_list (M_inner @ [A2x2ComplexMatrix 0 0 0 0])))"
proof -
  note R1 = CoherentTMM_run(1) [OF assms(1-3), where ?th_0.0 = th_0 and lam = lam, folded n]
  note R2 = CoherentTMM_run(2) [OF assms(1-3), where ?th_0.0 = th_0 and lam = lam and pol = pol, folded n]
  note R4 = CoherentTMM_run(4) [OF assms(1-3), where ?th_0.0 = th_0 and lam = lam and w = w, folded n]
  note R5 = CoherentTMM_run(5) [OF assms(1-3), where ?th_0.0 = th_0 and lam = lam and pol = pol, folded n]
  note R8 = CoherentTMM_run(8) [OF assms(1-3), where ?th_0.0 = th_0 and lam = lam and pol = pol and w = w, folded n]
  let ?th = "th_list_spec n th_0"
  let ?t = "fst (fresnel_lists pol (length n) n ?th)"
  let ?r = "snd (fresnel_lists pol (length n) n ?th)"
  have f2: "fresnel_lists pol (length n) n ?th = (?t, ?r)" by simp
  have f3: "\<forall>i. i + 1 < length n \<longrightarrow>
              (pol = kS \<longrightarrow>
                 ?t ! i =
                   2 * n ! i * cos (?th ! i) /
                   (n ! i * cos (?th ! i) + n ! (i + 1) * cos (?th ! (i + 1))) \<and>
                 ?r ! i =
                   (n ! i * cos (?th ! i) - n ! (i + 1) * cos (?th ! (i + 1))) /
                   (n ! i * cos (?th ! i) + n ! (i + 1) * cos (?th ! (i + 1)))) \<and>
              (pol = kP \<longrightarrow>
                 ?t ! i =
                   2 * n ! i * cos (?th ! i) /
                   (n ! (i + 1) * cos (?th ! i) + n ! i * cos (?th ! (i + 1))) \<and>
                 ?r ! i =
                   (n ! (i + 1) * cos (?th ! i) - n ! i * cos (?th ! (i + 1))) /
                   (n ! (i + 1) * cos (?th ! i) + n ! i * cos (?th ! (i + 1))))"
  proof (intro allI impI)
    fix i assume "i + 1 < length n"
    then have "i < length n - 1" by simp
    then have e: "?t ! i = spec_t pol n ?th i" "?r ! i = spec_r pol n ?th i"
      using R2 by simp_all
    show "(pol = kS \<longrightarrow>
                 ?t ! i =
                   2 * n ! i * cos (?th ! i) /
                   (n ! i * cos (?th ! i) + n ! (i + 1) * cos (?th ! (i + 1))) \<and>
                 ?r ! i =
                   (n ! i * cos (?th ! i) - n ! (i + 1) * cos (?th ! (i + 1))) /
                   (n ! i * cos (?th ! i) + n ! (i + 1) * cos (?th ! (i + 1)))) \<and>
              (pol = kP \<longrightarrow>
                 ?t ! i =
                   2 * n ! i * cos (?th ! i) /
                   (n ! (i + 1) * cos (?th ! i) + n ! i * cos (?th ! (i + 1))) \<and>
                 ?r ! i =
                   (n ! (i + 1) * cos (?th ! i) - n ! i * cos (?th ! (i + 1))) /
                   (n ! (i + 1) * cos (?th ! i) + n ! i * cos (?th ! (i + 1))))"
      unfolding e by (cases pol) (simp_all add: spec_t_def spec_r_def)
  qed
  show ?thesis
    apply (intro exI conjI)
          apply (rule R1)
         apply (rule f2)
        apply (rule f3)
       apply (rule R4)
      apply (rule R5)
     apply (rule R8)
    apply simp
    done
qed

theorem fresnel_amplitudes_witness:
  "2 \<le> length (fRefractiveIndexList (two_layers 1 3)) \<and>
   length (fRefractiveIndexList (two_layers 1 3)) \<le> length (fThicknessList (two_layers 1 3)) \<and>
   fst (fresnel_lists kS 2 [1, 3] [0, 0]) ! 0 = 1 / 2 \<and>
   snd (fresnel_lists kS 2 [1, 3] [0, 0]) ! 0 = - 1 / 2 \<and>
   (\<exists>res. CoherentTMM kS 0 1 (two_layers 1 3) False = Some res \<and>
      reflectance res = 1 / 4 \<and> transmittance res = 3 / 4)"
proof -
  let ?Z = "A2x2ComplexMatrix 0 0 0 0"
  have h: "2 \<le> length (fRefractiveIndexList (two_layers 1 3))"
    "length (fRefractiveIndexList (two_layers 1 3)) \<le> length (fThicknessList (two_layers 1 3))"
    "\<forall>i. 1 \<le> i \<and> i < length (fRefractiveIndexList (two_layers 1 3)) - 1 \<longrightarrow>
        fThicknessList (two_layers 1 3) ! i = Finite ((\<lambda>i. 0) i)"
    by (simp_all add: two_layers_def)
  have n: "[1, 3] = map (\<lambda>idx. idx 1) (fRefractiveIndexList (two_layers 1 3))"
    by (simp add: two_layers_def AConstantIndex_def)
  from fresnel_amplitudes [OF h n, where ?th_0.0 = 0 and pol = kS and w = False]
  obtain th msgs t_list r_list delta M_inner res where
    ls: "ListSnell (two_layers 1 3) 0 [1, 3] [] = Some (th, msgs)"
    and fl: "fresnel_lists kS (length [1, 3 :: complex]) [1, 3] th = (t_list, r_list)"
    and t0: "t_list ! 0 =
       2 * [1, 3] ! 0 * cos (th ! 0) / ([1, 3] ! 0 * cos (th ! 0) + [1, 3] ! (0 + 1) * cos (th ! (0 + 1)))"
    and r0: "r_list ! 0 =
       ([1, 3] ! 0 * cos (th ! 0) - [1, 3] ! (0 + 1) * cos (th ! (0 + 1))) /
       ([1, 3] ! 0 * cos (th ! 0) + [1, 3] ! (0 + 1) * cos (th ! (0 + 1)))"
    and ml: "M_loop t_list r_list delta [1..<length [1, 3 :: complex] - 1] [?Z] = Some M_inner"
    and run: "CoherentTMM kS 0 1 (two_layers 1 3) False = Some res"
    and rt: "(reflectance res, transmittance res) =
       powers kS [1, 3] 0 th (amplitudes (Mtilde_of (length [1, 3 :: complex]) t_list r_list (M_inner @ [?Z])))"
    by force
  have "ListSnell (two_layers 1 3) 0 [1, 3] [] = Some (th_list_spec [1, 3] 0, snell_messages [1, 3] 0)"
    by (rule ListSnell_th_list_spec [OF h(1)]) (simp add: two_layers_def)
  then have th: "th = [0, 0]" using ls by (simp add: th_list_spec_1_3)
  have t: "t_list ! 0 = 1 / 2" and r: "r_list ! 0 = - 1 / 2"
    using t0 r0 by (simp_all add: th)
  have Mi: "M_inner = [?Z]" using ml by simp
  have Mt: "Mtilde_of (length [1, 3 :: complex]) t_list r_list (M_inner @ [?Z]) =
      A2x2ComplexMatrix 2 (- 1) (- 1) 2"
    unfolding Mtilde_of_product by (simp add: t r scalar_mult_def mat_mult_def)
  have "(reflectance res, transmittance res) = (1 / 4, 3 / 4)"
    unfolding rt Mt by (simp add: powers_def amplitudes_def th norm_divide norm_mult)
  then have res: "reflectance res = 1 / 4" "transmittance res = 3 / 4" by simp_all
  have len2: "length [1, 3 :: complex] = 2" by simp
  have "fst (fresnel_lists kS 2 [1, 3] [0, 0]) ! 0 = 1 / 2"
    "snd (fresnel_lists kS 2 [1, 3] [0, 0]) ! 0 = - 1 / 2"
    unfolding fl [unfolded th len2] fst_conv snd_conv by (rule t, rule r)
  then show ?thesis using h(1,2) run res by blast
qed

text \<open>
  C8. On a stack of at least two layers with finite interior thicknesses the
  opacity loop replaces the phase of every interior layer whose imaginary part exceeds 35
  by its real part plus \<open>35 i\<close>, leaves the other interior phases and the two end entries
  as they were, and sets the flag and prints the warning exactly when the clamp applied
  and the flag was not set: the solve then prints the warning once, and otherwise not at
  all. The returned \<open>R\<close> and \<open>T\<close> are computed from the matrices built with the clamped
  phases. In a process of solves on such stacks that starts with the flag unset, every
  solve runs to its end and the warning is printed at most once in the whole process. The
  value of the flag at the start of a solve does not change the returned \<open>R\<close> and \<open>T\<close>.
\<close>

theorem opacity_clamp:
  assumes "2 \<le> length (fRefractiveIndexList ml)"
    and "length (fRefractiveIndexList ml) \<le> length (fThicknessList ml)"
    and "\<forall>i. 1 \<le> i \<and> i < length (fRefractiveIndexList ml) - 1 \<longrightarrow>
           fThicknessList ml ! i = Finite (x i)"
    and n: "n = map (\<lambda>idx. idx lam) (fRefractiveIndexList ml)"
    and th: "th = th_list_spec n th_0"
    and delta: "delta = delta_of (length n) (kz_list_of (length n) n th lam) (fThicknessList ml)"
    and calls: "\<forall>c \<in> set calls. finite_interior (snd (snd (snd c)))"
  shows "(\<exists>delta' w' msgs'.
            opacity_loop [1..<length n - 1] (delta, w, []) = Some (delta', w', msgs') \<and>
            (\<forall>i. 1 \<le> i \<and> i < length n - 1 \<longrightarrow>
               delta ! i = Some (spec_phase n th lam x i) \<and>
               delta' ! i = Some (spec_delta n th lam x i) \<and>
               spec_delta n th lam x i =
                 (if Im (spec_phase n th lam x i) > 35
                  then of_real (Re (spec_phase n th lam x i)) + 35 * \<i>
                  else spec_phase n th lam x i)) \<and>
            delta' ! 0 = delta ! 0 \<and>
            delta' ! (length n - 1) = delta ! (length n - 1) \<and>
            w' = (w \<or> opaque n th lam x) \<and>
            msgs' = (if \<not> w \<and> opaque n th lam x then [OpacityWarning] else []) \<and>
            (\<exists>res. CoherentTMM pol th_0 lam ml w = Some res \<and> warned res = w' \<and>
               count_list (messages res) OpacityWarning = length msgs' \<and>
               (reflectance res, transmittance res) =
                 powers pol n th_0 th
                   (amplitudes (spec_Mtilde pol n th (spec_delta n th lam x))))) \<and>
         (\<exists>printed. process_messages calls False = Some printed \<and>
            count_list printed OpacityWarning \<le> 1) \<and>
         map_option (\<lambda>res. (reflectance res, transmittance res))
           (CoherentTMM pol' th_0' lam' ml' True) =
         map_option (\<lambda>res. (reflectance res, transmittance res))
           (CoherentTMM pol' th_0' lam' ml' False)"
proof -
  note R3 = CoherentTMM_run(3) [OF assms(1-3), where ?th_0.0 = th_0 and lam = lam, folded n, folded th, folded delta]
  note R4 = CoherentTMM_run(4) [OF assms(1-3), where ?th_0.0 = th_0 and lam = lam and w = w, folded n, folded th, folded delta]
  note R9 = CoherentTMM_run(9) [OF assms(1-3), where ?th_0.0 = th_0 and lam = lam, folded n, folded th, folded delta]
  note R10 = CoherentTMM_run(10) [OF assms(1-3), where ?th_0.0 = th_0 and lam = lam, folded n, folded th, folded delta]
  note R11 = CoherentTMM_run(11) [OF assms(1-3), where ?th_0.0 = th_0 and lam = lam, folded n, folded th, folded delta]
  have cl: "spec_delta n th lam x i =
      (if Im (spec_phase n th lam x i) > 35
       then of_real (Re (spec_phase n th lam x i)) + 35 * \<i>
       else spec_phase n th lam x i)" for i
    by (simp add: spec_delta_def clamp_def complex_eq_iff)
  define res where "res =
      \<lparr>messages = input_tests n th_0 @ snell_messages n th_0 @
                              (if \<not> w \<and> opaque n th lam x then [OpacityWarning] else []),
                   warned = (w \<or> opaque n th lam x),
                   reflectance = fst (powers pol n th_0 th (amplitudes (spec_Mtilde pol n th (spec_delta n th lam x)))),
                   transmittance = snd (powers pol n th_0 th (amplitudes (spec_Mtilde pol n th (spec_delta n th lam x))))\<rparr>"
  have run: "CoherentTMM pol th_0 lam ml w = Some res"
    using CoherentTMM_Some [OF assms(1-3), of pol th_0 lam w] unfolding n th res_def by simp
  have a1: "warned res = (w \<or> opaque n th lam x)" by (simp add: res_def)
  have "count_list (input_tests n th_0) OpacityWarning = 0"
    "count_list (snell_messages n th_0) OpacityWarning = 0"
    using input_tests_no_opacity [of n th_0] snell_messages_set(1) [of n th_0]
    by (simp_all add: count_list_0_iff)
  then have a2: "count_list (messages res) OpacityWarning =
      length (if \<not> w \<and> opaque n th lam x then [OpacityWarning] else [])"
    by (simp add: res_def)
  have a3: "(reflectance res, transmittance res) =
      powers pol n th_0 th (amplitudes (spec_Mtilde pol n th (spec_delta n th lam x)))"
    by (simp add: res_def)
  have first: "\<exists>delta' w' msgs'.
            opacity_loop [1..<length n - 1] (delta, w, []) = Some (delta', w', msgs') \<and>
            (\<forall>i. 1 \<le> i \<and> i < length n - 1 \<longrightarrow>
               delta ! i = Some (spec_phase n th lam x i) \<and>
               delta' ! i = Some (spec_delta n th lam x i) \<and>
               spec_delta n th lam x i =
                 (if Im (spec_phase n th lam x i) > 35
                  then of_real (Re (spec_phase n th lam x i)) + 35 * \<i>
                  else spec_phase n th lam x i)) \<and>
            delta' ! 0 = delta ! 0 \<and>
            delta' ! (length n - 1) = delta ! (length n - 1) \<and>
            w' = (w \<or> opaque n th lam x) \<and>
            msgs' = (if \<not> w \<and> opaque n th lam x then [OpacityWarning] else []) \<and>
            (\<exists>res. CoherentTMM pol th_0 lam ml w = Some res \<and> warned res = w' \<and>
               count_list (messages res) OpacityWarning = length msgs' \<and>
               (reflectance res, transmittance res) =
                 powers pol n th_0 th
                   (amplitudes (spec_Mtilde pol n th (spec_delta n th lam x))))"
    apply (intro exI conjI)
            apply (rule R4)
           apply (intro allI impI conjI)
             apply (rule R3 [rule_format], assumption)
            apply (rule R9 [rule_format], assumption)
           apply (rule cl)
          apply (rule R10)
         apply (rule R11)
        apply (rule refl)
       apply (rule refl)
       apply (rule run)
      apply (rule a1)
     apply (rule a2)
    apply (rule a3)
    done
  have second: "\<exists>printed. process_messages calls False = Some printed \<and>
            count_list printed OpacityWarning \<le> 1"
    using process_messages_count [OF calls, of False] by simp
  show ?thesis
    using first second CoherentTMM_flag_independent [of pol' th_0' lam' ml' True False]
    by blast
qed

theorem opacity_clamp_witness:
  "2 \<le> length (fRefractiveIndexList (three_layers 1 \<i> 10 1)) \<and>
   length (fRefractiveIndexList (three_layers 1 \<i> 10 1)) \<le>
     length (fThicknessList (three_layers 1 \<i> 10 1)) \<and>
   fThicknessList (three_layers 1 \<i> 10 1) ! 1 = Finite 10 \<and>
   finite_interior (three_layers 1 \<i> 10 1) \<and>
   spec_phase [1, \<i>, 1] (th_list_spec [1, \<i>, 1] 0) 1 (\<lambda>i. 10) (Suc 0) = of_real (20 * pi) * \<i> \<and>
   spec_delta [1, \<i>, 1] (th_list_spec [1, \<i>, 1] 0) 1 (\<lambda>i. 10) (Suc 0) = 35 * \<i> \<and>
   (\<exists>res. CoherentTMM kS 0 1 (three_layers 1 \<i> 10 1) False = Some res \<and> warned res \<and>
      count_list (messages res) OpacityWarning = 1) \<and>
   (\<exists>printed.
      process_messages
        [(kS, 0, 1, three_layers 1 \<i> 10 1), (kP, 0, 1, three_layers 1 \<i> 10 1)] False =
        Some printed \<and>
      count_list printed OpacityWarning \<le> 1) \<and>
   spec_delta [3, 1, 3] (th_list_spec [3, 1, 3] (of_real (pi / 6))) 1 (\<lambda>i. 10) (Suc 0) =
     Complex 0 (- (10 * pi * sqrt 5)) \<and>
   (\<exists>res. CoherentTMM kS (of_real (pi / 6)) 1 (three_layers 3 1 10 3) False = Some res \<and>
      \<not> warned res \<and> count_list (messages res) OpacityWarning = 0)"
proof -
  let ?A = "three_layers 1 \<i> 10 1"
  let ?B = "three_layers 3 1 10 3"
  have hA: "2 \<le> length (fRefractiveIndexList ?A)"
    "length (fRefractiveIndexList ?A) \<le> length (fThicknessList ?A)"
    "\<forall>i. 1 \<le> i \<and> i < length (fRefractiveIndexList ?A) - 1 \<longrightarrow>
        fThicknessList ?A ! i = Finite ((\<lambda>i. 10) i)"
    using three_layers_wf [of 1 \<i> 10 1] by simp_all
  have hB: "2 \<le> length (fRefractiveIndexList ?B)"
    "length (fRefractiveIndexList ?B) \<le> length (fThicknessList ?B)"
    "\<forall>i. 1 \<le> i \<and> i < length (fRefractiveIndexList ?B) - 1 \<longrightarrow>
        fThicknessList ?B ! i = Finite ((\<lambda>i. 10) i)"
    using three_layers_wf [of 3 1 10 3] by simp_all
  have nA: "[1, \<i>, 1] = map (\<lambda>idx. idx 1) (fRefractiveIndexList ?A)"
    by (simp add: three_layers_def AConstantIndex_def)
  have nB: "[3, 1, 3] = map (\<lambda>idx. idx 1) (fRefractiveIndexList ?B)"
    by (simp add: three_layers_def AConstantIndex_def)
  have calls: "\<forall>c \<in> set [(kS, 0, 1, ?A), (kP, 0, 1, ?A)]. finite_interior (snd (snd (snd c)))"
    by (simp add: finite_interior_three_layers)
  have none: "\<forall>c \<in> set ([] :: solve_call list). finite_interior (snd (snd (snd c)))"
    by simp
  let ?thA = "th_list_spec [1, \<i>, 1] 0"
  let ?thB = "th_list_spec [3, 1, 3] (of_real (pi / 6))"
  have th1: "?thA ! Suc 0 = 0"
    by (simp add: th_list_spec_def snell_angle_def asin_0 upt_rec)
  have ph: "spec_phase [1, \<i>, 1] ?thA 1 (\<lambda>i. 10) (Suc 0) = of_real (20 * pi) * \<i>"
    by (simp add: spec_phase_def th1)
  have big: "35 < 20 * pi" using pi_ge_two by simp
  have op: "opaque [1, \<i>, 1] ?thA 1 (\<lambda>i. 10)"
    unfolding opaque_def using big by (intro bexI [of _ "Suc 0"]) (simp_all add: ph)
  have nop: "\<not> opaque [3, 1, 3] ?thB 1 (\<lambda>i. 10)"
    by (rule not_opaque_glass_gap(2)) simp
  have small: "\<not> 35 < Im (spec_phase [3, 1, 3] ?thB 1 (\<lambda>i. 10) (Suc 0))"
    by (rule not_opaque_glass_gap(1)) simp
  note TA = opacity_clamp [where ?th_0.0 = 0 and w = False and pol = kS, OF hA nA refl refl calls]
  have A1: "spec_delta [1, \<i>, 1] ?thA 1 (\<lambda>i. 10) (Suc 0) =
       (if Im (spec_phase [1, \<i>, 1] ?thA 1 (\<lambda>i. 10) (Suc 0)) > 35
        then of_real (Re (spec_phase [1, \<i>, 1] ?thA 1 (\<lambda>i. 10) (Suc 0))) + 35 * \<i>
        else spec_phase [1, \<i>, 1] ?thA 1 (\<lambda>i. 10) (Suc 0))"
    using TA [THEN conjunct1]
    apply (elim exE conjE)
    apply (erule allE [of _ "Suc 0"])
    apply (erule impE)
     apply simp
    apply (elim conjE)
    apply assumption
    done
  from TA [THEN conjunct1] obtain w' and msgs' :: "message list" and res where
    A: "w' = (False \<or> opaque [1, \<i>, 1] ?thA 1 (\<lambda>i. 10))"
    "msgs' = (if \<not> False \<and> opaque [1, \<i>, 1] ?thA 1 (\<lambda>i. 10) then [OpacityWarning] else [])"
    "CoherentTMM kS 0 1 ?A False = Some res" "warned res = w'"
    "count_list (messages res) OpacityWarning = length msgs'"
    by (elim exE conjE) (rule that)
  from TA [THEN conjunct2, THEN conjunct1] obtain printed where
    P: "process_messages [(kS, 0, 1, ?A), (kP, 0, 1, ?A)] False = Some printed"
    "count_list printed OpacityWarning \<le> 1"
    by (elim exE conjE) (rule that)
  have rA: "spec_delta [1, \<i>, 1] ?thA 1 (\<lambda>i. 10) (Suc 0) = 35 * \<i>"
    using A1 big by (simp add: ph)
  have sA: "\<exists>res. CoherentTMM kS 0 1 ?A False = Some res \<and> warned res \<and>
      count_list (messages res) OpacityWarning = 1"
    using A op by auto
  have pA: "\<exists>printed.
      process_messages [(kS, 0, 1, ?A), (kP, 0, 1, ?A)] False = Some printed \<and>
      count_list printed OpacityWarning \<le> 1"
    using P by blast
  note TB = opacity_clamp [where ?th_0.0 = "of_real (pi / 6)" and w = False and pol = kS,
      OF hB nB refl refl none]
  have B1: "spec_delta [3, 1, 3] ?thB 1 (\<lambda>i. 10) (Suc 0) =
       (if Im (spec_phase [3, 1, 3] ?thB 1 (\<lambda>i. 10) (Suc 0)) > 35
        then of_real (Re (spec_phase [3, 1, 3] ?thB 1 (\<lambda>i. 10) (Suc 0))) + 35 * \<i>
        else spec_phase [3, 1, 3] ?thB 1 (\<lambda>i. 10) (Suc 0))"
    using TB [THEN conjunct1]
    apply (elim exE conjE)
    apply (erule allE [of _ "Suc 0"])
    apply (erule impE)
     apply simp
    apply (elim conjE)
    apply assumption
    done
  from TB [THEN conjunct1] obtain w' and msgs' :: "message list" and res where
    B: "w' = (False \<or> opaque [3, 1, 3] ?thB 1 (\<lambda>i. 10))"
    "msgs' = (if \<not> False \<and> opaque [3, 1, 3] ?thB 1 (\<lambda>i. 10) then [OpacityWarning] else [])"
    "CoherentTMM kS (of_real (pi / 6)) 1 ?B False = Some res" "warned res = w'"
    "count_list (messages res) OpacityWarning = length msgs'"
    by (elim exE conjE) (rule that)
  have rB: "spec_delta [3, 1, 3] ?thB 1 (\<lambda>i. 10) (Suc 0) = Complex 0 (- (10 * pi * sqrt 5))"
  proof -
    have "\<not> 35 < - (10 * pi * sqrt 5)"
      using small unfolding phase_glass_gap by simp
    then show ?thesis using B1 unfolding phase_glass_gap by simp
  qed
  have sB: "\<exists>res. CoherentTMM kS (of_real (pi / 6)) 1 ?B False = Some res \<and>
      \<not> warned res \<and> count_list (messages res) OpacityWarning = 0"
    using B nop by auto
  have "fThicknessList ?A ! 1 = Finite 10" by (simp add: three_layers_def)
  then show ?thesis
    using hA(1,2) finite_interior_three_layers [of 1 \<i> 10 1] ph rA sA pA rB sB by blast
qed

text \<open>
  C9. The constructor yields the two layers \<open>[top, bottom]\<close>, both with infinite
  thickness. After any sequence of insertions the stack is the top layer, the inserted
  layers in the order of insertion, and the bottom layer: its length is at least 2, its
  first layer is the original top and its last layer the original bottom, both still with
  infinite thickness; and one more insertion puts the new layer immediately before the
  last one.
\<close>

theorem stack_structure:
  "\<exists>ml0 ml ml'.
     AMultilayer_new t b = Some ml0 \<and>
     fRefractiveIndexList ml0 = [t, b] \<and>
     fThicknessList ml0 = [PlusInfinity, PlusInfinity] \<and>
     InsertLayers ls ml0 = Some ml \<and>
     fRefractiveIndexList ml = t # map fst ls @ [b] \<and>
     fThicknessList ml = PlusInfinity # map snd ls @ [PlusInfinity] \<and>
     2 \<le> length (fRefractiveIndexList ml) \<and>
     length (fThicknessList ml) = length (fRefractiveIndexList ml) \<and>
     fRefractiveIndexList ml ! 0 = t \<and>
     fRefractiveIndexList ml ! (length (fRefractiveIndexList ml) - 1) = b \<and>
     fThicknessList ml ! 0 = PlusInfinity \<and>
     fThicknessList ml ! (length (fThicknessList ml) - 1) = PlusInfinity \<and>
     InsertLayer idx d ml = Some ml' \<and>
     fRefractiveIndexList ml' = t # map fst ls @ [idx, b] \<and>
     fThicknessList ml' = PlusInfinity # map snd ls @ [d, PlusInfinity]"
proof -
  let ?start = "\<lparr>fRefractiveIndexList = [t, b], fThicknessList = [PlusInfinity, PlusInfinity]\<rparr>"
  let ?mid = "\<lparr>fRefractiveIndexList = t # map fst ls @ [b],
              fThicknessList = PlusInfinity # map snd ls @ [PlusInfinity]\<rparr>"
  let ?final = "\<lparr>fRefractiveIndexList = t # map fst ls @ [idx, b],
              fThicknessList = PlusInfinity # map snd ls @ [d, PlusInfinity]\<rparr>"
  have new: "AMultilayer_new t b = Some ?start" by (rule AMultilayer_new_eq)
  have ins: "InsertLayers ls ?start = Some ?mid"
    using InsertLayers_eq [of ls t "[]" b PlusInfinity "[]" PlusInfinity] by simp
  have one: "InsertLayer idx d ?mid = Some ?final"
    by (simp add: InsertLayer_eq butlast_append)
  have lasts: "(t # map fst ls @ [b]) ! (length (t # map fst ls @ [b]) - 1) = b"
    "(PlusInfinity # map snd ls @ [PlusInfinity]) ! (length (PlusInfinity # map snd ls @ [PlusInfinity]) - 1) = PlusInfinity"
    by (simp_all add: nth_append)
  show ?thesis
    apply (rule exI [of _ ?start], rule exI [of _ ?mid], rule exI [of _ ?final])
    using new ins one lasts by simp
qed

text \<open>
  C10. On every stack with at least one layer, \<^verbatim>\<open>InsertLayer\<close> succeeds for every
  thickness value (zero, negative, infinite and NaN included) and stores the model and the
  thickness exactly as given, immediately before the last layer.
\<close>

theorem InsertLayer_no_validation:
  assumes "fRefractiveIndexList ml \<noteq> []" and "fThicknessList ml \<noteq> []"
  shows "\<exists>ml'. InsertLayer idx d ml = Some ml' \<and>
           fRefractiveIndexList ml' = butlast (fRefractiveIndexList ml) @ [idx, last (fRefractiveIndexList ml)] \<and>
           fThicknessList ml' = butlast (fThicknessList ml) @ [d, last (fThicknessList ml)] \<and>
           fThicknessList ml' ! (length (fThicknessList ml) - 1) = d"
  using assms by (simp add: InsertLayer_eq nth_append)

theorem InsertLayer_no_validation_witness:
  "fRefractiveIndexList (two_layers 1 1) \<noteq> [] \<and> fThicknessList (two_layers 1 1) \<noteq> [] \<and>
   (\<exists>ml'. InsertLayer (AConstantIndex 2) (Finite (- 5)) (two_layers 1 1) = Some ml' \<and>
      fThicknessList ml' = [PlusInfinity, Finite (- 5), PlusInfinity]) \<and>
   (\<exists>ml'. InsertLayer (AConstantIndex 2) (Finite 0) (two_layers 1 1) = Some ml' \<and>
      fThicknessList ml' = [PlusInfinity, Finite 0, PlusInfinity]) \<and>
   (\<exists>ml'. InsertLayer (AConstantIndex 2) PlusInfinity (two_layers 1 1) = Some ml' \<and>
      fThicknessList ml' = [PlusInfinity, PlusInfinity, PlusInfinity]) \<and>
   (\<exists>ml'. InsertLayer (AConstantIndex 2) NotANumber (two_layers 1 1) = Some ml' \<and>
      fThicknessList ml' = [PlusInfinity, NotANumber, PlusInfinity])"
proof -
  have h: "fRefractiveIndexList (two_layers 1 1) \<noteq> []" "fThicknessList (two_layers 1 1) \<noteq> []"
    by (simp_all add: two_layers_def)
  have l: "butlast (fThicknessList (two_layers 1 1)) @ [d, last (fThicknessList (two_layers 1 1))] =
      [PlusInfinity, d, PlusInfinity]" for d
    by (simp add: two_layers_def)
  have "\<exists>ml'. InsertLayer (AConstantIndex 2) d (two_layers 1 1) = Some ml' \<and>
        fThicknessList ml' = [PlusInfinity, d, PlusInfinity]" for d
    using InsertLayer_no_validation [OF h, of "AConstantIndex 2" d] unfolding l by blast
  then show ?thesis using h by blast
qed

end
